(* ===== verification/Noci_Prelude.thy ===== *)
theory Noci_Prelude
  imports Main "HOL-Library.Finite_Map"
begin

text \<open>
  Shared vocabulary of the development: Go's 64-bit integers with their wrap-around written
  out, \<open>time.Time\<close> and \<open>time.Duration\<close>, Go maps (finite, possibly nil), the result types of
  operations that fail or panic, and the generic list lemmas the components use.
\<close>

named_theorems go_defs \<open>definitions of the Go runtime functions, unfolded together\<close>
named_theorems keyed \<open>facts about lookups and deletions in Go maps\<close>

section \<open>Results\<close>

text \<open>
  A Go function that returns \<open>(T, error)\<close> gives \<open>error + T\<close>. An operation that can panic
  (a slice expression out of range, a write to a nil map) gives an \<open>option\<close>, where None is the
  panic.
\<close>

section \<open>64-bit integers\<close>

text \<open>
  Go's \<open>int64\<close> and (on the 64-bit targets the flake builds) \<open>int\<close> wrap around silently. A
  value is an \<open>int\<close> in the range below, and every operation that can leave it is followed
  by \<open>wrap64\<close>.
\<close>

definition min64 :: int where "min64 = - (2 ^ 63)"
definition max64 :: int where "max64 = 2 ^ 63 - 1"

definition wrap64 :: "int \<Rightarrow> int" where
  "wrap64 x = (x + 2 ^ 63) mod 2 ^ 64 - 2 ^ 63"

definition in64 :: "int \<Rightarrow> bool" where
  "in64 x \<longleftrightarrow> min64 \<le> x \<and> x \<le> max64"

definition add64 :: "int \<Rightarrow> int \<Rightarrow> int" where
  "add64 a b = wrap64 (a + b)"

definition sub64 :: "int \<Rightarrow> int \<Rightarrow> int" where
  "sub64 a b = wrap64 (a - b)"

definition mul64 :: "int \<Rightarrow> int \<Rightarrow> int" where
  "mul64 a b = wrap64 (a * b)"

lemma wrap64_in64 [simp]: "in64 (wrap64 x)"
  by (simp add: in64_def wrap64_def min64_def max64_def)

lemma wrap64_id: "in64 x \<Longrightarrow> wrap64 x = x"
  by (simp add: in64_def wrap64_def min64_def max64_def)

lemma in64_0 [simp]: "in64 0"
  by (simp add: in64_def min64_def max64_def)

lemma in64_between: "in64 b \<Longrightarrow> 0 \<le> a \<Longrightarrow> a \<le> b \<Longrightarrow> in64 a"
  by (simp add: in64_def min64_def)

lemma wrap64_0 [simp]: "wrap64 0 = 0"
  by (simp add: wrap64_id)

lemma wrap64_wrap64 [simp]: "wrap64 (wrap64 x) = wrap64 x"
  by (simp add: wrap64_id)

lemma wrap64_eq_iff: "wrap64 a = wrap64 b \<longleftrightarrow> (2 ^ 64 dvd (a - b))"
  by (simp add: wrap64_def mod_eq_dvd_iff)

lemma wrap64_add_left [simp]: "wrap64 (wrap64 a + b) = wrap64 (a + b)"
proof -
  have "wrap64 a - a = ((a + 2 ^ 63) mod 2 ^ 64 - (a + 2 ^ 63))"
    by (simp add: wrap64_def)
  then have "2 ^ 64 dvd (wrap64 a - a)"
    by (metis dvd_minus_mod dvd_diff_commute)
  then show ?thesis by (simp add: wrap64_eq_iff)
qed

lemma wrap64_add_right [simp]: "wrap64 (a + wrap64 b) = wrap64 (a + b)"
  by (metis add.commute wrap64_add_left)

lemma wrap64_diff_left [simp]: "wrap64 (wrap64 a - b) = wrap64 (a - b)"
  by (metis diff_conv_add_uminus wrap64_add_left)

lemma wrap64_diff_right [simp]: "wrap64 (a - wrap64 b) = wrap64 (a - b)"
proof -
  have "2 ^ 64 dvd (b - wrap64 b)"
    by (metis wrap64_eq_iff wrap64_wrap64)
  then have "2 ^ 64 dvd ((a - wrap64 b) - (a - b))" by simp
  then show ?thesis by (simp only: wrap64_eq_iff)
qed

text \<open>The loop \<open>for ... { sum += x }\<close> over an int64 accumulator.\<close>

definition sum64_from :: "int \<Rightarrow> int list \<Rightarrow> int" where
  "sum64_from a xs = foldl add64 a xs"

lemma sum64_from_Nil [simp]: "sum64_from a [] = a"
  by (simp add: sum64_from_def)

lemma sum64_from_Cons [simp]: "sum64_from a (x # xs) = sum64_from (add64 a x) xs"
  by (simp add: sum64_from_def)

lemma sum64_from_eq: "in64 a \<Longrightarrow> sum64_from a xs = wrap64 (a + sum_list xs)"
proof (induction xs arbitrary: a)
  case Nil
  then show ?case by (simp add: wrap64_id)
next
  case (Cons x xs)
  show ?case by (simp add: Cons.IH add64_def add.assoc)
qed

lemma sum64_from_0: "sum64_from 0 xs = wrap64 (sum_list xs)"
  by (simp add: sum64_from_eq)

section \<open>Time\<close>

text \<open>
  A \<open>time.Time\<close> is its number of nanoseconds since the zero time (January 1, year 1,
  00:00 UTC), so the zero time is 0. A \<open>time.Duration\<close> is an int64 number of
  nanoseconds. Every reading of \<open>time.Now()\<close> is an argument of the operation that reads it.
  \<open>Unix\<close> floors to seconds and counts from 1970; \<open>Sub\<close> saturates.
\<close>

type_synonym time = int
type_synonym duration = int

definition nanosecond :: duration where "nanosecond = 1"
definition second :: duration where "second = 1000000000"
definition minute :: duration where "minute = 60 * second"
definition hour :: duration where "hour = 60 * minute"

definition is_zero :: "time \<Rightarrow> bool" where
  "is_zero t \<longleftrightarrow> t = 0"

definition unix :: "time \<Rightarrow> int" where
  "unix t = t div second - 62135596800"

definition time_sub :: "time \<Rightarrow> time \<Rightarrow> duration" where
  "time_sub t u = max min64 (min max64 (t - u))"

lemma unix_mono: "s \<le> t \<Longrightarrow> unix s \<le> unix t"
  by (simp add: unix_def second_def zdiv_mono1)

lemma time_sub_less_iff:
  "in64 d \<Longrightarrow> min64 < d \<Longrightarrow> time_sub t u < d \<longleftrightarrow> t - u < d"
  by (auto simp: time_sub_def in64_def)

section \<open>Go maps\<close>

text \<open>
  A Go map is finite; a map variable is nil (None) or holds a map. Reading, \<open>len\<close> and
  \<open>delete\<close> treat nil as empty; assigning to a key of a nil map panics. A \<open>range\<close> loop
  visits the keys in an unspecified order that may differ from loop to loop: a definition that
  ranges over a map takes the order of that loop as a list argument, and \<open>enumerates\<close> says
  that the list is one of the possible orders. Theorems hold for every order.
\<close>

type_synonym 'v gomap = "(string, 'v) fmap option"

definition gm_fm :: "'v gomap \<Rightarrow> (string, 'v) fmap" where
  "gm_fm m = (case m of None \<Rightarrow> fmempty | Some f \<Rightarrow> f)"

definition gm_get :: "'v gomap \<Rightarrow> string \<Rightarrow> 'v option" where
  "gm_get m k = fmlookup (gm_fm m) k"

definition gm_keys :: "'v gomap \<Rightarrow> string set" where
  "gm_keys m = fmdom' (gm_fm m)"

definition gm_len :: "'v gomap \<Rightarrow> nat" where
  "gm_len m = card (gm_keys m)"

definition gm_make :: "'v gomap" where
  "gm_make = Some fmempty"

definition gm_set :: "'v gomap \<Rightarrow> string \<Rightarrow> 'v \<Rightarrow> 'v gomap option" where
  "gm_set m k v = (case m of None \<Rightarrow> None | Some f \<Rightarrow> Some (Some (fmupd k v f)))"

definition gm_del :: "'v gomap \<Rightarrow> string \<Rightarrow> 'v gomap" where
  "gm_del m k = map_option (fmdrop k) m"

definition enumerates :: "string list \<Rightarrow> (string, 'v) fmap \<Rightarrow> bool" where
  "enumerates ks m \<longleftrightarrow> distinct ks \<and> set ks = fmdom' m"

lemma gm_fm_Some [simp]: "gm_fm (Some f) = f" and gm_fm_None [simp]: "gm_fm None = fmempty"
  by (simp_all add: gm_fm_def)

lemma gm_get_Some [simp]: "gm_get (Some f) k = fmlookup f k"
  by (simp add: gm_get_def)

lemma gm_get_del [simp]: "gm_get (gm_del m k) k' = (if k = k' then None else gm_get m k')"
  by (cases m) (auto simp: gm_get_def gm_del_def)

lemma gm_get_set: "gm_set m k v = Some m' \<Longrightarrow> gm_get m' k' = (if k = k' then Some v else gm_get m k')"
  by (auto simp: gm_set_def split: option.splits)

lemma gm_keys_iff: "k \<in> gm_keys m \<longleftrightarrow> gm_get m k \<noteq> None"
  by (simp add: gm_keys_def gm_get_def fmlookup_dom'_iff)

lemma gm_keys_del [simp]: "gm_keys (gm_del m k) = gm_keys m - {k}"
  by (auto simp: gm_keys_iff split: if_splits)

lemma finite_gm_keys [simp]: "finite (gm_keys m)"
  by (simp add: gm_keys_def)

lemma enumerates_length: "enumerates ks m \<Longrightarrow> length ks = card (fmdom' m)"
  by (metis enumerates_def distinct_card)

lemma enumerates_fmap_of_list:
  "distinct ks \<Longrightarrow> set ks = fst ` set kvs \<Longrightarrow> enumerates ks (fmap_of_list kvs)"
  by (simp add: enumerates_def fmdom'_alt_def fset_of_list.rep_eq)

section \<open>Keyed deletion\<close>

text \<open>
  Several operations delete a list of keys one by one (\<open>Engine.Apply\<close>, \<open>noci unpin\<close>,
  \<open>noci index clean\<close>). The interface is a map-like state with a lookup and a deletion of one
  key; its client is the loop over the keys.
\<close>

locale keyed_deletion =
  fixes get :: "'s \<Rightarrow> 'k \<Rightarrow> 'v option"
    and del :: "'s \<Rightarrow> 'k \<Rightarrow> 's"
  assumes get_del: "get (del s k) k' = (if k = k' then None else get s k')"
begin

lemma get_del_all: "get (foldl del s ks) k = (if k \<in> set ks then None else get s k)"
  by (induction ks arbitrary: s) (auto simp: get_del)

lemma get_del_all_absent: "k \<in> set ks \<Longrightarrow> get (foldl del s ks) k = None"
  by (simp add: get_del_all)

lemma get_del_all_frame: "k \<notin> set ks \<Longrightarrow> get (foldl del s ks) k = get s k"
  by (simp add: get_del_all)

end

interpretation gm: keyed_deletion gm_get gm_del
  by unfold_locales simp

lemmas gm_del_all [keyed] = gm.get_del_all

section \<open>Lists\<close>

lemma sum_list_map_set:
  "distinct xs \<Longrightarrow> sum_list (map f xs) = sum f (set xs)"
  by (simp add: sum_list_distinct_conv_sum_set)

lemma sum_list_map_eq_set:
  "distinct xs \<Longrightarrow> distinct ys \<Longrightarrow> set xs = set ys \<Longrightarrow>
    sum_list (map f xs) = (sum_list (map f ys) :: int)"
  by (simp add: sum_list_distinct_conv_sum_set)

lemma sum_list_append_filter:
  "sum_list (map f (filter P xs)) + sum_list (map f (filter (\<lambda>x. \<not> P x) xs))
    = (sum_list (map f xs) :: int)"
  by (induction xs) auto

lemma sum_list_nonneg_le:
  "(\<And>x. x \<in> set xs \<Longrightarrow> (0::int) \<le> f x) \<Longrightarrow> 0 \<le> sum_list (map f xs)"
  by (rule sum_list_nonneg) auto

end
