(* ===== verification/Go_Strings.thy ===== *)
theory Go_Strings
  imports Noci_Prelude "HOL-Library.List_Lexorder" "HOL-Library.Char_ord"
begin

text \<open>
  The functions of Go's \<open>strings\<close>, \<open>strconv\<close> and \<open>path/filepath\<close> packages that the
  program calls, on byte strings: a Go string is a \<open>string\<close>, one \<open>char\<close> per byte, and
  its order is the order of bytes (\<open>List_Lexorder\<close>). White space is Unicode's, recognised
  by its UTF-8 encodings. Case conversion is exact on ASCII and on the two other runes whose lower
  case is an ASCII letter; other non-ASCII bytes are kept as they are.
\<close>

section \<open>Prefixes, suffixes, search\<close>

definition has_prefix :: "string \<Rightarrow> string \<Rightarrow> bool" where
  "has_prefix s p \<longleftrightarrow> take (length p) s = p"

definition has_suffix :: "string \<Rightarrow> string \<Rightarrow> bool" where
  "has_suffix s p \<longleftrightarrow> length p \<le> length s \<and> drop (length s - length p) s = p"

definition trim_prefix :: "string \<Rightarrow> string \<Rightarrow> string" where
  "trim_prefix s p = (if has_prefix s p then drop (length p) s else s)"

definition trim_suffix :: "string \<Rightarrow> string \<Rightarrow> string" where
  "trim_suffix s p = (if has_suffix s p then take (length s - length p) s else s)"

fun str_contains :: "string \<Rightarrow> string \<Rightarrow> bool" where
  "str_contains [] p = (p = [])"
| "str_contains (c # s) p = (has_prefix (c # s) p \<or> str_contains s p)"

lemma has_prefix_iff: "has_prefix s p \<longleftrightarrow> (\<exists>r. s = p @ r)"
  by (metis append_eq_conv_conj append_take_drop_id has_prefix_def)

lemma has_prefix_append [simp]: "has_prefix (p @ r) p"
  by (simp add: has_prefix_def)

lemma has_prefix_Nil [simp]: "has_prefix s []"
  by (simp add: has_prefix_def)

lemma has_prefix_Cons [simp]: "has_prefix (x # s) (y # p) \<longleftrightarrow> x = y \<and> has_prefix s p"
  by (auto simp: has_prefix_def)

lemma has_prefix_Nil_left [simp]: "has_prefix [] (y # p) = False"
  by (simp add: has_prefix_def)

lemma has_suffix_iff: "has_suffix s p \<longleftrightarrow> (\<exists>r. s = r @ p)"
proof
  assume "has_suffix s p"
  then show "\<exists>r. s = r @ p"
    by (metis append_take_drop_id has_suffix_def)
qed (auto simp: has_suffix_def)

lemma has_suffix_append [simp]: "has_suffix (r @ p) p"
  by (auto simp: has_suffix_iff)

lemma trim_prefix_append [simp]: "trim_prefix (p @ r) p = r"
  by (simp add: trim_prefix_def)

lemma trim_suffix_append [simp]: "trim_suffix (r @ p) p = r"
  by (simp add: trim_suffix_def)

lemma str_contains_iff: "str_contains s p \<longleftrightarrow> (\<exists>u v. s = u @ p @ v)"
proof (induction s)
  case Nil
  then show ?case by auto
next
  case (Cons c s)
  show ?case
  proof
    assume "str_contains (c # s) p"
    then consider "has_prefix (c # s) p" | "str_contains s p"
      by auto
    then show "\<exists>u v. c # s = u @ p @ v"
    proof cases
      case 1
      then show ?thesis by (metis append_Nil has_prefix_iff)
    next
      case 2
      then show ?thesis by (metis Cons.IH append_Cons)
    qed
  next
    assume "\<exists>u v. c # s = u @ p @ v"
    then obtain u v where uv: "c # s = u @ p @ v" by blast
    show "str_contains (c # s) p"
    proof (cases u)
      case Nil
      with uv show ?thesis by (metis append_Nil has_prefix_append str_contains.simps(2))
    next
      case (Cons d u')
      with uv have "s = u' @ p @ v" by simp
      then show ?thesis using Cons.IH by auto
    qed
  qed
qed

section \<open>Split and Join\<close>

text \<open>\<open>strings.Split\<close> with a separator of one byte, \<open>strings.Join\<close>.\<close>

fun split_on :: "char \<Rightarrow> string \<Rightarrow> string list" where
  "split_on c [] = [[]]"
| "split_on c (x # xs) =
     (if x = c then [] # split_on c xs
      else case split_on c xs of [] \<Rightarrow> [[x]] | y # ys \<Rightarrow> (x # y) # ys)"

fun join :: "string \<Rightarrow> string list \<Rightarrow> string" where
  "join sep [] = []"
| "join sep [s] = s"
| "join sep (s # t # ss) = s @ sep @ join sep (t # ss)"

lemma split_on_nonempty [simp]: "split_on c s \<noteq> []"
  by (induction s) (auto split: list.splits)

lemma join_Cons: "ss \<noteq> [] \<Longrightarrow> join sep (s # ss) = s @ sep @ join sep ss"
  by (cases ss) auto

lemma join_split [simp]: "join [c] (split_on c s) = s"
proof (induction s)
  case Nil
  then show ?case by simp
next
  case (Cons x xs)
  then show ?case
    by (cases "split_on c xs"; cases "tl (split_on c xs)") (auto simp: join_Cons)
qed

lemma split_on_no_sep: "c \<notin> set s \<Longrightarrow> split_on c s = [s]"
  by (induction s) auto

lemma split_on_append_sep: "c \<notin> set s \<Longrightarrow> split_on c (s @ c # t) = s # split_on c t"
  by (induction s) auto

lemma split_on_append: "split_on c (s @ c # t) = split_on c s @ split_on c t"
  by (induction s) (auto split: list.splits)

lemma split_join:
  "ss \<noteq> [] \<Longrightarrow> (\<And>s. s \<in> set ss \<Longrightarrow> c \<notin> set s) \<Longrightarrow> split_on c (join [c] ss) = ss"
proof (induction ss)
  case Nil
  then show ?case by simp
next
  case (Cons s ss)
  then show ?case
    by (cases ss) (auto simp: split_on_no_sep split_on_append_sep)
qed

lemma split_on_pieces: "p \<in> set (split_on c s) \<Longrightarrow> c \<notin> set p"
  by (induction s arbitrary: p) (fastforce split: if_splits list.splits)+

lemma split_join_terminated:
  "(\<And>s. s \<in> set ss \<Longrightarrow> c \<notin> set s) \<Longrightarrow> ss \<noteq> [] \<Longrightarrow>
    split_on c (join [c] ss @ [c]) = ss @ [[]]"
proof (induction ss)
  case Nil
  then show ?case by simp
next
  case (Cons s ss)
  then show ?case
    by (cases ss) (auto simp: split_on_append_sep)
qed

text \<open>\<open>strings.SplitN(s, sep, 2)\<close> with a separator of one byte: at most one cut.\<close>

definition split2 :: "char \<Rightarrow> string \<Rightarrow> string list" where
  "split2 c s = (if c \<in> set s
     then [takeWhile (\<lambda>x. x \<noteq> c) s, tl (dropWhile (\<lambda>x. x \<noteq> c) s)] else [s])"

lemma split2_append: "c \<notin> set a \<Longrightarrow> split2 c (a @ c # b) = [a, b]"
proof -
  assume "c \<notin> set a"
  then have "takeWhile (\<lambda>x. x \<noteq> c) (a @ c # b) = a"
    and "dropWhile (\<lambda>x. x \<noteq> c) (a @ c # b) = c # b"
    by (induction a) auto
  then show ?thesis by (simp add: split2_def)
qed

section \<open>White space\<close>

text \<open>The UTF-8 encodings of the runes with \<open>unicode.IsSpace\<close>.\<close>

definition space_runes :: "string list" where
  "space_runes =
     [[CHR 0x20], [CHR 0x09], [CHR 0x0A], [CHR 0x0B], [CHR 0x0C], [CHR 0x0D],
      [CHR 0xC2, CHR 0x85], [CHR 0xC2, CHR 0xA0], [CHR 0xE1, CHR 0x9A, CHR 0x80],
      [CHR 0xE2, CHR 0x80, CHR 0x80], [CHR 0xE2, CHR 0x80, CHR 0x81],
      [CHR 0xE2, CHR 0x80, CHR 0x82], [CHR 0xE2, CHR 0x80, CHR 0x83],
      [CHR 0xE2, CHR 0x80, CHR 0x84], [CHR 0xE2, CHR 0x80, CHR 0x85],
      [CHR 0xE2, CHR 0x80, CHR 0x86], [CHR 0xE2, CHR 0x80, CHR 0x87],
      [CHR 0xE2, CHR 0x80, CHR 0x88], [CHR 0xE2, CHR 0x80, CHR 0x89],
      [CHR 0xE2, CHR 0x80, CHR 0x8A], [CHR 0xE2, CHR 0x80, CHR 0xA8],
      [CHR 0xE2, CHR 0x80, CHR 0xA9], [CHR 0xE2, CHR 0x80, CHR 0xAF],
      [CHR 0xE2, CHR 0x81, CHR 0x9F], [CHR 0xE3, CHR 0x80, CHR 0x80]]"

text \<open>The bytes that can start or end such an encoding.\<close>

definition space_edge :: "char list" where
  "space_edge = remdups (map hd space_runes @ map last space_runes)"

text \<open>The length of the white-space rune at the start of a string, 0 if there is none.\<close>

definition space_len :: "string \<Rightarrow> nat" where
  "space_len s = (case find (\<lambda>r. has_prefix s r) space_runes of None \<Rightarrow> 0 | Some r \<Rightarrow> length r)"

definition space_len_end :: "string \<Rightarrow> nat" where
  "space_len_end s = (case find (\<lambda>r. has_suffix s r) space_runes of None \<Rightarrow> 0 | Some r \<Rightarrow> length r)"

function trim_left :: "string \<Rightarrow> string" where
  "trim_left s = (if s = [] \<or> space_len s = 0 then s else trim_left (drop (space_len s) s))"
  by pat_completeness auto
termination
  by (relation "measure length") auto

function trim_right :: "string \<Rightarrow> string" where
  "trim_right s = (if s = [] \<or> space_len_end s = 0 then s
     else trim_right (take (length s - space_len_end s) s))"
  by pat_completeness auto
termination
  by (relation "measure length") auto

declare trim_left.simps [simp del] trim_right.simps [simp del]

definition trim_space :: "string \<Rightarrow> string" where
  "trim_space s = trim_right (trim_left s)"

text \<open>\<open>strings.Fields\<close>: the maximal runs without white space.\<close>

function fields_from :: "string \<Rightarrow> string \<Rightarrow> string list" where
  "fields_from acc s =
     (if s = [] then (if acc = [] then [] else [rev acc])
      else if space_len s = 0 then fields_from (hd s # acc) (tl s)
      else (if acc = [] then [] else [rev acc]) @ fields_from [] (drop (space_len s) s))"
  by pat_completeness auto
termination
  by (relation "measure (\<lambda>(acc, s). length s)") auto

declare fields_from.simps [simp del]

definition str_fields :: "string \<Rightarrow> string list" where
  "str_fields s = fields_from [] s"

lemma space_runes_hd: "r \<in> set space_runes \<Longrightarrow> r \<noteq> [] \<and> hd r \<in> set space_edge \<and> last r \<in> set space_edge"
  by (auto simp: space_edge_def space_runes_def)

lemma space_len_0: "s = [] \<or> hd s \<notin> set space_edge \<Longrightarrow> space_len s = 0"
proof -
  assume h: "s = [] \<or> hd s \<notin> set space_edge"
  have "\<not> has_prefix s r" if "r \<in> set space_runes" for r
    using space_runes_hd [OF that] h by (cases r; cases s) auto
  then have "find (\<lambda>r. has_prefix s r) space_runes = None"
    by (simp add: find_None_iff)
  then show ?thesis by (simp add: space_len_def)
qed

lemma space_len_end_0: "s = [] \<or> last s \<notin> set space_edge \<Longrightarrow> space_len_end s = 0"
proof -
  assume h: "s = [] \<or> last s \<notin> set space_edge"
  have "\<not> has_suffix s r" if "r \<in> set space_runes" for r
    using space_runes_hd [OF that] h by (auto simp: has_suffix_iff)
  then have "find (\<lambda>r. has_suffix s r) space_runes = None"
    by (simp add: find_None_iff)
  then show ?thesis by (simp add: space_len_end_def)
qed

lemma trim_left_id: "s = [] \<or> hd s \<notin> set space_edge \<Longrightarrow> trim_left s = s"
  using space_len_0 [of s] by (subst trim_left.simps) auto

lemma trim_right_id: "s = [] \<or> last s \<notin> set space_edge \<Longrightarrow> trim_right s = s"
  using space_len_end_0 [of s] by (subst trim_right.simps) auto

lemma trim_space_id:
  "hd s \<notin> set space_edge \<Longrightarrow> last s \<notin> set space_edge \<Longrightarrow> trim_space s = s"
  by (simp add: trim_space_def trim_left_id trim_right_id)

lemma trim_space_id_all: "set s \<inter> set space_edge = {} \<Longrightarrow> trim_space s = s"
proof (cases "s = []")
  case True
  then show ?thesis by (simp add: trim_space_def trim_left_id trim_right_id)
next
  case False
  moreover assume "set s \<inter> set space_edge = {}"
  ultimately show ?thesis by (intro trim_space_id) (meson disjoint_iff hd_in_set last_in_set)+
qed

lemma fields_from_word:
  "set w \<inter> set space_edge = {} \<Longrightarrow> fields_from acc (w @ s) = fields_from (rev w @ acc) s"
proof (induction w arbitrary: acc)
  case Nil
  then show ?case by simp
next
  case (Cons c w)
  then have "space_len ((c # w) @ s) = 0"
    by (intro space_len_0) auto
  then show ?case
    using Cons by (subst fields_from.simps) auto
qed

lemma space_len_space [simp]: "space_len (CHR '' '' # s) = 1"
  by (simp add: space_len_def space_runes_def)

lemma str_fields_join_acc:
  assumes "\<And>w. w \<in> set ws \<Longrightarrow> w \<noteq> [] \<and> set w \<inter> set space_edge = {}"
  shows "fields_from [] (join '' '' ws) = ws"
  using assms
proof (induction ws)
  case Nil
  then show ?case by (simp add: fields_from.simps)
next
  case (Cons w ws)
  have w: "w \<noteq> []" "set w \<inter> set space_edge = {}" using Cons.prems by auto
  show ?case
  proof (cases ws)
    case Nil
    with w fields_from_word [of w "[]" "[]"] show ?thesis
      by (simp add: fields_from.simps)
  next
    case (Cons v vs)
    with w Cons.prems Cons.IH have ih: "fields_from [] (join '' '' ws) = ws" by simp
    have "fields_from [] (join '' '' (w # ws)) = fields_from (rev w) (CHR '' '' # join '' '' ws)"
      using w Cons fields_from_word [of w "[]" "CHR '' '' # join '' '' ws"] by (simp add: join_Cons)
    also have "\<dots> = w # fields_from [] (join '' '' ws)"
      using w by (subst fields_from.simps) simp
    finally show ?thesis using ih by simp
  qed
qed

text \<open>Splitting what \<open>Join\<close> put together at spaces gives the words back.\<close>

lemma str_fields_join:
  "(\<And>w. w \<in> set ws \<Longrightarrow> w \<noteq> [] \<and> set w \<inter> set space_edge = {}) \<Longrightarrow>
    str_fields (join '' '' ws) = ws"
  by (simp add: str_fields_def str_fields_join_acc)

section \<open>Case\<close>

definition byte :: "char \<Rightarrow> nat" where "byte c = of_char c"

definition is_ascii :: "string \<Rightarrow> bool" where
  "is_ascii s \<longleftrightarrow> (\<forall>c \<in> set s. byte c < 128)"

definition lower_byte :: "char \<Rightarrow> char" where
  "lower_byte c = (if 65 \<le> byte c \<and> byte c \<le> 90 then char_of (byte c + 32) else c)"

definition upper_byte :: "char \<Rightarrow> char" where
  "upper_byte c = (if 97 \<le> byte c \<and> byte c \<le> 122 then char_of (byte c - 32) else c)"

text \<open>
  \<open>strings.ToLower\<close>. The Kelvin sign (E2 84 AA) and the dotted capital I (C4 B0) are the only
  runes outside ASCII that lower to an ASCII letter.
\<close>

function to_lower :: "string \<Rightarrow> string" where
  "to_lower s =
     (if s = [] then []
      else if has_prefix s [CHR 0xE2, CHR 0x84, CHR 0xAA] then CHR ''k'' # to_lower (drop 3 s)
      else if has_prefix s [CHR 0xC4, CHR 0xB0] then CHR ''i'' # to_lower (drop 2 s)
      else lower_byte (hd s) # to_lower (tl s))"
  by pat_completeness auto
termination
  by (relation "measure length") (auto simp: has_prefix_def)

declare to_lower.simps [simp del]

definition to_upper :: "string \<Rightarrow> string" where
  "to_upper s = map upper_byte s"

lemma is_ascii_Cons [simp]: "is_ascii (c # s) \<longleftrightarrow> byte c < 128 \<and> is_ascii s"
  and is_ascii_Nil [simp]: "is_ascii []"
  and is_ascii_append [simp]: "is_ascii (s @ t) \<longleftrightarrow> is_ascii s \<and> is_ascii t"
  by (auto simp: is_ascii_def)

lemma to_lower_ascii: "is_ascii s \<Longrightarrow> to_lower s = map lower_byte s"
proof (induction s)
  case Nil
  then show ?case by (simp add: to_lower.simps)
next
  case (Cons c s)
  then have "c \<noteq> CHR 0xE2" "c \<noteq> CHR 0xC4"
    by (auto simp: byte_def)
  with Cons show ?case
    by (subst to_lower.simps) simp
qed

lemma byte_char_of [simp]: "n < 256 \<Longrightarrow> byte (char_of n) = n"
  by (simp add: byte_def)

lemma byte_less [simp]: "byte c < 256"
  by (simp add: byte_def)

lemma lower_byte_lower_byte [simp]: "lower_byte (lower_byte c) = lower_byte c"
proof (cases "65 \<le> byte c \<and> byte c \<le> 90")
  case True
  then have "byte (char_of (byte c + 32)) = byte c + 32"
    by (intro byte_char_of) auto
  with True show ?thesis by (simp add: lower_byte_def)
qed (auto simp: lower_byte_def)

lemma byte_lower_byte: "byte c < 128 \<Longrightarrow> byte (lower_byte c) < 128"
  by (auto simp: lower_byte_def)

lemma is_ascii_lower: "is_ascii s \<Longrightarrow> is_ascii (map lower_byte s)"
  by (auto simp: is_ascii_def byte_lower_byte)

lemma to_lower_idem_ascii: "is_ascii s \<Longrightarrow> to_lower (to_lower s) = to_lower s"
  by (simp add: to_lower_ascii is_ascii_lower o_def)

section \<open>Decimal numbers\<close>

text \<open>\<open>%d\<close>, \<open>strconv.Itoa\<close> and \<open>strconv.ParseInt(s, 10, 64)\<close>.\<close>

definition digit_char :: "nat \<Rightarrow> char" where
  "digit_char d = char_of (48 + d)"

fun show_nat :: "nat \<Rightarrow> string" where
  "show_nat n = (if n < 10 then [digit_char n] else show_nat (n div 10) @ [digit_char (n mod 10)])"

declare show_nat.simps [simp del]

definition show_int :: "int \<Rightarrow> string" where
  "show_int i = (if i < 0 then CHR ''-'' # show_nat (nat (- i)) else show_nat (nat i))"

definition is_digit :: "char \<Rightarrow> bool" where
  "is_digit c \<longleftrightarrow> 48 \<le> byte c \<and> byte c \<le> 57"

definition digits_value :: "string \<Rightarrow> nat" where
  "digits_value s = foldl (\<lambda>n c. 10 * n + (byte c - 48)) 0 s"

definition parse_nat :: "string \<Rightarrow> nat option" where
  "parse_nat s = (if s \<noteq> [] \<and> (\<forall>c \<in> set s. is_digit c) then Some (digits_value s) else None)"

text \<open>None is the error, for the syntax or the range.\<close>

definition parse_int64 :: "string \<Rightarrow> int option" where
  "parse_int64 s =
     (let neg = has_prefix s ''-'';
          ds = (if neg \<or> has_prefix s ''+'' then tl s else s)
      in case parse_nat ds of
           None \<Rightarrow> None
         | Some n \<Rightarrow> (let i = (if neg then - int n else int n)
                     in if in64 i then Some i else None))"

lemma is_digit_digit_char: "d < 10 \<Longrightarrow> is_digit (digit_char d)"
  by (simp add: is_digit_def digit_char_def)

lemma byte_digit_char: "d < 10 \<Longrightarrow> byte (digit_char d) = 48 + d"
  by (simp add: digit_char_def)

lemma show_nat_digits: "c \<in> set (show_nat n) \<Longrightarrow> is_digit c"
proof (induction n rule: show_nat.induct)
  case (1 n)
  then show ?case
    by (subst (asm) (2) show_nat.simps)
      (auto split: if_splits intro: is_digit_digit_char)
qed

lemma show_nat_nonempty [simp]: "show_nat n \<noteq> []"
  by (subst show_nat.simps) simp

lemma digits_value_snoc: "digits_value (s @ [c]) = 10 * digits_value s + (byte c - 48)"
  by (simp add: digits_value_def)

lemma digits_value_show_nat: "digits_value (show_nat n) = n"
proof (induction n rule: show_nat.induct)
  case (1 n)
  show ?case
  proof (cases "n < 10")
    case True
    then show ?thesis
      by (subst show_nat.simps) (simp add: digits_value_def byte_digit_char)
  next
    case False
    have "byte (digit_char (n mod 10)) = 48 + n mod 10"
      by (rule byte_digit_char) simp
    with False 1 show ?thesis
      by (subst show_nat.simps) (simp add: digits_value_snoc)
  qed
qed

lemma parse_show_nat: "parse_nat (show_nat n) = Some n"
  by (auto simp: parse_nat_def digits_value_show_nat dest: show_nat_digits)

lemma show_nat_hd: "\<not> has_prefix (show_nat n) ''-'' \<and> \<not> has_prefix (show_nat n) ''+''"
proof -
  obtain c s where cs: "show_nat n = c # s"
    by (meson neq_Nil_conv show_nat_nonempty)
  then have "is_digit c" using show_nat_digits [of c n] by simp
  then have "c \<noteq> CHR ''-''" "c \<noteq> CHR ''+''"
    by (auto simp: is_digit_def byte_def)
  with cs show ?thesis by simp
qed

lemma parse_show_int: "in64 i \<Longrightarrow> parse_int64 (show_int i) = Some i"
  using show_nat_hd [of "nat i"]
  by (auto simp: parse_int64_def show_int_def parse_show_nat)

section \<open>Lexical paths\<close>

text \<open>\<open>filepath.Clean\<close> and \<open>filepath.Base\<close> on Unix.\<close>

definition clean_step :: "bool \<Rightarrow> string list \<Rightarrow> string \<Rightarrow> string list" where
  "clean_step rooted acc c =
     (if c = [] \<or> c = ''.'' then acc
      else if c = ''..'' then
        (case acc of [] \<Rightarrow> if rooted then [] else [''..'']
         | a # as \<Rightarrow> if a = ''..'' then ''..'' # acc else as)
      else c # acc)"

definition path_clean :: "string \<Rightarrow> string" where
  "path_clean p =
     (if p = [] then ''.''
      else let rooted = (hd p = CHR ''/'');
               comps = rev (foldl (clean_step rooted) [] (split_on (CHR ''/'') p))
           in if rooted then CHR ''/'' # join ''/'' comps
              else if comps = [] then ''.'' else join ''/'' comps)"

definition path_base :: "string \<Rightarrow> string" where
  "path_base p =
     (if p = [] then ''.''
      else let q = rev (dropWhile (\<lambda>c. c = CHR ''/'') (rev p))
           in if q = [] then ''/'' else rev (takeWhile (\<lambda>c. c \<noteq> CHR ''/'') (rev q)))"

lemma path_base_append:
  assumes "b \<noteq> []" and "CHR ''/'' \<notin> set b"
  shows "path_base (d @ CHR ''/'' # b) = b"
proof -
  obtain b' c where b: "b = b' @ [c]" using assms(1) by (metis append_butlast_last_id)
  then have c: "c \<noteq> CHR ''/''" using assms(2) by auto
  have q: "rev (dropWhile (\<lambda>c. c = CHR ''/'') (rev (d @ CHR ''/'' # b))) = d @ CHR ''/'' # b"
    using b c by simp
  have "takeWhile (\<lambda>c. c \<noteq> CHR ''/'') (rev (d @ CHR ''/'' # b)) = rev b"
    using assms(2) by (simp add: takeWhile_append)
  then show ?thesis
    by (simp only: path_base_def q Let_def) simp
qed

lemma path_base_no_slash:
  assumes "b \<noteq> []" and "CHR ''/'' \<notin> set b"
  shows "path_base b = b"
proof -
  obtain b' c where b: "b = b' @ [c]" using assms(1) by (metis append_butlast_last_id)
  then have c: "c \<noteq> CHR ''/''" using assms(2) by auto
  have q: "rev (dropWhile (\<lambda>c. c = CHR ''/'') (rev b)) = b"
    using b c by simp
  have "takeWhile (\<lambda>c. c \<noteq> CHR ''/'') (rev b) = rev b"
    using assms(2) by (auto simp: takeWhile_eq_all_conv)
  then show ?thesis
    using assms(1) by (simp only: path_base_def q Let_def) simp
qed

lemma path_base_nonempty [simp]: "path_base p \<noteq> []"
proof -
  have "hd (dropWhile (\<lambda>c. c = CHR ''/'') (rev p)) \<noteq> CHR ''/''"
    if "dropWhile (\<lambda>c. c = CHR ''/'') (rev p) \<noteq> []"
    using that hd_dropWhile by blast
  then show ?thesis
    by (cases "dropWhile (\<lambda>c. c = CHR ''/'') (rev p)") (auto simp: path_base_def Let_def)
qed

end
