(* ===== verification/Go_Time.thy ===== *)
theory Go_Time
  imports Go_Strings
begin

text \<open>
  \<open>time.ParseDuration\<close> and \<open>Duration.Seconds\<close> of Go's standard library. Fractions go through
  \<open>float64\<close>: a non-negative float is a pair of a numerator and a power of two, and every operation
  rounds to 53 bits, half to even.
\<close>

section \<open>Rounding to 53 bits\<close>

function bit_len :: "int \<Rightarrow> nat" where
  "bit_len n = (if n \<le> 0 then 0 else Suc (bit_len (n div 2)))"
  by pat_completeness auto
termination
  by (relation "measure nat") auto

declare bit_len.simps [simp del]

definition round_half_even :: "int \<Rightarrow> int \<Rightarrow> int" where
  "round_half_even n d =
     (let q = n div d; r = n mod d
      in if 2 * r < d \<or> (2 * r = d \<and> even q) then q else q + 1)"

text \<open>The float nearest to \<open>n / d\<close>, as the pair of an integer and the exponent of its
  denominator; no result here is large enough to need the exponent of a numerator.\<close>

definition f64 :: "int \<Rightarrow> int \<Rightarrow> int \<times> nat" where
  "f64 n d =
     (if n = 0 then (0, 0)
      else let s0 = 53 + bit_len d - bit_len n;
               s = (if 2 ^ 53 \<le> n * 2 ^ s0 div d then s0 - 1 else s0);
               over = n * 2 ^ s div d div 2 ^ 53
           in if over \<le> 0 then (round_half_even (n * 2 ^ s) d, s)
              else let k = bit_len over in (round_half_even n (d * 2 ^ k) * 2 ^ k, 0))"

definition f64_of_int :: "int \<Rightarrow> int \<times> nat" where "f64_of_int n = f64 n 1"

definition f64_div :: "int \<times> nat \<Rightarrow> int \<times> nat \<Rightarrow> int \<times> nat" where
  "f64_div x y = f64 (fst x * 2 ^ snd y) (fst y * 2 ^ snd x)"

definition f64_mul :: "int \<times> nat \<Rightarrow> int \<times> nat \<Rightarrow> int \<times> nat" where
  "f64_mul x y = f64 (fst x * fst y) (2 ^ (snd x + snd y))"

definition f64_add :: "int \<times> nat \<Rightarrow> int \<times> nat \<Rightarrow> int \<times> nat" where
  "f64_add x y = f64 (fst x * 2 ^ snd y + fst y * 2 ^ snd x) (2 ^ (snd x + snd y))"

definition f64_trunc :: "int \<times> nat \<Rightarrow> int" where
  "f64_trunc x = fst x div 2 ^ snd x"

section \<open>ParseDuration\<close>

fun leading_int :: "int \<Rightarrow> string \<Rightarrow> (int \<times> string) option" where
  "leading_int x [] = Some (x, [])"
| "leading_int x (c # s) =
     (if \<not> is_digit c then Some (x, c # s)
      else if 2 ^ 63 div 10 < x then None
      else let y = x * 10 + int (byte c - 48) in if 2 ^ 63 < y then None else leading_int y s)"

text \<open>The digits of a fraction with their scale; digits that do not fit are dropped.\<close>

fun leading_fraction :: "int \<Rightarrow> int \<Rightarrow> bool \<Rightarrow> string \<Rightarrow> int \<times> int \<times> string" where
  "leading_fraction x scale overflow [] = (x, scale, [])"
| "leading_fraction x scale overflow (c # s) =
     (if \<not> is_digit c then (x, scale, c # s)
      else if overflow \<or> (2 ^ 63 - 1) div 10 < x then leading_fraction x scale True s
      else let y = x * 10 + int (byte c - 48)
           in if 2 ^ 63 < y then leading_fraction x scale True s
              else leading_fraction y (scale * 10) False s)"

definition unit_map :: "(string \<times> int) list" where
  "unit_map =
     [(''ns'', 1), (''us'', 1000), ([CHR 0xC2, CHR 0xB5, CHR ''s''], 1000),
      ([CHR 0xCE, CHR 0xBC, CHR ''s''], 1000), (''ms'', 1000000), (''s'', 1000000000),
      (''m'', 60000000000), (''h'', 3600000000000)]"

definition unit_part :: "string \<Rightarrow> string" where
  "unit_part s = takeWhile (\<lambda>c. c \<noteq> CHR ''.'' \<and> \<not> is_digit c) s"

text \<open>The integer, the fraction with its scale, and the rest of the text.\<close>

definition parse_fraction :: "string \<Rightarrow> int \<times> int \<times> string \<times> bool" where
  "parse_fraction s =
     (if s \<noteq> [] \<and> hd s = CHR ''.''
      then let (f, scale, r) = leading_fraction 0 1 False (tl s) in (f, scale, r, length r \<noteq> length (tl s))
      else (0, 1, s, False))"

definition parse_number :: "string \<Rightarrow> (int \<times> int \<times> int \<times> string) option" where
  "parse_number s =
     (if s = [] \<or> \<not> (hd s = CHR ''.'' \<or> is_digit (hd s)) then None
      else case leading_int 0 s of
        None \<Rightarrow> None
      | Some (v, s1) \<Rightarrow>
          (let (f, scale, s2, post) = parse_fraction s1
           in if length s1 = length s \<and> \<not> post then None else Some (v, f, scale, s2)))"

definition unit_value :: "int \<Rightarrow> int \<Rightarrow> int \<Rightarrow> int \<Rightarrow> int option" where
  "unit_value v f scale unit =
     (if 2 ^ 63 div unit < v then None
      else let w = v * unit + (if 0 < f then f64_trunc (f64_mul (f64_of_int f)
                     (f64_div (f64_of_int unit) (f64_of_int scale))) else 0)
           in if 0 < f \<and> 2 ^ 63 < w then None else Some w)"

text \<open>One number with its unit: its nanoseconds and the rest of the text.\<close>

definition parse_component :: "string \<Rightarrow> (int \<times> string) option" where
  "parse_component s =
     (case parse_number s of
        None \<Rightarrow> None
      | Some (v, f, scale, r) \<Rightarrow>
          (let u = unit_part r
           in if u = [] then None
              else case map_of unit_map u of
                None \<Rightarrow> None
              | Some unit \<Rightarrow> map_option (\<lambda>w. (w, drop (length u) r)) (unit_value v f scale unit)))"

lemma leading_int_length: "leading_int x s = Some (v, r) \<Longrightarrow> length r \<le> length s"
  by (induction s arbitrary: x) (auto simp: Let_def split: if_splits intro: le_SucI)

lemma leading_fraction_length: "leading_fraction x sc ov s = (f, sc', r) \<Longrightarrow> length r \<le> length s"
  by (induction s arbitrary: x sc ov) (auto simp: Let_def split: if_splits intro: le_SucI)

lemma parse_fraction_length: "parse_fraction s = (f, sc, r, post) \<Longrightarrow> length r \<le> length s"
  using leading_fraction_length [of 0 1 False "tl s"]
  by (cases s) (auto simp: parse_fraction_def Let_def split: if_splits prod.splits intro: le_SucI)

lemma parse_number_length: "parse_number s = Some (v, f, sc, r) \<Longrightarrow> length r \<le> length s"
  using leading_int_length parse_fraction_length
  by (fastforce simp: parse_number_def Let_def split: if_splits option.splits prod.splits)

lemma parse_component_length:
  assumes "parse_component s = Some (w, r)"
  shows "length r < length s"
proof -
  obtain v f sc s2 where n: "parse_number s = Some (v, f, sc, s2)"
    using assms by (auto simp: parse_component_def split: option.splits)
  have r: "r = drop (length (unit_part s2)) s2" "unit_part s2 \<noteq> []"
    using assms by (auto simp: parse_component_def n Let_def split: if_splits option.splits)
  then have "s2 \<noteq> []" by (auto simp: unit_part_def)
  with r have "length r < length s2" by simp
  with parse_number_length [OF n] show ?thesis by simp
qed

function parse_components :: "int \<Rightarrow> string \<Rightarrow> int option" where
  "parse_components d s =
     (if s = [] then Some d
      else case parse_component s of
        None \<Rightarrow> None
      | Some (w, r) \<Rightarrow>
          (let d' = (d + w) mod 2 ^ 64 in if 2 ^ 63 < d' then None else parse_components d' r))"
  by pat_completeness auto
termination
  by (relation "measure (\<lambda>(d, s). length s)") (auto dest: parse_component_length)

declare parse_components.simps [simp del]

text \<open>None is the error.\<close>

definition parse_duration :: "string \<Rightarrow> duration option" where
  "parse_duration s0 =
     (let signed = s0 \<noteq> [] \<and> (hd s0 = CHR ''-'' \<or> hd s0 = CHR ''+'');
          neg = signed \<and> hd s0 = CHR ''-'';
          s = (if signed then tl s0 else s0)
      in if s = ''0'' then Some 0
         else if s = [] then None
         else case parse_components 0 s of
           None \<Rightarrow> None
         | Some d \<Rightarrow>
             (if neg then Some (- d) else if 2 ^ 63 - 1 < d then None else Some d))"

text \<open>\<open>d.Seconds()\<close> of a duration that is not negative, and \<open>int64(d.Seconds())\<close>.\<close>

definition seconds_f64 :: "int \<Rightarrow> int \<times> nat" where
  "seconds_f64 d =
     f64_add (f64_of_int (d div 1000000000))
       (f64_div (f64_of_int (d mod 1000000000)) (f64_of_int 1000000000))"

definition duration_seconds :: "duration \<Rightarrow> int" where
  "duration_seconds d =
     (if d < 0 then - f64_trunc (seconds_f64 (- d)) else f64_trunc (seconds_f64 d))"

end
