(* ===== verification/Go_Encoding.thy ===== *)
theory Go_Encoding
  imports Go_Strings "HOL-Library.Word"
begin

text \<open>
  The encodings of Go's standard library the program uses: \<open>encoding/hex\<close> and
  \<open>base64.StdEncoding\<close>, between text and bytes of 8 bits. Decoding errors are None.
\<close>

type_synonym bytes = "8 word list"

definition bytes_of :: "string \<Rightarrow> bytes" where "bytes_of s = map (\<lambda>c. of_nat (byte c)) s"
definition text_of :: "bytes \<Rightarrow> string" where "text_of bs = map (\<lambda>b. char_of (unat b)) bs"

lemma unat_byte_less [simp]: "unat (b :: 8 word) < 256"
  using unsigned_less [of b] by simp

lemma text_of_bytes_of [simp]: "text_of (bytes_of s) = s"
  by (induction s) (simp_all add: text_of_def bytes_of_def unat_of_nat byte_def take_bit_nat_eq_self)

lemma bytes_of_text_of [simp]: "bytes_of (text_of bs) = bs"
  by (induction bs) (simp_all add: text_of_def bytes_of_def byte_char_of)

section \<open>Hexadecimal\<close>

definition hex_alphabet :: string where "hex_alphabet = ''0123456789abcdef''"

definition hex_digit :: "char \<Rightarrow> nat option" where
  "hex_digit c =
     (if 48 \<le> byte c \<and> byte c \<le> 57 then Some (byte c - 48)
      else if 97 \<le> byte c \<and> byte c \<le> 102 then Some (byte c - 87)
      else if 65 \<le> byte c \<and> byte c \<le> 70 then Some (byte c - 55) else None)"

fun hex_encode :: "bytes \<Rightarrow> string" where
  "hex_encode [] = []"
| "hex_encode (b # bs) = hex_alphabet ! (unat b div 16) # hex_alphabet ! (unat b mod 16) # hex_encode bs"

fun hex_decode :: "string \<Rightarrow> bytes option" where
  "hex_decode [] = Some []"
| "hex_decode [c] = None"
| "hex_decode (c # d # s) =
     (case (hex_digit c, hex_digit d) of
        (Some m, Some n) \<Rightarrow> map_option (\<lambda>bs. of_nat (16 * m + n) # bs) (hex_decode s)
      | _ \<Rightarrow> None)"

lemma hex_digit_check: "list_all (\<lambda>n. hex_digit (hex_alphabet ! n) = Some n) [0..<16]"
  by code_simp

lemma hex_digit_alphabet: "n < 16 \<Longrightarrow> hex_digit (hex_alphabet ! n) = Some n"
  using hex_digit_check [unfolded list_all_iff, THEN bspec, of n] by simp

lemma hex_decode_encode [simp]: "hex_decode (hex_encode bs) = Some bs"
proof (induction bs)
  case (Cons b bs)
  have "unat b div 16 < 16" using unat_byte_less [of b] by linarith
  then show ?case using Cons by (simp add: hex_digit_alphabet)
qed simp

lemma hex_encode_length [simp]: "length (hex_encode bs) = 2 * length bs"
  by (induction bs) simp_all

section \<open>Base 64\<close>

definition b64_alphabet :: string where
  "b64_alphabet = ''ABCDEFGHIJKLMNOPQRSTUVWXYZabcdefghijklmnopqrstuvwxyz0123456789+/''"

definition b64_digit :: "char \<Rightarrow> nat option" where
  "b64_digit c =
     (if 65 \<le> byte c \<and> byte c \<le> 90 then Some (byte c - 65)
      else if 97 \<le> byte c \<and> byte c \<le> 122 then Some (byte c - 71)
      else if 48 \<le> byte c \<and> byte c \<le> 57 then Some (byte c + 4)
      else if c = CHR ''+'' then Some 62 else if c = CHR ''/'' then Some 63 else None)"

fun b64_encode :: "bytes \<Rightarrow> string" where
  "b64_encode [] = []"
| "b64_encode [x] =
     [b64_alphabet ! (unat x div 4), b64_alphabet ! (unat x mod 4 * 16), CHR ''='', CHR ''='']"
| "b64_encode [x, y] =
     [b64_alphabet ! (unat x div 4), b64_alphabet ! (unat x mod 4 * 16 + unat y div 16),
      b64_alphabet ! (unat y mod 16 * 4), CHR ''='']"
| "b64_encode (x # y # z # bs) =
     b64_alphabet ! (unat x div 4) # b64_alphabet ! (unat x mod 4 * 16 + unat y div 16)
     # b64_alphabet ! (unat y mod 16 * 4 + unat z div 64) # b64_alphabet ! (unat z mod 64) # b64_encode bs"

text \<open>Quads, after the line breaks are skipped; the bits left over before the padding are ignored.\<close>

fun b64_quads :: "string \<Rightarrow> bytes option" where
  "b64_quads [] = Some []"
| "b64_quads (a # b # c # d # s) =
     (case (b64_digit a, b64_digit b) of
        (Some w, Some x) \<Rightarrow>
          (if d = CHR ''=''
           then if s \<noteq> [] then None
                else if c = CHR ''='' then Some [of_nat (4 * w + x div 16)]
                else map_option (\<lambda>y. [of_nat (4 * w + x div 16), of_nat (x mod 16 * 16 + y div 4)]) (b64_digit c)
           else case (b64_digit c, b64_digit d) of
                  (Some y, Some z) \<Rightarrow>
                    map_option (\<lambda>bs. of_nat (4 * w + x div 16) # of_nat (x mod 16 * 16 + y div 4)
                      # of_nat (y mod 4 * 64 + z) # bs) (b64_quads s)
                | _ \<Rightarrow> None)
      | _ \<Rightarrow> None)"
| "b64_quads s = None"

definition b64_decode :: "string \<Rightarrow> bytes option" where
  "b64_decode s = b64_quads (filter (\<lambda>c. c \<noteq> CHR 0x0A \<and> c \<noteq> CHR 0x0D) s)"

lemma b64_digit_check:
  "list_all (\<lambda>n. b64_digit (b64_alphabet ! n) = Some n \<and> b64_alphabet ! n \<noteq> CHR ''=''
     \<and> b64_alphabet ! n \<noteq> CHR 0x0A \<and> b64_alphabet ! n \<noteq> CHR 0x0D) [0..<64]"
  by code_simp

lemma b64_alphabet_facts:
  assumes "n < 64"
  shows "b64_digit (b64_alphabet ! n) = Some n" "b64_alphabet ! n \<noteq> CHR ''=''"
    "b64_alphabet ! n \<noteq> CHR 0x0A" "b64_alphabet ! n \<noteq> CHR 0x0D"
proof -
  have "n \<in> set [0..<64]" using assms by simp
  from b64_digit_check [unfolded list_all_iff, THEN bspec, OF this]
  show "b64_digit (b64_alphabet ! n) = Some n" "b64_alphabet ! n \<noteq> CHR ''=''"
    "b64_alphabet ! n \<noteq> CHR 0x0A" "b64_alphabet ! n \<noteq> CHR 0x0D"
    by blast+
qed

lemma b64_ranges:
  fixes x y z :: "8 word"
  shows "unat x div 4 < 64" "unat x mod 4 * 16 < 64" "unat x mod 4 * 16 + unat y div 16 < 64"
    "unat y mod 16 * 4 < 64" "unat y mod 16 * 4 + unat z div 64 < 64" "unat z mod 64 < 64"
proof -
  have "unat x < 256" "unat y < 256" "unat z < 256" by simp_all
  then have "unat x div 4 < 64" "unat y div 16 < 16" "unat z div 64 < 4" by linarith+
  moreover have "unat x mod 4 < 4" "unat y mod 16 < 16" by simp_all
  ultimately show "unat x div 4 < 64" "unat x mod 4 * 16 < 64" "unat x mod 4 * 16 + unat y div 16 < 64"
    "unat y mod 16 * 4 < 64" "unat y mod 16 * 4 + unat z div 64 < 64" "unat z mod 64 < 64"
    by linarith+
qed

lemma b64_joins:
  fixes x y z :: "8 word"
  shows "4 * (unat x div 4) + (unat x mod 4 * 16 + unat y div 16) div 16 = unat x"
    "4 * (unat x div 4) + (unat x mod 4 * 16) div 16 = unat x"
    "(unat x mod 4 * 16 + unat y div 16) mod 16 * 16 + (unat y mod 16 * 4 + unat z div 64) div 4 = unat y"
    "(unat x mod 4 * 16 + unat y div 16) mod 16 * 16 + (unat y mod 16 * 4) div 4 = unat y"
    "(unat y mod 16 * 4 + unat z div 64) mod 4 * 64 + unat z mod 64 = unat z"
proof -
  have "unat y div 16 < 16" "unat z div 64 < 4" using unat_byte_less [of y] unat_byte_less [of z] by linarith+
  then have "(unat x mod 4 * 16 + unat y div 16) div 16 = unat x mod 4"
    "(unat x mod 4 * 16 + unat y div 16) mod 16 = unat y div 16"
    "(unat y mod 16 * 4 + unat z div 64) div 4 = unat y mod 16"
    "(unat y mod 16 * 4 + unat z div 64) mod 4 = unat z div 64" by simp_all
  then show "4 * (unat x div 4) + (unat x mod 4 * 16 + unat y div 16) div 16 = unat x"
    "4 * (unat x div 4) + (unat x mod 4 * 16) div 16 = unat x"
    "(unat x mod 4 * 16 + unat y div 16) mod 16 * 16 + (unat y mod 16 * 4 + unat z div 64) div 4 = unat y"
    "(unat x mod 4 * 16 + unat y div 16) mod 16 * 16 + (unat y mod 16 * 4) div 4 = unat y"
    "(unat y mod 16 * 4 + unat z div 64) mod 4 * 64 + unat z mod 64 = unat z"
    by (simp_all add: mult.commute [of _ 16] mult.commute [of _ 64])
qed

lemma b64_encode_chars: "c \<in> set (b64_encode bs) \<Longrightarrow> c \<noteq> CHR 0x0A \<and> c \<noteq> CHR 0x0D"
  by (induction bs rule: b64_encode.induct) (auto simp: b64_alphabet_facts b64_ranges)

lemma of_nat_unat_byte: "of_nat (unat (x :: 8 word)) = x"
  by simp

lemma b64_quads_encode: "b64_quads (b64_encode bs) = Some bs"
  by (induction bs rule: b64_encode.induct) (simp_all only: b64_encode.simps b64_quads.simps
      b64_alphabet_facts b64_ranges option.case prod.case option.map b64_joins of_nat_unat_byte
      if_True if_False simp_thms)

lemma b64_decode_encode [simp]: "b64_decode (b64_encode bs) = Some bs"
proof -
  have "filter (\<lambda>c. c \<noteq> CHR 0x0A \<and> c \<noteq> CHR 0x0D) (b64_encode bs) = b64_encode bs"
    using b64_encode_chars by (intro filter_True) blast
  then show ?thesis by (simp add: b64_decode_def b64_quads_encode)
qed

end
