(* ===== verification/Domain_Types.thy ===== *)
theory Domain_Types
  imports Go_Strings
begin

text \<open>
  The validated identifiers of \<open>pkg/domain/types/types.go\<close>: Nix base-32 hashes, OCI digests
  and store paths, with their parsers and accessors, and the path helpers of \<open>pkg/nix/nix.go\<close>.
\<close>

datatype type_error =
    InvalidNixHash string
  | InvalidDigestLength string
  | NotStorePath string
  | InvalidStorePath string

section \<open>Nix hashes\<close>

definition nix_alphabet :: string where
  "nix_alphabet = ''0123456789abcdfghijklmnpqrsvwxyz''"

definition nix_hash_regex :: "string \<Rightarrow> bool" where
  "nix_hash_regex s \<longleftrightarrow> length s = 32 \<and> list_all (\<lambda>c. c \<in> set nix_alphabet) s"

definition parse_nix_hash :: "string \<Rightarrow> type_error + string" where
  "parse_nix_hash s =
     (let cleaned = to_lower (trim_space s)
      in if \<not> nix_hash_regex cleaned then Inl (InvalidNixHash s) else Inr cleaned)"

definition is_nix_hash :: "string \<Rightarrow> bool" where
  "is_nix_hash s = (case parse_nix_hash s of Inr _ \<Rightarrow> True | Inl _ \<Rightarrow> False)"

lemma nix_alphabet_check:
  "list_all (\<lambda>c. byte c < 128 \<and> lower_byte c = c \<and> c \<notin> set space_edge \<and> c \<noteq> CHR ''/''
    \<and> c \<noteq> CHR ''.'' \<and> c \<noteq> CHR 0x0A) nix_alphabet"
  by code_simp

lemma nix_alphabet_facts:
  "c \<in> set nix_alphabet \<Longrightarrow>
    byte c < 128 \<and> lower_byte c = c \<and> c \<notin> set space_edge \<and> c \<noteq> CHR ''/'' \<and> c \<noteq> CHR ''.'' \<and> c \<noteq> CHR 0x0A"
  using nix_alphabet_check unfolding list_all_iff by blast

lemma nix_hash_regexD:
  assumes "nix_hash_regex h"
  shows "length h = 32" "set h \<subseteq> set nix_alphabet" "is_ascii h" "to_lower h = h"
    "set h \<inter> set space_edge = {}" "trim_space h = h" "CHR ''/'' \<notin> set h" "CHR ''.'' \<notin> set h"
proof -
  show l: "length h = 32" and a: "set h \<subseteq> set nix_alphabet"
    using assms by (auto simp: nix_hash_regex_def list_all_iff)
  show asc: "is_ascii h" using a nix_alphabet_facts by (auto simp: is_ascii_def)
  have "map lower_byte h = h" using a nix_alphabet_facts by (intro map_idI) blast
  then show "to_lower h = h" by (simp add: to_lower_ascii asc)
  show e: "set h \<inter> set space_edge = {}" using a nix_alphabet_facts by auto
  then show "trim_space h = h" by (rule trim_space_id_all)
  show "CHR ''/'' \<notin> set h" "CHR ''.'' \<notin> set h" using a nix_alphabet_facts by blast+
qed

lemma parse_nix_hash_Inr: "parse_nix_hash s = Inr h \<longleftrightarrow> h = to_lower (trim_space s) \<and> nix_hash_regex h"
  by (auto simp: parse_nix_hash_def Let_def)

lemma parse_nix_hash_id: "nix_hash_regex h \<Longrightarrow> parse_nix_hash h = Inr h"
  by (simp add: parse_nix_hash_Inr nix_hash_regexD)

section \<open>OCI digests\<close>

definition sha256_prefix :: string where "sha256_prefix = ''sha256:''"

definition parse_oci_digest :: "string \<Rightarrow> type_error + string" where
  "parse_oci_digest s =
     (let raw = trim_space s; hex = trim_prefix raw sha256_prefix
      in if length hex \<noteq> 64 then Inl (InvalidDigestLength s)
         else Inr (sha256_prefix @ to_lower hex))"

definition bare_hex :: "string \<Rightarrow> string" where
  "bare_hex d = trim_prefix d sha256_prefix"

definition is_hex_char :: "char \<Rightarrow> bool" where
  "is_hex_char c \<longleftrightarrow> c \<in> set ''0123456789abcdefABCDEF''"

definition is_hex_digest :: "string \<Rightarrow> bool" where
  "is_hex_digest x \<longleftrightarrow> length x = 64 \<and> list_all is_hex_char x"

lemma hex_chars_check:
  "list_all (\<lambda>c. byte c < 128 \<and> c \<notin> set space_edge \<and> c \<noteq> CHR ''s'' \<and> c \<noteq> CHR ''.''
    \<and> is_hex_char (lower_byte c) \<and> c \<noteq> CHR 0x0A) ''0123456789abcdefABCDEF''"
  by code_simp

lemma hex_char_facts:
  "is_hex_char c \<Longrightarrow> byte c < 128 \<and> c \<notin> set space_edge \<and> c \<noteq> CHR ''s'' \<and> c \<noteq> CHR ''.''
    \<and> is_hex_char (lower_byte c) \<and> c \<noteq> CHR 0x0A"
  using hex_chars_check unfolding list_all_iff is_hex_char_def [of c] by blast

lemma hex_digestD:
  assumes "is_hex_digest x"
  shows "length x = 64" "is_ascii x" "set x \<inter> set space_edge = {}" "trim_space x = x"
    "trim_prefix x sha256_prefix = x" "CHR ''.'' \<notin> set x" "is_hex_digest (to_lower x)"
proof -
  have c: "is_hex_char c" if "c \<in> set x" for c
    using assms that by (auto simp: is_hex_digest_def list_all_iff)
  show l: "length x = 64" using assms by (simp add: is_hex_digest_def)
  show a: "is_ascii x" using c hex_char_facts by (auto simp: is_ascii_def)
  show "set x \<inter> set space_edge = {}" using c hex_char_facts by auto
  then show "trim_space x = x" by (rule trim_space_id_all)
  have "CHR ''s'' \<notin> set x" "CHR ''.'' \<notin> set x" using c hex_char_facts by blast+
  then show "CHR ''.'' \<notin> set x" and "trim_prefix x sha256_prefix = x"
    using l by (cases x; auto simp: trim_prefix_def sha256_prefix_def)+
  show "is_hex_digest (to_lower x)"
    using l a c hex_char_facts by (auto simp: is_hex_digest_def to_lower_ascii list_all_iff)
qed

lemma trim_space_sha256:
  assumes "is_hex_digest x"
  shows "trim_space (sha256_prefix @ x) = sha256_prefix @ x"
proof -
  have "x \<noteq> []" using hex_digestD(1) [OF assms] by auto
  then have "last (sha256_prefix @ x) \<notin> set space_edge"
    using hex_digestD(3) [OF assms] by (metis disjoint_iff last_appendR last_in_set)
  moreover have "hd (sha256_prefix @ x) \<notin> set space_edge"
    by (simp add: sha256_prefix_def space_edge_def space_runes_def)
  ultimately show ?thesis by (intro trim_space_id)
qed

lemma parse_oci_digest_hex:
  assumes "is_hex_digest x"
  shows "parse_oci_digest x = Inr (sha256_prefix @ to_lower x)"
    and "parse_oci_digest (sha256_prefix @ x) = Inr (sha256_prefix @ to_lower x)"
  using hex_digestD [OF assms]
  by (simp_all add: parse_oci_digest_def trim_space_sha256 [OF assms])

lemma bare_hex_sha256 [simp]: "bare_hex (sha256_prefix @ x) = x"
  by (simp add: bare_hex_def)

section \<open>Store paths\<close>

definition store_prefix :: string where "store_prefix = ''/nix/store/''"

definition parse_store_path :: "string \<Rightarrow> type_error + string" where
  "parse_store_path p =
     (let cleaned = path_clean (trim_space p)
      in if \<not> has_prefix cleaned store_prefix then Inl (NotStorePath p)
         else let base = path_base cleaned
              in if length base < 33 \<or> base ! 32 \<noteq> CHR ''-'' then Inl (InvalidStorePath p)
                 else Inr cleaned)"

text \<open>The slices \<open>base[:32]\<close> and \<open>base[33:]\<close> panic (None) when the base is too short.\<close>

definition store_path_hash :: "string \<Rightarrow> string option" where
  "store_path_hash sp = (let base = path_base sp in if length base < 32 then None else Some (take 32 base))"

definition store_path_name :: "string \<Rightarrow> string option" where
  "store_path_name sp = (let base = path_base sp in if length base < 33 then None else Some (drop 33 base))"

text \<open>\<open>nix.GetPathHash\<close> and \<open>nix.GetPathName\<close>.\<close>

definition get_path_hash :: "string \<Rightarrow> string" where
  "get_path_hash sp = (let base = path_base (path_clean sp) in if length base < 32 then [] else take 32 base)"

definition get_path_name :: "string \<Rightarrow> string" where
  "get_path_name sp = (let base = path_base sp in if length base \<le> 33 then base else drop 33 base)"

lemma parse_store_path_Inr:
  assumes "parse_store_path p = Inr sp"
  shows "sp = path_clean (trim_space p)" "has_prefix sp store_prefix"
    "33 \<le> length (path_base sp)" "path_base sp ! 32 = CHR ''-''"
  using assms by (auto simp: parse_store_path_def Let_def split: if_splits)

subsection \<open>Cleaned paths\<close>

text \<open>The components of a cleaned path: none is empty or a dot, and \<open>..\<close> only leads a relative one.\<close>

definition plain_comp :: "string \<Rightarrow> bool" where
  "plain_comp c \<longleftrightarrow> c \<noteq> [] \<and> c \<noteq> ''.'' \<and> c \<noteq> ''..'' \<and> CHR ''/'' \<notin> set c"

definition clean_acc :: "bool \<Rightarrow> string list \<Rightarrow> bool" where
  "clean_acc rooted acc \<longleftrightarrow>
     (\<exists>as n. acc = as @ replicate n ''..'' \<and> (\<forall>a \<in> set as. plain_comp a) \<and> (rooted \<longrightarrow> n = 0))"

lemma clean_acc_Nil [simp]: "clean_acc r []"
  by (simp add: clean_acc_def)

lemma clean_step_acc:
  assumes "clean_acc r acc" and "CHR ''/'' \<notin> set c"
  shows "clean_acc r (clean_step r acc c)"
proof -
  obtain as n where acc: "acc = as @ replicate n ''..''"
    and as: "\<forall>a \<in> set as. plain_comp a" and n: "r \<longrightarrow> n = 0"
    using assms(1) by (auto simp: clean_acc_def)
  consider "c = [] \<or> c = ''.''" | "c = ''..''" | "plain_comp c"
    using assms(2) by (auto simp: plain_comp_def)
  then show ?thesis
  proof cases
    case 1
    with assms(1) show ?thesis by (simp add: clean_step_def)
  next
    case 3
    then have "clean_step r acc c = (c # as) @ replicate n ''..''"
      by (auto simp: clean_step_def plain_comp_def acc)
    with 3 as n show ?thesis unfolding clean_acc_def by (metis set_ConsD)
  next
    case 2
    show ?thesis
    proof (cases as)
      case (Cons a as')
      with as have "a \<noteq> ''..''" by (auto simp: plain_comp_def)
      with 2 Cons acc have "clean_step r acc c = as' @ replicate n ''..''"
        by (simp add: clean_step_def)
      with as n Cons show ?thesis unfolding clean_acc_def by (metis list.set_intros(2))
    next
      case Nil
      show ?thesis
      proof (cases n)
        case 0
        with Nil 2 acc have "clean_step r acc c = (if r then [] else [] @ replicate 1 ''..'')"
          by (simp add: clean_step_def)
        then have "clean_step r acc c = [] @ replicate (if r then 0 else 1) ''..''" by simp
        then show ?thesis unfolding clean_acc_def
          by (intro exI [of _ "[]"] exI [of _ "if r then 0 else 1"]) simp
      next
        case (Suc m)
        with Nil 2 acc n have "clean_step r acc c = [] @ replicate (Suc n) ''..''"
          by (simp add: clean_step_def)
        moreover have "\<not> r" using Suc n by auto
        ultimately show ?thesis unfolding clean_acc_def
          by (intro exI [of _ "[]"] exI [of _ "Suc n"]) simp
      qed
    qed
  qed
qed

lemma clean_fold_acc:
  "clean_acc r acc \<Longrightarrow> (\<And>c. c \<in> set cs \<Longrightarrow> CHR ''/'' \<notin> set c) \<Longrightarrow>
    clean_acc r (foldl (clean_step r) acc cs)"
  by (induction cs arbitrary: acc) (auto simp: clean_step_acc)

lemma clean_fold_plain:
  "(\<And>c. c \<in> set cs \<Longrightarrow> plain_comp c) \<Longrightarrow> foldl (clean_step r) acc cs = rev cs @ acc"
  by (induction cs arbitrary: acc) (auto simp: clean_step_def plain_comp_def)

lemma clean_fold_dots: "foldl (clean_step False) (replicate k ''..'') (replicate n ''..'') = replicate (k + n) ''..''"
proof (induction n arbitrary: k)
  case (Suc n)
  have "clean_step False (replicate k ''..'') ''..'' = replicate (Suc k) ''..''"
    by (cases k) (auto simp: clean_step_def)
  with Suc.IH [of "Suc k"] show ?case by simp
qed simp

lemma clean_fold_id:
  assumes "clean_acc r acc"
  shows "foldl (clean_step r) [] (rev acc) = acc"
proof -
  obtain as n where acc: "acc = as @ replicate n ''..''"
    and as: "\<forall>a \<in> set as. plain_comp a" and n: "r \<longrightarrow> n = 0"
    using assms by (auto simp: clean_acc_def)
  have "foldl (clean_step r) [] (replicate n ''..'') = replicate n ''..''"
    using n clean_fold_dots [of 0 n] by (cases r) auto
  then show ?thesis
    using as clean_fold_plain [of "rev as" r "replicate n ''..''"] by (simp add: acc)
qed

lemma clean_acc_comps:
  assumes "clean_acc r acc" and "c \<in> set acc"
  shows "CHR ''/'' \<notin> set c \<and> c \<noteq> []"
proof -
  obtain as n where acc: "acc = as @ replicate n ''..''" and as: "\<forall>a \<in> set as. plain_comp a"
    using assms(1) unfolding clean_acc_def by blast
  from assms(2) acc have "c \<in> set as \<or> c = ''..''" by (metis Un_iff in_set_replicate set_append)
  then show ?thesis
  proof
    assume "c \<in> set as"
    with as show ?thesis unfolding plain_comp_def by blast
  qed simp
qed

lemma path_clean_rooted: "path_clean (CHR ''/'' # s) =
    CHR ''/'' # join ''/'' (rev (foldl (clean_step True) [] (split_on (CHR ''/'') s)))"
  by (simp add: path_clean_def clean_step_def)

lemma hd_join: "s \<noteq> [] \<Longrightarrow> join sep (s # ss) \<noteq> [] \<and> hd (join sep (s # ss)) = hd s"
  by (cases ss) auto

text \<open>\<open>filepath.Clean\<close> is idempotent.\<close>

lemma path_clean_idem: "path_clean (path_clean p) = path_clean p"
proof -
  define r where "r \<longleftrightarrow> p \<noteq> [] \<and> hd p = CHR ''/''"
  define acc where "acc = foldl (clean_step r) [] (split_on (CHR ''/'') p)"
  have acc: "clean_acc r acc"
    unfolding acc_def using split_on_pieces by (intro clean_fold_acc clean_acc_Nil)
  have again: "foldl (clean_step r) [] (split_on (CHR ''/'') (join ''/'' (rev acc))) = acc" if "acc \<noteq> []"
  proof -
    have "split_on (CHR ''/'') (join ''/'' (rev acc)) = rev acc"
      using that acc by (intro split_join) (simp_all add: clean_acc_comps)
    then show ?thesis by (simp add: clean_fold_id [OF acc])
  qed
  show ?thesis
  proof (cases r)
    case True
    then have p: "path_clean p = CHR ''/'' # join ''/'' (rev acc)"
      by (auto simp: path_clean_def r_def acc_def Let_def)
    have "foldl (clean_step True) [] (split_on (CHR ''/'') (join ''/'' (rev acc))) = acc"
      using again True by (cases "acc = []") (auto simp: clean_step_def)
    then show ?thesis by (simp add: p path_clean_rooted)
  next
    case False
    show ?thesis
    proof (cases "acc = []")
      case True
      with False have "path_clean p = ''.''"
        by (auto simp: path_clean_def r_def acc_def Let_def)
      then show ?thesis by (simp add: path_clean_def clean_step_def)
    next
      case ne: False
      then have "p \<noteq> []" by (auto simp: acc_def clean_step_def)
      with False ne have p: "path_clean p = join ''/'' (rev acc)"
        by (auto simp: path_clean_def r_def acc_def Let_def)
      have "hd (rev acc) \<in> set acc" using ne by (simp add: hd_rev)
      then have h: "hd (rev acc) \<noteq> []" "CHR ''/'' \<notin> set (hd (rev acc))"
        using clean_acc_comps [OF acc] by blast+
      have j: "join ''/'' (rev acc) \<noteq> []" "hd (join ''/'' (rev acc)) = hd (hd (rev acc))"
        using hd_join [of "hd (rev acc)" "''/''" "tl (rev acc)"] ne h by auto
      have "hd (hd (rev acc)) \<noteq> CHR ''/''" using h by (metis hd_in_set)
      with j again ne False show ?thesis
        unfolding p by (subst path_clean_def) (auto simp: Let_def)
    qed
  qed
qed

lemma get_path_hash_parsed:
  assumes "parse_store_path p = Inr sp"
  shows "store_path_hash sp = Some (get_path_hash sp)" "length (get_path_hash sp) = 32"
proof -
  have "path_clean sp = sp"
    using parse_store_path_Inr(1) [OF assms] path_clean_idem by simp
  with parse_store_path_Inr(3) [OF assms]
  show "store_path_hash sp = Some (get_path_hash sp)" "length (get_path_hash sp) = 32"
    by (simp_all add: store_path_hash_def get_path_hash_def Let_def)
qed

lemma store_path_split:
  assumes "parse_store_path p = Inr sp"
  obtains h n where "store_path_hash sp = Some h" "length h = 32" "store_path_name sp = Some n"
    "path_base sp = h @ CHR ''-'' # n"
proof -
  let ?b = "path_base sp"
  have "?b = take 32 ?b @ ?b ! 32 # drop 33 ?b"
    using parse_store_path_Inr(3) [OF assms] id_take_nth_drop [of 32 ?b] by simp
  then show ?thesis
    using that [of "take 32 ?b" "drop 33 ?b"] parse_store_path_Inr(3,4) [OF assms]
    by (simp add: store_path_hash_def store_path_name_def Let_def)
qed

section \<open>Properties\<close>

text \<open>C40: an accepted Nix hash is 32 characters of the Nix alphabet, whatever spaces and case
  the input had, and parsing is idempotent on it.\<close>

theorem parse_nix_hash_canonical:
  "parse_nix_hash s = Inr h \<Longrightarrow>
    length h = 32 \<and> set h \<subseteq> set nix_alphabet \<and> parse_nix_hash h = Inr h \<and> is_nix_hash h"
  by (metis is_nix_hash_def nix_hash_regexD(1,2) parse_nix_hash_Inr parse_nix_hash_id sum.simps(6))

theorem parse_nix_hash_canonical_witness:
  "parse_nix_hash ''0123456789abcdf0123456789abcdf01'' = Inr ''0123456789abcdf0123456789abcdf01'' \<and>
   is_nix_hash ''0123456789abcdf0123456789abcdf01''"
proof -
  have h: "nix_hash_regex ''0123456789abcdf0123456789abcdf01''"
    by (simp add: nix_hash_regex_def nix_alphabet_def)
  show ?thesis using parse_nix_hash_canonical [OF parse_nix_hash_id [OF h]] by simp
qed

end
