(* ===== verification/Config_Load.thy ===== *)
theory Config_Load
  imports Go_Time Go_Encoding Domain_Types
begin

text \<open>
  \<open>pkg/config\<close>: the parsers of sizes, TTLs and git remotes, and the resolution of the registry,
  the repository and the token from flags, environment, files and the git remote. What the
  environment, the file system and the git command answer is a record; the YAML decoder is
  third-party code and, like the JSON decoder, a field of it.
\<close>

section \<open>Sizes and TTLs\<close>

datatype config_error =
    InvalidSize
  | SizeOutOfRange
  | InvalidTtlDays string
  | InvalidTtl string
  | RepoRequired
  | InvalidRegistryFormat string

definition size_units :: "string list" where
  "size_units = ['''', ''B'', ''KB'', ''MB'', ''GB'', ''TB'', ''K'', ''M'', ''G'', ''T'']"

definition regex_space :: "char \<Rightarrow> bool" where
  "regex_space c \<longleftrightarrow> c \<in> {CHR '' '', CHR 0x09, CHR 0x0A, CHR 0x0C, CHR 0x0D}"

text \<open>The submatches of \<open>^(\d+)\s*(B|KB|MB|GB|TB|K|M|G|T)?$\<close>: no unit starts with a digit or a
  space, so the greedy choices are the only ones.\<close>

definition size_match :: "string \<Rightarrow> (string \<times> string) option" where
  "size_match s =
     (let ds = takeWhile is_digit s; u = dropWhile regex_space (dropWhile is_digit s)
      in if ds \<noteq> [] \<and> u \<in> set size_units then Some (ds, u) else None)"

definition size_factor :: "string \<Rightarrow> int" where
  "size_factor u =
     (if u \<in> {''K'', ''KB''} then 1024
      else if u \<in> {''M'', ''MB''} then 1024 * 1024
      else if u \<in> {''G'', ''GB''} then 1024 * 1024 * 1024
      else if u \<in> {''T'', ''TB''} then 1024 * 1024 * 1024 * 1024
      else 1)"

definition parse_size :: "string \<Rightarrow> config_error + int" where
  "parse_size size_str =
     (let s = to_upper (trim_space size_str)
      in if s = [] then Inr 0
         else case size_match s of
                None \<Rightarrow> Inl InvalidSize
              | Some (ds, u) \<Rightarrow>
                  (case parse_int64 ds of
                     None \<Rightarrow> Inl SizeOutOfRange
                   | Some v \<Rightarrow> Inr (mul64 v (size_factor u))))"

definition parse_ttl :: "string \<Rightarrow> config_error + int" where
  "parse_ttl ttl =
     (let cleaned = to_lower (trim_space ttl)
      in if cleaned = ''0'' then Inr 0
         else if has_suffix cleaned ''d''
         then (case parse_int64 (trim_suffix cleaned ''d'') of
                 None \<Rightarrow> Inl (InvalidTtlDays ttl)
               | Some days \<Rightarrow> Inr (mul64 (mul64 days 24) 3600))
         else (case parse_duration ttl of
                 None \<Rightarrow> Inl (InvalidTtl ttl)
               | Some d \<Rightarrow> Inr (duration_seconds d)))"

section \<open>Git remotes\<close>

text \<open>\<open>strings.Index\<close> with a single byte, as the text after the first or the last occurrence.\<close>

fun after_first :: "char \<Rightarrow> string \<Rightarrow> string option" where
  "after_first c [] = None"
| "after_first c (x # s) = (if x = c then Some s else after_first c s)"

fun after_string :: "string \<Rightarrow> string \<Rightarrow> string option" where
  "after_string p [] = (if p = [] then Some [] else None)"
| "after_string p (x # s) = (if has_prefix (x # s) p then Some (drop (length p) (x # s)) else after_string p s)"

definition after_last :: "char \<Rightarrow> string \<Rightarrow> string option" where
  "after_last c s = (if c \<in> set s then Some (rev (takeWhile (\<lambda>x. x \<noteq> c) (rev s))) else None)"

definition parse_git_remote :: "string \<Rightarrow> string" where
  "parse_git_remote raw0 =
     (let raw = (if has_suffix raw0 ''.git'' then trim_suffix raw0 ''.git'' else raw0)
      in case after_string ''://'' raw of
           Some r1 \<Rightarrow>
             (let r2 = (case after_first (CHR ''@'') r1 of None \<Rightarrow> r1 | Some r \<Rightarrow> r);
                  r3 = (case after_first (CHR ''/'') r2 of None \<Rightarrow> r2 | Some r \<Rightarrow> r)
              in if count_list r3 (CHR ''/'') = 1 \<and> r3 \<noteq> [] \<and> \<not> has_prefix r3 ''/'' then r3 else [])
         | None \<Rightarrow>
             (case after_last (CHR '':'') raw of
                Some suffix \<Rightarrow> (if str_contains suffix ''/'' then suffix else [])
              | None \<Rightarrow> []))"

section \<open>What the outside answers\<close>

record target =
  tg_registry :: string
  tg_repo :: string
  tg_token :: string

record config_options =
  op_registry :: string
  op_repo :: string
  op_token :: string
  op_extra :: "string list"

record config =
  cf_primary :: target
  cf_registries :: "target list"

record registry_target =
  rg_registry :: string
  rg_repo :: string
  rg_token :: string

text \<open>
  An unset variable reads as the empty string; a file or a command that fails gives None. The
  decoders give None on an error: the registries of a noci file, the \<open>oauth_token\<close> of each host
  of the gh file, the \<open>auth\<close> of each registry of the docker file.
\<close>

record outside =
  os_getenv :: "string \<Rightarrow> string"
  os_read_file :: "string \<Rightarrow> string option"
  os_git_remote :: "string option"
  yaml_noci :: "string \<Rightarrow> registry_target list option"
  yaml_gh_hosts :: "string \<Rightarrow> (string \<Rightarrow> string option) option"
  json_docker_auths :: "string \<Rightarrow> (string \<Rightarrow> string option) option"

text \<open>\<open>UserHomeDir\<close> fails when HOME is empty.\<close>

definition user_home_dir :: "outside \<Rightarrow> string option" where
  "user_home_dir w = (let h = os_getenv w ''HOME'' in if h = [] then None else Some h)"

definition path_join :: "string list \<Rightarrow> string" where
  "path_join ps = (let ne = filter (\<lambda>p. p \<noteq> []) ps in if ne = [] then [] else path_clean (join ''/'' ne))"

section \<open>Sources of a value\<close>

definition or_else :: "string \<Rightarrow> string \<Rightarrow> string" where
  "or_else a b = (if a = [] then b else a)"

definition config_file_paths :: "outside \<Rightarrow> string list" where
  "config_file_paths w =
     (let home = (case user_home_dir w of None \<Rightarrow> [] | Some h \<Rightarrow> h)
      in [path_join [home, ''.config'', ''noci'', ''config.yaml''],
          path_join [home, ''.config'', ''noci'', ''config.yml''], ''noci.yaml'', ''noci.yml''])"

text \<open>The first file that can be read decides; None is an error of either kind.\<close>

fun load_first :: "outside \<Rightarrow> string list \<Rightarrow> registry_target list option" where
  "load_first w [] = None"
| "load_first w (p # ps) =
     (case os_read_file w p of None \<Rightarrow> load_first w ps | Some data \<Rightarrow> yaml_noci w data)"

definition load_noci_config :: "outside \<Rightarrow> registry_target list option" where
  "load_noci_config w = load_first w (config_file_paths w)"

definition auto_detect_git_repo :: "outside \<Rightarrow> string" where
  "auto_detect_git_repo w =
     (case os_git_remote w of None \<Rightarrow> [] | Some out \<Rightarrow> parse_git_remote (trim_space out))"

definition read_gh_cli_token :: "outside \<Rightarrow> string" where
  "read_gh_cli_token w =
     (case user_home_dir w of None \<Rightarrow> []
      | Some home \<Rightarrow>
          (case os_read_file w (path_join [home, ''.config'', ''gh'', ''hosts.yml'']) of None \<Rightarrow> []
           | Some data \<Rightarrow>
               (case yaml_gh_hosts w data of None \<Rightarrow> []
                | Some hosts \<Rightarrow> (case hosts ''github.com'' of None \<Rightarrow> [] | Some token \<Rightarrow> token))))"

definition first_auth :: "(string \<Rightarrow> string option) \<Rightarrow> string \<Rightarrow> string option" where
  "first_auth auths registry =
     (case auths registry of Some a \<Rightarrow> Some a
      | None \<Rightarrow>
          (case auths (''https://'' @ registry) of Some a \<Rightarrow> Some a
           | None \<Rightarrow> auths (''http://'' @ registry)))"

definition read_docker_config_token :: "outside \<Rightarrow> string \<Rightarrow> string" where
  "read_docker_config_token w registry =
     (case user_home_dir w of None \<Rightarrow> []
      | Some home \<Rightarrow>
          (case os_read_file w (home @ ''/.docker/config.json'') of None \<Rightarrow> []
           | Some data \<Rightarrow>
               (case json_docker_auths w data of None \<Rightarrow> []
                | Some auths \<Rightarrow>
                    (case first_auth auths registry of None \<Rightarrow> []
                     | Some auth \<Rightarrow>
                         (if auth = [] then []
                          else case b64_decode auth of None \<Rightarrow> []
                               | Some decoded \<Rightarrow>
                                   (let parts = split2 (CHR '':'') (text_of decoded)
                                    in if length parts \<noteq> 2 then [] else parts ! 1))))))"

section \<open>Resolution\<close>

fun parse_registry_list :: "outside \<Rightarrow> string list \<Rightarrow> config_error + target list" where
  "parse_registry_list w [] = Inr []"
| "parse_registry_list w (v # vs) =
     (let parts = split2 (CHR ''/'') v
      in if length parts \<noteq> 2 \<or> parts ! 0 = [] \<or> parts ! 1 = [] then Inl (InvalidRegistryFormat v)
         else case parse_registry_list w vs of
                Inl e \<Rightarrow> Inl e
              | Inr ts \<Rightarrow> Inr (\<lparr>tg_registry = parts ! 0, tg_repo = parts ! 1,
                  tg_token = or_else (os_getenv w ''NOCI_TOKEN'') (os_getenv w ''GITHUB_TOKEN'')\<rparr> # ts))"

definition parse_registries :: "outside \<Rightarrow> string list \<Rightarrow> target \<Rightarrow> config_error + target list" where
  "parse_registries w vals base = (if vals = [] then Inr [base] else parse_registry_list w vals)"

definition resolve_registries :: "outside \<Rightarrow> string list \<Rightarrow> target \<Rightarrow> config_error + target list" where
  "resolve_registries w vals base =
     (if vals \<noteq> [] then parse_registries w vals base
      else case load_noci_config w of
             None \<Rightarrow> Inr [base]
           | Some rts \<Rightarrow>
               (if rts \<noteq> []
                then Inr (map (\<lambda>rt. \<lparr>tg_registry = rg_registry rt, tg_repo = rg_repo rt,
                       tg_token = or_else (rg_token rt) (os_getenv w ''NOCI_TOKEN'')\<rparr>) rts)
                else Inr [base]))"

definition resolve_registry :: "outside \<Rightarrow> config_options \<Rightarrow> string" where
  "resolve_registry w o1 = or_else (or_else (op_registry o1) (os_getenv w ''NOCI_REGISTRY'')) ''ghcr.io''"

definition resolve_repo :: "outside \<Rightarrow> config_options \<Rightarrow> string" where
  "resolve_repo w o1 =
     (let repo = or_else (op_repo o1) (os_getenv w ''NOCI_REPO'');
          repo' = (if repo = [] \<and> os_getenv w ''GITHUB_ACTIONS'' = ''true''
                   then os_getenv w ''GITHUB_REPOSITORY'' else repo)
      in or_else repo' (auto_detect_git_repo w))"

definition resolve_token :: "outside \<Rightarrow> config_options \<Rightarrow> string \<Rightarrow> string" where
  "resolve_token w o1 registry =
     or_else (or_else (or_else (or_else (or_else (op_token o1) (os_getenv w ''NOCI_TOKEN''))
       (os_getenv w ''GITHUB_TOKEN'')) (os_getenv w ''GH_TOKEN'')) (read_gh_cli_token w))
       (read_docker_config_token w registry)"

definition load :: "outside \<Rightarrow> config_options \<Rightarrow> config_error + config" where
  "load w o1 =
     (let registry = resolve_registry w o1; repo = resolve_repo w o1
      in if repo = [] then Inl RepoRequired
         else let primary = \<lparr>tg_registry = registry, tg_repo = repo, tg_token = resolve_token w o1 registry\<rparr>
              in case resolve_registries w (op_extra o1) primary of
                   Inl e \<Rightarrow> Inl e
                 | Inr rs \<Rightarrow> Inr \<lparr>cf_primary = primary, cf_registries = rs\<rparr>)"

end
