(* ===== verification/Config_Props.thy ===== *)
theory Config_Props
  imports Config_Load
begin

text \<open>
  Properties of \<open>pkg/config\<close>: the values of sizes, the forms of a git remote, the registries
  accepted on the command line and the precedence of the sources of a configuration.
\<close>

section \<open>Sizes\<close>

lemma size_units_check:
  "list_all (\<lambda>u. list_all (\<lambda>c. \<not> is_digit c \<and> \<not> regex_space c \<and> upper_byte c = c \<and> c \<notin> set space_edge) u) size_units"
  by code_simp

lemma digit_facts_check:
  "list_all (\<lambda>n. upper_byte (char_of n) = char_of n \<and> (char_of n :: char) \<notin> set space_edge) [48..<58]"
  by code_simp

lemma digit_facts:
  assumes "is_digit c"
  shows "upper_byte c = c" "c \<notin> set space_edge"
proof -
  have "char_of (byte c) = c" by (simp add: byte_def)
  moreover have "byte c \<in> set [48..<58]" using assms unfolding set_upt is_digit_def by simp
  ultimately show "upper_byte c = c" "c \<notin> set space_edge"
    using digit_facts_check unfolding list_all_iff by metis+
qed

lemma size_match_show:
  assumes "u \<in> set size_units"
  shows "size_match (show_nat n @ u) = Some (show_nat n, u)" "trim_space (show_nat n @ u) = show_nat n @ u"
    "to_upper (show_nat n @ u) = show_nat n @ u"
proof -
  have u: "c \<in> set u \<Longrightarrow> \<not> is_digit c \<and> \<not> regex_space c \<and> upper_byte c = c \<and> c \<notin> set space_edge" for c
    using size_units_check assms unfolding list_all_iff by blast
  have d: "c \<in> set (show_nat n) \<Longrightarrow> is_digit c" for c by (rule show_nat_digits)
  have tk: "takeWhile is_digit (show_nat n @ u) = show_nat n" "dropWhile is_digit (show_nat n @ u) = u"
    using u d by (cases u; simp add: takeWhile_append2 dropWhile_append2)+
  have "dropWhile regex_space u = u" using u by (cases u) auto
  then show "size_match (show_nat n @ u) = Some (show_nat n, u)"
    using assms by (simp add: size_match_def tk Let_def)
  show "trim_space (show_nat n @ u) = show_nat n @ u"
    using u d digit_facts(2) by (intro trim_space_id_all) auto
  show "to_upper (show_nat n @ u) = show_nat n @ u"
    using u d digit_facts(1) by (auto simp: to_upper_def intro!: map_idI)
qed

lemma parse_int64_nat: "parse_int64 (show_nat n) = (if in64 (int n) then Some (int n) else None)"
  using show_nat_hd [of n] by (simp add: parse_int64_def Let_def parse_show_nat)

text \<open>A size is the number times its unit, in 64-bit arithmetic: every number and unit of the
  grammar is accepted, numbers above \<open>2 ^ 63 - 1\<close> are refused, and the product wraps around.\<close>

lemma parse_size_value:
  assumes "u \<in> set size_units"
  shows "parse_size (show_nat n @ u) =
    (if int n \<le> max64 then Inr (wrap64 (int n * size_factor u)) else Inl SizeOutOfRange)"
proof -
  have "in64 (int n) \<longleftrightarrow> int n \<le> max64" by (simp add: in64_def min64_def)
  then show ?thesis
    by (simp add: parse_size_def size_match_show [OF assms] parse_int64_nat mul64_def)
qed

text \<open>A large size or TTL silently wraps: a quota of 16777216TB is no quota at all, and a pin for
  106751991167301 days gets a negative TTL, which never expires.\<close>

lemma size_and_ttl_wrap:
  "parse_size ''16777216TB'' = Inr 0 \<and> (\<exists>t. parse_ttl ''106751991167301d'' = Inr t \<and> t < 0)"
proof
  have "trim_space ''16777216TB'' = ''16777216TB''" "to_upper ''16777216TB'' = ''16777216TB''"
    "size_match ''16777216TB'' = Some (''16777216'', ''TB'')" by code_simp+
  moreover have "parse_int64 ''16777216'' = Some 16777216"
    by (simp add: parse_int64_def parse_nat_def digits_value_def is_digit_def byte_def in64_def min64_def max64_def)
  ultimately show "parse_size ''16777216TB'' = Inr 0"
    by (simp add: parse_size_def size_factor_def mul64_def wrap64_def)
  have "trim_space ''106751991167301d'' = ''106751991167301d''"
    "to_lower ''106751991167301d'' = ''106751991167301d''"
    "has_suffix ''106751991167301d'' ''d''" "trim_suffix ''106751991167301d'' ''d'' = ''106751991167301''"
    by code_simp+
  moreover have "parse_int64 ''106751991167301'' = Some 106751991167301"
    by (simp add: parse_int64_def parse_nat_def digits_value_def is_digit_def byte_def in64_def min64_def max64_def)
  ultimately have "parse_ttl ''106751991167301d'' = Inr (- 9223372036854745216)"
    by (simp add: parse_ttl_def mul64_def wrap64_def)
  then show "\<exists>t. parse_ttl ''106751991167301d'' = Inr t \<and> t < 0" by simp
qed

section \<open>Git remotes\<close>

lemma after_first_append: "c \<notin> set a \<Longrightarrow> after_first c (a @ c # b) = Some b"
  by (induction a) auto

lemma after_first_none: "c \<notin> set a \<Longrightarrow> after_first c a = None"
  by (induction a) auto

lemma after_last_append: "c \<notin> set b \<Longrightarrow> after_last c (a @ c # b) = Some b"
  by (simp add: after_last_def takeWhile_append)

lemma after_string_scheme:
  "CHR '':'' \<notin> set a \<Longrightarrow> after_string ''://'' (a @ ''://'' @ b) = Some b"
  by (induction a) auto

lemma no_scheme:
  "count_list s (CHR ''/'') \<le> 1 \<Longrightarrow> after_string ''://'' s = None"
proof (induction s)
  case (Cons c s)
  have "\<not> has_prefix (c # s) ''://''"
    using Cons.prems by (auto simp: has_prefix_iff)
  with Cons show ?case by (auto split: if_splits)
qed simp

definition name_part :: "string \<Rightarrow> bool" where
  "name_part s \<longleftrightarrow> s \<noteq> [] \<and> CHR ''/'' \<notin> set s \<and> CHR ''@'' \<notin> set s \<and> CHR '':'' \<notin> set s"

lemma count_no_slash: "CHR ''/'' \<notin> set s \<Longrightarrow> count_list s (CHR ''/'') = 0"
  by (simp add: count_notin)

lemma strip_git: "(if has_suffix (s @ ''.git'') ''.git'' then trim_suffix (s @ ''.git'') ''.git'' else s @ ''.git'') = s"
  by (simp add: trim_suffix_append)

lemma git_url:
  assumes "name_part host" "name_part owner" "name_part repo" "\<not> has_suffix repo ''.git''"
    and "CHR '':'' \<notin> set scheme" and that: "user = [] \<or> user = ''git@''"
  shows "parse_git_remote (scheme @ ''://'' @ user @ host @ ''/'' @ owner @ ''/'' @ repo @ ''.git'')
    = owner @ ''/'' @ repo"
proof -
  let ?path = "owner @ ''/'' @ repo"
  let ?raw = "scheme @ ''://'' @ user @ host @ ''/'' @ ?path"
  have "parse_git_remote (?raw @ ''.git'') = ?path"
  proof -
    have sch: "after_string ''://'' ?raw = Some (user @ host @ ''/'' @ ?path)"
      using assms(5) by (rule after_string_scheme)
    have at: "(case after_first CHR ''@'' (user @ host @ ''/'' @ ?path) of None \<Rightarrow> user @ host @ ''/'' @ ?path | Some r \<Rightarrow> r)
        = host @ ''/'' @ ?path"
      using that assms(1-3) by (auto simp: name_part_def after_first_none)
    have sl: "after_first CHR ''/'' (host @ ''/'' @ ?path) = Some ?path"
      using assms(1) by (simp add: name_part_def after_first_append)
    have "count_list ?path CHR ''/'' = 1" "?path \<noteq> []" "\<not> has_prefix ?path ''/''"
      using assms(2,3) by (cases owner; auto simp: name_part_def count_no_slash has_prefix_iff)+
    then show ?thesis
      unfolding parse_git_remote_def strip_git Let_def sch option.case at sl by simp
  qed
  then show ?thesis by simp
qed

text \<open>The forms of a remote agree: for names without slash, colon and at sign, the https, ssh and
  scp forms of one repository all give owner/repo.\<close>

lemma git_remote_forms:
  assumes "name_part host" "name_part owner" "name_part repo" "\<not> has_suffix repo ''.git''"
  shows "parse_git_remote (''https://'' @ host @ ''/'' @ owner @ ''/'' @ repo @ ''.git'') = owner @ ''/'' @ repo
    \<and> parse_git_remote (''ssh://git@'' @ host @ ''/'' @ owner @ ''/'' @ repo @ ''.git'') = owner @ ''/'' @ repo
    \<and> parse_git_remote (''git@'' @ host @ '':'' @ owner @ ''/'' @ repo @ ''.git'') = owner @ ''/'' @ repo"
proof (intro conjI)
  show "parse_git_remote (''https://'' @ host @ ''/'' @ owner @ ''/'' @ repo @ ''.git'') = owner @ ''/'' @ repo"
    using git_url [OF assms, of "''https''" "[]"] by simp
  show "parse_git_remote (''ssh://git@'' @ host @ ''/'' @ owner @ ''/'' @ repo @ ''.git'') = owner @ ''/'' @ repo"
    using git_url [OF assms, of "''ssh''" "''git@''"] by simp
  let ?raw = "''git@'' @ host @ '':'' @ owner @ ''/'' @ repo"
  have "count_list ?raw CHR ''/'' = 1"
    using assms(1-3) by (simp add: name_part_def count_no_slash)
  then have sch: "after_string ''://'' ?raw = None" by (intro no_scheme) simp
  have "after_last CHR '':'' ((''git@'' @ host) @ CHR '':'' # (owner @ ''/'' @ repo)) = Some (owner @ ''/'' @ repo)"
    using assms(2,3) by (intro after_last_append) (auto simp: name_part_def)
  then have last: "after_last CHR '':'' ?raw = Some (owner @ ''/'' @ repo)" by simp
  have "str_contains (owner @ ''/'' @ repo) ''/''" unfolding str_contains_iff by blast
  moreover have "parse_git_remote (?raw @ ''.git'') = (if str_contains (owner @ ''/'' @ repo) ''/'' then owner @ ''/'' @ repo else [])"
    unfolding parse_git_remote_def strip_git Let_def sch last option.case ..
  ultimately show "parse_git_remote (''git@'' @ host @ '':'' @ owner @ ''/'' @ repo @ ''.git'') = owner @ ''/'' @ repo"
    by simp
qed

section \<open>Registries\<close>

lemma split2_two:
  assumes "length (split2 c s) = 2"
  shows "s = split2 c s ! 0 @ c # split2 c s ! 1" "c \<notin> set (split2 c s ! 0)"
proof -
  have c: "c \<in> set s" using assms by (auto simp: split2_def split: if_splits)
  then have "dropWhile (\<lambda>x. x \<noteq> c) s \<noteq> []" "hd (dropWhile (\<lambda>x. x \<noteq> c) s) = c"
    using hd_dropWhile [of "\<lambda>x. x \<noteq> c" s] by (auto simp: dropWhile_eq_Nil_conv)
  then have "dropWhile (\<lambda>x. x \<noteq> c) s = c # tl (dropWhile (\<lambda>x. x \<noteq> c) s)"
    by (metis list.collapse)
  then show "s = split2 c s ! 0 @ c # split2 c s ! 1"
    using c by (simp add: split2_def)
  show "c \<notin> set (split2 c s ! 0)"
    using c by (auto simp: split2_def dest: set_takeWhileD)
qed

text \<open>Every registry argument that is accepted is registry/repo with both parts present and is cut
  at its first slash, one target for each argument in their order; one malformed argument refuses
  them all.\<close>

lemma parse_registries_roundtrip:
  assumes "parse_registry_list w vals = Inr ts"
  shows "map (\<lambda>t. tg_registry t @ ''/'' @ tg_repo t) ts = vals
    \<and> (\<forall>t \<in> set ts. tg_registry t \<noteq> [] \<and> CHR ''/'' \<notin> set (tg_registry t) \<and> tg_repo t \<noteq> [])"
  using assms
proof (induction vals arbitrary: ts)
  case (Cons v vals)
  let ?p = "split2 (CHR ''/'') v"
  obtain us where p: "length ?p = 2" "?p ! 0 \<noteq> []" "?p ! 1 \<noteq> []" and us: "parse_registry_list w vals = Inr us"
    and ts: "ts = \<lparr>tg_registry = ?p ! 0, tg_repo = ?p ! 1,
      tg_token = or_else (os_getenv w ''NOCI_TOKEN'') (os_getenv w ''GITHUB_TOKEN'')\<rparr> # us"
    using Cons.prems by (auto simp: Let_def split: if_splits sum.splits)
  show ?case
    using Cons.IH [OF us] split2_two [OF p(1)] p(2,3) by (auto simp: ts)
qed simp

definition silent_world :: outside where
  "silent_world = \<lparr>os_getenv = (\<lambda>_. []), os_read_file = (\<lambda>_. None), os_git_remote = None,
     yaml_noci = (\<lambda>_. None), yaml_gh_hosts = (\<lambda>_. None), json_docker_auths = (\<lambda>_. None)\<rparr>"

section \<open>Precedence\<close>

definition first_set :: "string list \<Rightarrow> string" where
  "first_set ss = (case filter (\<lambda>s. s \<noteq> []) ss of [] \<Rightarrow> [] | s # _ \<Rightarrow> s)"

lemma or_else_first [simp]: "or_else a (first_set ss) = first_set (a # ss)"
  by (simp add: or_else_def first_set_def)

lemma or_else_assoc: "or_else (or_else a b) c = or_else a (or_else b c)"
  by (simp add: or_else_def)

lemma or_else_last: "or_else a b = first_set [a, b]"
  by (simp add: or_else_def first_set_def)

definition repo_sources :: "outside \<Rightarrow> config_options \<Rightarrow> string list" where
  "repo_sources w o1 =
     [op_repo o1, os_getenv w ''NOCI_REPO'',
      if os_getenv w ''GITHUB_ACTIONS'' = ''true'' then os_getenv w ''GITHUB_REPOSITORY'' else [],
      auto_detect_git_repo w]"

lemma resolve_repo_first: "resolve_repo w o1 = first_set (repo_sources w o1)"
  by (simp add: resolve_repo_def repo_sources_def or_else_def first_set_def Let_def)

lemma resolve_token_first:
  "resolve_token w o1 registry =
     first_set [op_token o1, os_getenv w ''NOCI_TOKEN'', os_getenv w ''GITHUB_TOKEN'',
       os_getenv w ''GH_TOKEN'', read_gh_cli_token w, read_docker_config_token w registry]"
  by (simp add: resolve_token_def or_else_def first_set_def)

lemma resolve_registries_nonempty: "resolve_registries w vals base = Inr rs \<Longrightarrow> rs \<noteq> []"
  by (cases vals) (auto simp: resolve_registries_def parse_registries_def Let_def
      split: if_splits option.splits sum.splits)

text \<open>A loaded configuration takes the repository and the token from the first source that has one
  (flag, environment, then the files and the git remote), always names a registry and a repository,
  and has at least one registry to serve from.\<close>

lemma load_precedence:
  assumes "load w o1 = Inr c"
  shows "tg_repo (cf_primary c) = first_set (repo_sources w o1) \<and> tg_repo (cf_primary c) \<noteq> []
    \<and> tg_registry (cf_primary c) = first_set [op_registry o1, os_getenv w ''NOCI_REGISTRY'', ''ghcr.io'']
    \<and> tg_registry (cf_primary c) \<noteq> []
    \<and> tg_token (cf_primary c) =
        first_set [op_token o1, os_getenv w ''NOCI_TOKEN'', os_getenv w ''GITHUB_TOKEN'', os_getenv w ''GH_TOKEN'',
          read_gh_cli_token w, read_docker_config_token w (tg_registry (cf_primary c))]
    \<and> cf_registries c \<noteq> []"
proof -
  obtain rs where r: "resolve_repo w o1 \<noteq> []" "resolve_registries w (op_extra o1)
      \<lparr>tg_registry = resolve_registry w o1, tg_repo = resolve_repo w o1,
       tg_token = resolve_token w o1 (resolve_registry w o1)\<rparr> = Inr rs"
    and c: "c = \<lparr>cf_primary = \<lparr>tg_registry = resolve_registry w o1, tg_repo = resolve_repo w o1,
       tg_token = resolve_token w o1 (resolve_registry w o1)\<rparr>, cf_registries = rs\<rparr>"
    using assms by (auto simp: load_def Let_def split: if_splits sum.splits)
  have reg: "resolve_registry w o1 = first_set [op_registry o1, os_getenv w ''NOCI_REGISTRY'', ''ghcr.io'']"
    "resolve_registry w o1 \<noteq> []"
    by (simp_all add: resolve_registry_def or_else_def first_set_def)
  show ?thesis
    using r(1) resolve_registries_nonempty [OF r(2)] reg
    unfolding c resolve_repo_first [symmetric] resolve_token_first [symmetric] by simp
qed

end
