(* ===== verification/Oci_Transport.thy ===== *)
theory Oci_Transport
  imports Domain_Types
begin

text \<open>
  The HTTP side of the registry client (\<open>pkg/oci/transport.go\<close>): the token cache, the request
  with its authorization, the retries with their backoff. The registry is not in the repository:
  it is a function of the requests it has seen, an argument of every operation.
\<close>

section \<open>Requests, answers and the world outside\<close>

datatype auth = NoAuth | Basic string | Bearer string

text \<open>\<open>oq_follow\<close> tells \<open>client.Do\<close>, which follows redirects, from \<open>RoundTrip\<close>, which does not.
  An empty string stands for a header that is not set.\<close>

record oci_request =
  oq_method :: string
  oq_url :: string
  oq_auth :: auth
  oq_type :: string
  oq_range :: string
  oq_body :: "string option"
  oq_follow :: bool

text \<open>\<open>ha_header\<close> is \<open>Header.Get\<close>.\<close>

record http_answer =
  ha_status :: int
  ha_header :: "string \<Rightarrow> string"
  ha_body :: string

type_synonym answer = "string + http_answer"

text \<open>
  \<open>nt_answer\<close>: what the network answers to a request after the requests it was sent before, or the
  error of the exchange. \<open>nt_clock\<close>: the i-th reading of the clock. \<open>nt_cancelled\<close>: whether the
  context is done after so many exchanges, with its error. \<open>nt_token\<close>: the decoder of the token
  answer.
\<close>

record network =
  nt_answer :: "oci_request list \<Rightarrow> oci_request \<Rightarrow> answer"
  nt_clock :: "nat \<Rightarrow> time"
  nt_cancelled :: "nat \<Rightarrow> string option"
  nt_token :: "string \<Rightarrow> string + string"

record transport =
  tr_registry :: string
  tr_repo :: string
  tr_token :: string
  tr_pull_token :: string
  tr_pull_time :: time
  tr_push_token :: string
  tr_push_time :: time

text \<open>The requests sent so far, the readings of the clock, the pauses, and the client's own state.\<close>

record world =
  w_log :: "oci_request list"
  w_ticks :: nat
  w_sleeps :: "duration list"
  w_transport :: transport

definition exchange :: "network \<Rightarrow> oci_request \<Rightarrow> world \<Rightarrow> answer \<times> world" where
  "exchange nt rq w = (nt_answer nt (w_log w) rq, w\<lparr>w_log := w_log w @ [rq]\<rparr>)"

definition read_clock :: "network \<Rightarrow> world \<Rightarrow> time \<times> world" where
  "read_clock nt w = (nt_clock nt (w_ticks w), w\<lparr>w_ticks := Suc (w_ticks w)\<rparr>)"

definition pause :: "duration \<Rightarrow> world \<Rightarrow> world" where
  "pause d w = w\<lparr>w_sleeps := w_sleeps w @ [d]\<rparr>"

definition cancelled :: "network \<Rightarrow> world \<Rightarrow> string option" where
  "cancelled nt w = nt_cancelled nt (length (w_log w))"

section \<open>Tokens\<close>

definition default_token_cache_ttl :: duration where
  "default_token_cache_ttl = 4 * minute"

definition new_transport :: "string \<Rightarrow> string \<Rightarrow> string \<Rightarrow> transport" where
  "new_transport registry repo token =
     \<lparr>tr_registry = registry, tr_repo = repo, tr_token = token, tr_pull_token = [], tr_pull_time = 0,
      tr_push_token = [], tr_push_time = 0\<rparr>"

definition cached_token :: "string \<Rightarrow> transport \<Rightarrow> string \<times> time" where
  "cached_token actions t =
     (if actions = ''pull'' then (tr_pull_token t, tr_pull_time t) else (tr_push_token t, tr_push_time t))"

definition store_token :: "string \<Rightarrow> string \<Rightarrow> time \<Rightarrow> transport \<Rightarrow> transport" where
  "store_token actions token now t =
     (if actions = ''pull'' then t\<lparr>tr_pull_token := token, tr_pull_time := now\<rparr>
      else t\<lparr>tr_push_token := token, tr_push_time := now\<rparr>)"

definition token_request :: "transport \<Rightarrow> string \<Rightarrow> oci_request" where
  "token_request t actions =
     \<lparr>oq_method = ''GET'',
      oq_url = ''https://'' @ tr_registry t @ ''/token?scope=repository:'' @ tr_repo t @ ''/nix-cache:'' @ actions
        @ ''&service='' @ tr_registry t,
      oq_auth = (if tr_token t = [] then NoAuth else Basic (tr_token t)),
      oq_type = [], oq_range = [], oq_body = None, oq_follow = True\<rparr>"

definition fetch_token :: "network \<Rightarrow> string \<Rightarrow> world \<Rightarrow> (string + string) \<times> world" where
  "fetch_token nt actions w =
     (case exchange nt (token_request (w_transport w) actions) w of
        (Inl err, w1) \<Rightarrow> (Inl err, w1)
      | (Inr resp, w1) \<Rightarrow>
          (if ha_status resp \<noteq> 200
           then (Inl (''fetch token for '' @ actions @ '' failed: HTTP '' @ show_int (ha_status resp) @ '', '' @ ha_body resp), w1)
           else case nt_token nt (ha_body resp) of
                  Inl err \<Rightarrow> (Inl err, w1)
                | Inr token \<Rightarrow>
                    (let (now, w2) = read_clock nt w1
                     in (Inr token, w2\<lparr>w_transport := store_token actions token now (w_transport w2)\<rparr>))))"

definition get_oci_token :: "network \<Rightarrow> string \<Rightarrow> world \<Rightarrow> (string + string) \<times> world" where
  "get_oci_token nt actions w =
     (let (token, fetched_at) = cached_token actions (w_transport w)
      in if token = [] then fetch_token nt actions w
         else let (now, w1) = read_clock nt w
              in if time_sub now fetched_at < default_token_cache_ttl then (Inr token, w1)
                 else fetch_token nt actions w1)"

section \<open>Retries\<close>

text \<open>The header of an answer 429 or 503 replaces the backoff when it is a positive number.\<close>

definition next_backoff :: "http_answer \<Rightarrow> duration \<Rightarrow> duration" where
  "next_backoff resp backoff =
     (if ha_status resp = 429 \<or> ha_status resp = 503
      then case parse_int64 (ha_header resp ''Retry-After'') of
             Some n \<Rightarrow> if 0 < n then mul64 n second else backoff
           | None \<Rightarrow> backoff
      else backoff)"

definition final_answer :: "http_answer \<Rightarrow> bool" where
  "final_answer resp \<longleftrightarrow> ha_status resp < 500 \<and> ha_status resp \<noteq> 429"

text \<open>
  The body of an answer that is retried has been closed: reading it gives nothing. The first
  argument is the number of attempts left; every body is a string that can be read again, as the
  client only sends \<open>bytes.Reader\<close> bodies this way.
\<close>

fun retry_loop :: "nat \<Rightarrow> network \<Rightarrow> oci_request \<Rightarrow> duration \<Rightarrow> answer \<Rightarrow> world \<Rightarrow> answer \<times> world" where
  "retry_loop 0 nt rq backoff last_answer w = (last_answer, w)"
| "retry_loop (Suc n) nt rq backoff last_answer w =
     (case cancelled nt w of
        Some err \<Rightarrow> (Inl err, w)
      | None \<Rightarrow>
          (case exchange nt rq w of
             (Inl err, w1) \<Rightarrow>
               retry_loop n nt rq (if n = 0 then backoff else mul64 backoff 2) (Inl err)
                 (if n = 0 then w1 else pause backoff w1)
           | (Inr resp, w1) \<Rightarrow>
               (if final_answer resp then (Inr resp, w1)
                else let b = next_backoff resp backoff
                     in retry_loop n nt rq (if n = 0 then b else mul64 b 2) (Inr (resp\<lparr>ha_body := []\<rparr>))
                          (if n = 0 then w1 else pause b w1))))"

definition do_with_retry :: "network \<Rightarrow> oci_request \<Rightarrow> world \<Rightarrow> answer \<times> world" where
  "do_with_retry nt rq w = retry_loop 4 nt rq second (Inl []) w"

definition actions_for :: "string \<Rightarrow> string" where
  "actions_for mthd = (if mthd \<noteq> ''GET'' \<and> mthd \<noteq> ''HEAD'' then ''pull,push'' else ''pull'')"

definition registry_request ::
  "transport \<Rightarrow> string \<Rightarrow> string \<Rightarrow> string \<Rightarrow> string option \<Rightarrow> string \<Rightarrow> bool \<Rightarrow> oci_request" where
  "registry_request t mthd path token body ctype follow =
     \<lparr>oq_method = mthd, oq_url = ''https://'' @ tr_registry t @ ''/v2/'' @ tr_repo t @ ''/nix-cache'' @ path,
      oq_auth = Bearer token, oq_type = ctype, oq_range = [], oq_body = body, oq_follow = follow\<rparr>"

definition do_request ::
  "network \<Rightarrow> string \<Rightarrow> string \<Rightarrow> string option \<Rightarrow> string \<Rightarrow> bool \<Rightarrow> world \<Rightarrow> answer \<times> world" where
  "do_request nt mthd path body ctype follow w =
     (case get_oci_token nt (actions_for mthd) w of
        (Inl err, w1) \<Rightarrow> (Inl err, w1)
      | (Inr token, w1) \<Rightarrow>
          do_with_retry nt (registry_request (w_transport w1) mthd path token body ctype follow) w1)"

definition transport_request ::
  "network \<Rightarrow> string \<Rightarrow> string \<Rightarrow> string option \<Rightarrow> string \<Rightarrow> world \<Rightarrow> answer \<times> world" where
  "transport_request nt mthd path body ctype w = do_request nt mthd path body ctype True w"

definition transport_raw_request ::
  "network \<Rightarrow> string \<Rightarrow> string \<Rightarrow> string option \<Rightarrow> string \<Rightarrow> world \<Rightarrow> answer \<times> world" where
  "transport_raw_request nt mthd path body ctype w = do_request nt mthd path body ctype False w"

text \<open>Requests that are sent once, with a header for the range of a chunk.\<close>

definition upload_request ::
  "string \<Rightarrow> string \<Rightarrow> string \<Rightarrow> string \<Rightarrow> string option \<Rightarrow> oci_request" where
  "upload_request mthd url token rng body =
     \<lparr>oq_method = mthd, oq_url = url, oq_auth = Bearer token, oq_type = ''application/octet-stream'',
      oq_range = rng, oq_body = body, oq_follow = True\<rparr>"

section \<open>What the retries do\<close>

text \<open>The answer to the i-th attempt, and the first attempt whose answer is final.\<close>

definition attempt_answer :: "network \<Rightarrow> oci_request \<Rightarrow> world \<Rightarrow> nat \<Rightarrow> answer" where
  "attempt_answer nt rq w i = nt_answer nt (w_log w @ replicate i rq) rq"

definition settles :: "answer \<Rightarrow> bool" where
  "settles a \<longleftrightarrow> (case a of Inl _ \<Rightarrow> False | Inr resp \<Rightarrow> final_answer resp)"

definition closed_body :: "answer \<Rightarrow> answer" where
  "closed_body a = (case a of Inl err \<Rightarrow> Inl err | Inr resp \<Rightarrow> Inr (resp\<lparr>ha_body := []\<rparr>))"

text \<open>The plain reading of \<open>doWithRetry\<close>: the pauses between the attempts, from the answers they follow. Each
  is twice the one before, unless the answer names a positive number of seconds of its own.\<close>

definition wait_for :: "answer \<Rightarrow> duration \<Rightarrow> duration" where
  "wait_for a b =
     (case a of
        Inr resp \<Rightarrow>
          (case parse_int64 (ha_header resp ''Retry-After'') of
             Some n \<Rightarrow> if ha_status resp \<in> {429, 503} \<and> 0 < n then mul64 n second else b
           | None \<Rightarrow> b)
      | Inl _ \<Rightarrow> b)"

fun retry_pauses :: "answer list \<Rightarrow> duration \<Rightarrow> duration list" where
  "retry_pauses [] b = []"
| "retry_pauses (a # as) b = wait_for a b # retry_pauses as (mul64 (wait_for a b) 2)"

text \<open>What a run of at most \<open>m\<close> attempts may do: the answers \<open>as\<close> it got, one per attempt, none but the last
  final; it ends with a final answer, with the error of the context, or with the last answer.\<close>

definition retried :: "nat \<Rightarrow> network \<Rightarrow> oci_request \<Rightarrow> duration \<Rightarrow> answer \<Rightarrow> world \<Rightarrow> answer list \<Rightarrow> answer \<Rightarrow> duration list \<Rightarrow> bool" where
  "retried m nt rq b unsent w as a ps \<longleftrightarrow>
     length as \<le> m \<and> as = map (attempt_answer nt rq w) [0..<length as]
     \<and> (\<forall>i<length as. nt_cancelled nt (length (w_log w) + i) = None)
     \<and> (as \<noteq> [] \<and> list_all (\<lambda>x. \<not> settles x) (butlast as) \<and> settles (last as) \<and> a = last as
          \<and> ps = retry_pauses (butlast as) b
      \<or> length as < m \<and> list_all (\<lambda>x. \<not> settles x) as \<and> ps = retry_pauses as b
          \<and> (\<exists>err. nt_cancelled nt (length (w_log w) + length as) = Some err \<and> a = Inl err)
      \<or> length as = m \<and> list_all (\<lambda>x. \<not> settles x) as \<and> ps = retry_pauses (butlast as) b
          \<and> a = (if as = [] then unsent else closed_body (last as)))"

lemma next_backoff_wait: "next_backoff resp b = wait_for (Inr resp) b"
  by (auto simp: next_backoff_def wait_for_def split: option.split)

text \<open>One attempt that is not final, and what follows it.\<close>

lemma retry_again:
  assumes "nt_cancelled nt (length (w_log w)) = None" and "\<not> settles (nt_answer nt (w_log w) rq)"
  shows "retry_loop (Suc n) nt rq b unsent w =
    (let a0 = nt_answer nt (w_log w) rq; w1 = w\<lparr>w_log := w_log w @ [rq]\<rparr>
     in retry_loop n nt rq (if n = 0 then wait_for a0 b else mul64 (wait_for a0 b) 2) (closed_body a0)
          (if n = 0 then w1 else pause (wait_for a0 b) w1))"
  using assms
  by (cases "nt_answer nt (w_log w) rq")
    (auto simp: cancelled_def exchange_def settles_def closed_body_def next_backoff_wait Let_def, simp add: wait_for_def)

lemma attempt_shift:
  "w_log w1 = w_log w @ [rq] \<Longrightarrow> attempt_answer nt rq w1 i = attempt_answer nt rq w (Suc i)"
  by (simp add: attempt_answer_def)

lemma retried_Suc:
  assumes "retried n nt rq (mul64 (wait_for a0 b) 2) (closed_body a0) w1 as a ps"
    and "w_log w1 = w_log w @ [rq]" and "a0 = nt_answer nt (w_log w) rq" and "\<not> settles a0"
    and "nt_cancelled nt (length (w_log w)) = None"
  shows "retried (Suc n) nt rq b unsent w (a0 # as) a (if n = 0 then [] else wait_for a0 b # ps)"
proof -
  note r = assms(1) [unfolded retried_def assms(2)]
  have l: "length as \<le> n" using r by blast
  have sh: "attempt_answer nt rq w1 = (\<lambda>i. attempt_answer nt rq w (Suc i))"
    by (rule ext) (rule attempt_shift [OF assms(2)])
  have as: "map (\<lambda>i. attempt_answer nt rq w (Suc i)) [0..<length as] = as"
    using r [THEN conjunct2, THEN conjunct1, symmetric] unfolding sh .
  have "attempt_answer nt rq w 0 = a0" by (simp add: attempt_answer_def assms(3))
  then have eq: "a0 # as = map (attempt_answer nt rq w) [0..<length (a0 # as)]"
    unfolding length_Cons map_upt_Suc as by simp
  have nc: "\<forall>i<length (a0 # as). nt_cancelled nt (length (w_log w) + i) = None"
  proof (intro allI impI)
    fix i assume "i < length (a0 # as)"
    then show "nt_cancelled nt (length (w_log w) + i) = None" using r assms(5) by (cases i) auto
  qed
  let ?ps = "if n = 0 then [] else wait_for a0 b # ps"
  have ends: "as \<noteq> [] \<and> list_all (\<lambda>x. \<not> settles x) (butlast as) \<and> settles (last as) \<and> a = last as
      \<and> ps = retry_pauses (butlast as) (mul64 (wait_for a0 b) 2)
    \<or> length as < n \<and> list_all (\<lambda>x. \<not> settles x) as \<and> ps = retry_pauses as (mul64 (wait_for a0 b) 2)
      \<and> (\<exists>err. nt_cancelled nt (length (w_log w @ [rq]) + length as) = Some err \<and> a = Inl err)
    \<or> length as = n \<and> list_all (\<lambda>x. \<not> settles x) as \<and> ps = retry_pauses (butlast as) (mul64 (wait_for a0 b) 2)
      \<and> a = (if as = [] then closed_body a0 else closed_body (last as))"
    using r by blast
  have "a0 # as \<noteq> [] \<and> list_all (\<lambda>x. \<not> settles x) (butlast (a0 # as)) \<and> settles (last (a0 # as)) \<and> a = last (a0 # as)
      \<and> ?ps = retry_pauses (butlast (a0 # as)) b
    \<or> length (a0 # as) < Suc n \<and> list_all (\<lambda>x. \<not> settles x) (a0 # as) \<and> ?ps = retry_pauses (a0 # as) b
      \<and> (\<exists>err. nt_cancelled nt (length (w_log w) + length (a0 # as)) = Some err \<and> a = Inl err)
    \<or> length (a0 # as) = Suc n \<and> list_all (\<lambda>x. \<not> settles x) (a0 # as) \<and> ?ps = retry_pauses (butlast (a0 # as)) b
      \<and> a = (if a0 # as = [] then unsent else closed_body (last (a0 # as)))"
    using ends
  proof (elim disjE)
    assume "as \<noteq> [] \<and> list_all (\<lambda>x. \<not> settles x) (butlast as) \<and> settles (last as) \<and> a = last as
      \<and> ps = retry_pauses (butlast as) (mul64 (wait_for a0 b) 2)"
    moreover then have "0 < n" using l by (cases as) simp_all
    ultimately show ?thesis using assms(4) by (intro disjI1) simp
  next
    assume "length as < n \<and> list_all (\<lambda>x. \<not> settles x) as \<and> ps = retry_pauses as (mul64 (wait_for a0 b) 2)
      \<and> (\<exists>err. nt_cancelled nt (length (w_log w @ [rq]) + length as) = Some err \<and> a = Inl err)"
    with assms(4) show ?thesis by (intro disjI2 disjI1) simp
  next
    assume "length as = n \<and> list_all (\<lambda>x. \<not> settles x) as \<and> ps = retry_pauses (butlast as) (mul64 (wait_for a0 b) 2)
      \<and> a = (if as = [] then closed_body a0 else closed_body (last as))"
    with assms(4) show ?thesis by (intro disjI2) (cases as; simp)
  qed
  with l eq nc show ?thesis unfolding retried_def by (intro conjI) simp_all
qed

lemma retry_loop_retried:
  assumes "retry_loop m nt rq b unsent w = (a, w')"
  shows "\<exists>as ps. retried m nt rq b unsent w as a ps
    \<and> w' = w\<lparr>w_log := w_log w @ replicate (length as) rq, w_sleeps := w_sleeps w @ ps\<rparr>"
  using assms
proof (induction m arbitrary: b unsent w)
  case 0
  then show ?case by (intro exI [of _ "[]"]) (simp add: retried_def)
next
  case (Suc n)
  let ?a = "nt_answer nt (w_log w) rq" and ?w1 = "w\<lparr>w_log := w_log w @ [rq]\<rparr>"
  show ?case
  proof (cases "nt_cancelled nt (length (w_log w))")
    case (Some err)
    with Suc.prems have "a = Inl err" "w' = w" by (simp_all add: cancelled_def)
    with Some show ?thesis by (intro exI [of _ "[]"]) (simp add: retried_def)
  next
    case None
    show ?thesis
    proof (cases "settles ?a")
      case True
      then obtain resp where a: "?a = Inr resp" "final_answer resp" by (cases ?a) (auto simp: settles_def)
      with Suc.prems None have "a = ?a" "w' = ?w1" by (simp_all add: cancelled_def exchange_def)
      with True None show ?thesis
        by (intro exI [of _ "[?a]"] exI [of _ "[]"]) (simp add: retried_def attempt_answer_def)
    next
      case False
      let ?w2 = "if n = 0 then ?w1 else pause (wait_for ?a b) ?w1"
      have "retry_loop n nt rq (if n = 0 then wait_for ?a b else mul64 (wait_for ?a b) 2) (closed_body ?a) ?w2 = (a, w')"
        using Suc.prems unfolding retry_again [OF None False] Let_def .
      then have loop: "retry_loop n nt rq (mul64 (wait_for ?a b) 2) (closed_body ?a) ?w2 = (a, w')"
        by (cases n) simp_all
      have l2: "w_log ?w2 = w_log w @ [rq]" by (simp add: pause_def)
      obtain as ps where ih: "retried n nt rq (mul64 (wait_for ?a b) 2) (closed_body ?a) ?w2 as a ps"
        "w' = ?w2\<lparr>w_log := w_log ?w2 @ replicate (length as) rq, w_sleeps := w_sleeps ?w2 @ ps\<rparr>"
        using Suc.IH [OF loop] by blast
      have "n = 0 \<Longrightarrow> ps = []" using ih(1) by (auto simp: retried_def)
      then have "w' = w\<lparr>w_log := w_log w @ replicate (length (?a # as)) rq,
          w_sleeps := w_sleeps w @ (if n = 0 then [] else wait_for ?a b # ps)\<rparr>"
        using ih(2) by (simp add: pause_def)
      with retried_Suc [OF ih(1) l2 refl False None] show ?thesis by blast
    qed
  qed
qed

section \<open>What an operation sends\<close>

text \<open>Between two states only requests with one of these methods were sent, to the same repository.\<close>

definition sends :: "string set \<Rightarrow> world \<Rightarrow> world \<Rightarrow> bool" where
  "sends ms w w' \<longleftrightarrow>
     (\<exists>new. w_log w' = w_log w @ new \<and> (\<forall>rq\<in>set new. oq_method rq \<in> ms))
     \<and> tr_registry (w_transport w') = tr_registry (w_transport w)
     \<and> tr_repo (w_transport w') = tr_repo (w_transport w)"

lemma sends_refl [simp]: "sends ms w w"
  by (simp add: sends_def)

lemma sends_trans: "sends ms w w' \<Longrightarrow> sends ms w' w'' \<Longrightarrow> sends ms w w''"
  unfolding sends_def by (metis (no_types, lifting) append_assoc set_append Un_iff)

lemma sends_mono: "sends ms w w' \<Longrightarrow> ms \<subseteq> ms' \<Longrightarrow> sends ms' w w'"
  unfolding sends_def by (meson subsetD)

lemma sends_pause [simp]: "sends ms w (pause d w)"
  by (simp add: sends_def pause_def)

lemma sends_read_clock: "read_clock nt w = (t, w') \<Longrightarrow> sends ms w w'"
  by (auto simp: sends_def read_clock_def)

lemma sends_exchange: "exchange nt rq w = (a, w') \<Longrightarrow> oq_method rq \<in> ms \<Longrightarrow> sends ms w w'"
  by (auto simp: sends_def exchange_def)

lemma exchange_log: "exchange nt rq w = (a, w') \<Longrightarrow> w_log w' = w_log w @ [rq] \<and> a = nt_answer nt (w_log w) rq"
  by (auto simp: exchange_def)

lemma sends_store_token:
  "sends ms w w' \<Longrightarrow> sends ms w (w'\<lparr>w_transport := store_token actions token now (w_transport w')\<rparr>)"
  by (simp add: sends_def store_token_def)

lemma sends_fetch_token: "fetch_token nt actions w = (r, w') \<Longrightarrow> ''GET'' \<in> ms \<Longrightarrow> sends ms w w'"
  by (auto simp: fetch_token_def exchange_def token_request_def sends_def read_clock_def store_token_def
      split: sum.splits if_splits prod.splits)

lemma sends_get_token: "get_oci_token nt actions w = (r, w') \<Longrightarrow> ''GET'' \<in> ms \<Longrightarrow> sends ms w w'"
  unfolding get_oci_token_def Let_def
  by (auto split: prod.splits if_splits intro: sends_fetch_token sends_trans sends_read_clock)

lemma retry_loop_cases:
  assumes "retry_loop (Suc n) nt rq backoff lst w = (a, w')" and "exchange nt rq w = (a1, w1)"
  obtains (stop) "w' = w" "\<not> settles a"
  | (final) "w' = w1" "a = a1" "settles a1"
  | (again) b l w2 where "retry_loop n nt rq b l w2 = (a, w')" "\<not> settles l" "w2 = w1 \<or> (\<exists>d. w2 = pause d w1)"
proof (cases "cancelled nt w")
  case (Some err)
  with assms(1) show thesis by (intro stop) (auto simp: settles_def)
next
  case None
  note loop = assms(1) [unfolded retry_loop.simps None assms(2) option.case prod.case]
  show thesis
  proof (cases a1)
    case (Inl err)
    show thesis
      by (rule again [OF loop [unfolded Inl sum.case]]) (auto simp: settles_def)
  next
    case (Inr resp)
    show thesis
    proof (cases "final_answer resp")
      case True
      with loop Inr show thesis by (intro final) (auto simp: settles_def)
    next
      case False
      then have l: "\<not> settles (Inr (resp\<lparr>ha_body := []\<rparr>))" by (simp add: settles_def final_answer_def)
      show thesis
        by (rule again [OF loop [unfolded Inr sum.case if_not_P [OF False] Let_def] l]) auto
    qed
  qed
qed

lemma sends_retry_loop:
  "retry_loop n nt rq backoff lst w = (a, w') \<Longrightarrow> oq_method rq \<in> ms \<Longrightarrow> sends ms w w'"
proof (induction n arbitrary: backoff lst w)
  case (Suc n)
  obtain a1 w1 where e: "exchange nt rq w = (a1, w1)" by (cases "exchange nt rq w")
  have w1: "sends ms w w1" by (rule sends_exchange [OF e Suc.prems(2)])
  from Suc.prems(1) e show ?case
  proof (cases rule: retry_loop_cases)
    case (again b l w2)
    then have "sends ms w1 w2" by auto
    with again w1 Suc.IH [OF _ Suc.prems(2)] show ?thesis by (blast intro: sends_trans)
  qed (use w1 in simp_all)
qed simp

lemma sends_do_request:
  assumes "do_request nt mthd path body ctype follow w = (a, w')" and "{''GET'', mthd} \<subseteq> ms"
  shows "sends ms w w'"
proof -
  obtain r w1 where t: "get_oci_token nt (actions_for mthd) w = (r, w1)"
    by (cases "get_oci_token nt (actions_for mthd) w")
  have w1: "sends ms w w1" using assms(2) by (intro sends_get_token [OF t]) simp
  have step: "sends ms w1 w'" if "do_with_retry nt (registry_request tr mthd path token body ctype follow) w1 = (a, w')"
    for tr token
    using sends_retry_loop [OF that [unfolded do_with_retry_def]] assms(2) by (simp add: registry_request_def)
  show ?thesis
    using assms(1) t w1 sends_trans [OF w1 step] by (auto simp: do_request_def split: sum.splits)
qed

lemma sends_request:
  "transport_request nt mthd path body ctype w = (a, w') \<Longrightarrow> {''GET'', mthd} \<subseteq> ms \<Longrightarrow> sends ms w w'"
  unfolding transport_request_def by (rule sends_do_request)

text \<open>An answer that is final is the answer to the last request sent.\<close>

lemma retry_loop_last:
  assumes "retry_loop n nt rq backoff lst w = (a, w')" and "settles a" and "\<not> settles lst"
  shows "\<exists>k. w_log w' = w_log w @ replicate k rq @ [rq] \<and> nt_answer nt (w_log w @ replicate k rq) rq = a"
  using assms
proof (induction n arbitrary: backoff lst w)
  case (Suc n)
  obtain a1 w1 where e: "exchange nt rq w = (a1, w1)" by (cases "exchange nt rq w")
  from Suc.prems(1) e show ?case
  proof (cases rule: retry_loop_cases)
    case (again b l w2)
    have w2: "w_log w2 = w_log w @ [rq]" using again(3) exchange_log [OF e] by (auto simp: pause_def)
    from Suc.IH [OF again(1) Suc.prems(2) again(2)] show ?thesis
      unfolding w2 by (metis append_Cons append_Nil append_assoc replicate_Suc)
  next
    case final
    with exchange_log [OF e] show ?thesis by (intro exI [of _ 0]) simp
  qed (use Suc.prems(2) in auto)
qed auto

lemma transport_request_last:
  assumes "transport_request nt mthd path body ctype w = (Inr resp, w')" and "final_answer resp"
  shows "\<exists>new rq. w_log w' = w_log w @ new @ [rq] \<and> nt_answer nt (w_log w @ new) rq = Inr resp
    \<and> list_all (\<lambda>r. oq_method r \<in> {''GET'', mthd}) new \<and> oq_method rq = mthd \<and> oq_body rq = body
    \<and> oq_url rq = ''https://'' @ tr_registry (w_transport w) @ ''/v2/'' @ tr_repo (w_transport w) @ ''/nix-cache'' @ path"
proof -
  obtain token w1 where t: "get_oci_token nt (actions_for mthd) w = (Inr token, w1)"
    and r: "retry_loop 4 nt (registry_request (w_transport w1) mthd path token body ctype True) second (Inl []) w1 = (Inr resp, w')"
    using assms(1)
    by (auto simp: transport_request_def do_request_def do_with_retry_def split: prod.splits sum.splits)
  let ?rq = "registry_request (w_transport w1) mthd path token body ctype True"
  have "sends {''GET''} w w1" by (rule sends_get_token [OF t]) simp
  then obtain h1 where h1: "w_log w1 = w_log w @ h1" "\<forall>r\<in>set h1. oq_method r = ''GET''"
    and tr: "tr_registry (w_transport w1) = tr_registry (w_transport w)" "tr_repo (w_transport w1) = tr_repo (w_transport w)"
    by (auto simp: sends_def)
  obtain k where k: "w_log w' = w_log w1 @ replicate k ?rq @ [?rq]" "nt_answer nt (w_log w1 @ replicate k ?rq) ?rq = Inr resp"
    using retry_loop_last [OF r] assms(2) by (auto simp: settles_def)
  show ?thesis
    by (rule exI [of _ "h1 @ replicate k ?rq"], rule exI [of _ ?rq])
      (use h1 k tr in \<open>auto simp: registry_request_def list_all_iff\<close>)
qed

end
