(* ===== verification/Oci_Blob.thy ===== *)
theory Oci_Blob
  imports Oci_Transport
begin

text \<open>
  Blobs (\<open>pkg/oci/blob.go\<close>): the monolithic and the chunked upload, the choice between them and
  the retry of an expired session, download and deletion. The content of the file to upload is an
  argument and does not change while it is uploaded; progress messages are left out.
\<close>

section \<open>Outcomes\<close>

text \<open>A Go function that returns an error may also panic.\<close>

datatype 'a go_outcome = Done 'a | Failed string | Panicked

text \<open>\<open>ul_resolve\<close> parses a location and resolves it against the registry.\<close>

type_synonym resolver = "string \<Rightarrow> string \<Rightarrow> string + string"

definition chunked_threshold :: nat where "chunked_threshold = 64 * 1024 * 1024"

definition chunk_size :: nat where "chunk_size = 4 * 1024 * 1024"

definition is_upload_session_expired :: "string \<Rightarrow> bool" where
  "is_upload_session_expired msg \<longleftrightarrow>
     str_contains msg ''blob upload invalid'' \<or> str_contains msg ''BLOB_UPLOAD_INVALID'' \<or> str_contains msg ''HTTP 404''"

text \<open>The exchange succeeded and the registry did not fail.\<close>

definition below_500 :: "answer \<Rightarrow> bool" where
  "below_500 a \<longleftrightarrow> (case a of Inr resp \<Rightarrow> ha_status resp < 500 | Inl _ \<Rightarrow> False)"

lemma below_500_simps [simp]:
  "below_500 (Inr resp) \<longleftrightarrow> ha_status resp < 500" "\<not> below_500 (Inl err)" "below_500 (closed_body a) \<longleftrightarrow> below_500 a"
  by (auto simp: below_500_def closed_body_def split: sum.split)

text \<open>Starting a session: the location to upload to. \<open>kind\<close> names the strategy in the error.\<close>

definition start_session :: "network \<Rightarrow> resolver \<Rightarrow> string \<Rightarrow> world \<Rightarrow> (string + string) \<times> world" where
  "start_session nt resolve kind w =
     (case transport_request nt ''POST'' ''/blobs/uploads/'' None [] w of
        (Inl err, w1) \<Rightarrow> (Inl err, w1)
      | (Inr resp, w1) \<Rightarrow>
          (if ha_status resp \<noteq> 202 \<and> ha_status resp \<noteq> 201
           then (Inl (''failed to initiate '' @ kind @ '' upload (HTTP '' @ show_int (ha_status resp) @ ''): '' @ ha_body resp), w1)
           else if ha_header resp ''Location'' = []
           then (Inl (''registry didn't return upload location''), w1)
           else case resolve (tr_registry (w_transport w1)) (ha_header resp ''Location'') of
                  Inl err \<Rightarrow> (Inl (''invalid upload location URL: '' @ err), w1)
                | Inr url \<Rightarrow> (Inr url, w1)))"

section \<open>Monolithic upload\<close>

text \<open>
  The body of the request is the file itself, which \<open>client.Do\<close> closes: a second attempt finds it
  closed (the result of \<open>Seek\<close> is not looked at) and fails: no body is sent, so the registry never
  gets a whole request. The result is
  the last \<open>putResp\<close>, or its error; \<open>Inl\<close> is a return from inside the loop.
\<close>

fun put_loop :: "nat \<Rightarrow> bool \<Rightarrow> network \<Rightarrow> string \<Rightarrow> string \<Rightarrow> string \<Rightarrow> duration \<Rightarrow> answer \<Rightarrow> world
    \<Rightarrow> (string + answer) \<times> world" where
  "put_loop 0 first nt url token content backoff last_answer w = (Inr last_answer, w)"
| "put_loop (Suc n) first nt url token content backoff last_answer w =
     (case (if first then (Inr token, w) else get_oci_token nt ''pull,push'' w) of
        (Inl err, w1) \<Rightarrow> (Inl (''refresh token for monolithic upload: '' @ err), w1)
      | (Inr tok, w1) \<Rightarrow>
          (let (a, w2) = (if first then exchange nt (upload_request ''PUT'' url tok [] (Some content)) w1
                          else (Inl ''file already closed'', w1))
           in if below_500 a then (Inr a, w2)
              else put_loop n False nt url tok content (if n = 0 then backoff else mul64 backoff 2)
                     (closed_body a) (if n = 0 then w2 else pause backoff w2)))"

text \<open>
  \<open>err\<close> of the loop's body is a variable of its own, so the test after the loop never sees it: when
  the last attempt got no answer, \<open>putResp\<close> is nil and is dereferenced.
\<close>

definition upload_monolithic ::
  "network \<Rightarrow> resolver \<Rightarrow> string + string \<Rightarrow> string \<Rightarrow> world \<Rightarrow> (string \<times> int) go_outcome \<times> world" where
  "upload_monolithic nt resolve fcontent hex w =
     (let digest = ''sha256:'' @ hex in
      case fcontent of
        Inl err \<Rightarrow> (Failed (''failed to open blob file: '' @ err), w)
      | Inr content \<Rightarrow>
          (case get_oci_token nt ''pull,push'' w of
             (Inl err, w1) \<Rightarrow> (Failed err, w1)
           | (Inr token, w1) \<Rightarrow>
               (case start_session nt resolve ''blob'' w1 of
                  (Inl err, w2) \<Rightarrow> (Failed err, w2)
                | (Inr url, w2) \<Rightarrow>
                    (case put_loop 4 True nt (url @ ''?digest='' @ digest) token content second (Inl []) w2 of
                       (Inl err, w3) \<Rightarrow> (Failed err, w3)
                     | (Inr (Inl _), w3) \<Rightarrow> (Panicked, w3)
                     | (Inr (Inr resp), w3) \<Rightarrow>
                         (if ha_status resp \<noteq> 201 \<and> ha_status resp \<noteq> 202
                          then (Failed (''monolithic upload failed: HTTP '' @ show_int (ha_status resp) @ '', '' @ ha_body resp), w3)
                          else (Done (digest, int (length content)), w3))))))"

section \<open>Chunked upload\<close>

definition patch_accepted :: "int \<Rightarrow> bool" where
  "patch_accepted status \<longleftrightarrow> status = 202 \<or> status = 201 \<or> status = 200"

definition chunk_range :: "nat \<Rightarrow> nat \<Rightarrow> string" where
  "chunk_range start n = show_int (int start) @ ''-'' @ show_int (int start + int n - 1)"

text \<open>The attempts to send one chunk; every return with an error ends the upload.\<close>

fun patch_loop :: "nat \<Rightarrow> network \<Rightarrow> string \<Rightarrow> nat \<Rightarrow> string \<Rightarrow> duration \<Rightarrow> string \<Rightarrow> world
    \<Rightarrow> answer \<times> world" where
  "patch_loop 0 nt url start chunk backoff patch_err w = (Inl (''PATCH failed after retries: '' @ patch_err), w)"
| "patch_loop (Suc n) nt url start chunk backoff patch_err w =
     (case cancelled nt w of
        Some err \<Rightarrow> (Inl err, w)
      | None \<Rightarrow>
          (case get_oci_token nt ''pull,push'' w of
             (Inl err, w1) \<Rightarrow> (Inl (''get token: '' @ err), w1)
           | (Inr token, w1) \<Rightarrow>
               (case exchange nt (upload_request ''PATCH'' url token (chunk_range start (length chunk)) (Some chunk)) w1 of
                  (Inl err, w2) \<Rightarrow>
                    patch_loop n nt url start chunk (if n = 0 then backoff else mul64 backoff 2) err
                      (if n = 0 then w2 else pause backoff w2)
                | (Inr resp, w2) \<Rightarrow>
                    (if patch_accepted (ha_status resp) then (Inr resp, w2)
                     else if ha_status resp < 500
                     then (Inl (''PATCH failed at offset '' @ show_int (int start) @ '': HTTP ''
                             @ show_int (ha_status resp) @ '', '' @ ha_body resp), w2)
                     else patch_loop n nt url start chunk (if n = 0 then backoff else mul64 backoff 2)
                            (''server error HTTP '' @ show_int (ha_status resp) @ '' at offset '' @ show_int (int start))
                            (if n = 0 then w2 else pause backoff w2)))))"

definition next_location :: "resolver \<Rightarrow> world \<Rightarrow> http_answer \<Rightarrow> string \<Rightarrow> string" where
  "next_location resolve w resp url =
     (let loc = ha_header resp ''Location''
      in if loc = [] then url
         else case resolve (tr_registry (w_transport w)) loc of Inr u \<Rightarrow> u | Inl _ \<Rightarrow> url)"

function chunk_loop :: "network \<Rightarrow> resolver \<Rightarrow> string \<Rightarrow> nat \<Rightarrow> string \<Rightarrow> world \<Rightarrow> (string + string) \<times> world" where
  "chunk_loop nt resolve url offset rest w =
     (if rest = [] then (Inr url, w)
      else let chunk = take chunk_size rest
           in case patch_loop 4 nt url offset chunk second [] w of
                (Inl err, w1) \<Rightarrow> (Inl err, w1)
              | (Inr resp, w1) \<Rightarrow>
                  chunk_loop nt resolve (next_location resolve w1 resp url) (offset + length chunk)
                    (drop chunk_size rest) w1)"
  by pat_completeness auto

termination
  by (relation "measure (\<lambda>(nt, resolve, url, offset, rest, w). length rest)") (auto simp: chunk_size_def)

fun commit_loop :: "nat \<Rightarrow> network \<Rightarrow> string \<Rightarrow> duration \<Rightarrow> answer \<Rightarrow> world \<Rightarrow> (string + answer) \<times> world" where
  "commit_loop 0 nt url backoff last_answer w = (Inr last_answer, w)"
| "commit_loop (Suc n) nt url backoff last_answer w =
     (case cancelled nt w of
        Some err \<Rightarrow> (Inl err, w)
      | None \<Rightarrow>
          (case get_oci_token nt ''pull,push'' w of
             (Inl err, w1) \<Rightarrow> (Inl (''refresh token for final PUT: '' @ err), w1)
           | (Inr token, w1) \<Rightarrow>
               (let (a, w2) = exchange nt (upload_request ''PUT'' url token [] None) w1
                in if below_500 a then (Inr a, w2)
                   else commit_loop n nt url (if n = 0 then backoff else mul64 backoff 2) (closed_body a)
                          (if n = 0 then w2 else pause backoff w2))))"

definition commit_url :: "string \<Rightarrow> string \<Rightarrow> string" where
  "commit_url url digest = url @ (if CHR ''?'' \<in> set url then ''&digest='' else ''?digest='') @ digest"

definition upload_chunked ::
  "network \<Rightarrow> resolver \<Rightarrow> string + string \<Rightarrow> string \<Rightarrow> world \<Rightarrow> (string \<times> int) go_outcome \<times> world" where
  "upload_chunked nt resolve fcontent hex w =
     (let digest = ''sha256:'' @ hex in
      case start_session nt resolve ''chunked'' w of
        (Inl err, w1) \<Rightarrow> (Failed err, w1)
      | (Inr url, w1) \<Rightarrow>
          (case fcontent of
             Inl err \<Rightarrow> (Failed err, w1)
           | Inr content \<Rightarrow>
               (case chunk_loop nt resolve url 0 content w1 of
                  (Inl err, w2) \<Rightarrow> (Failed err, w2)
                | (Inr last_url, w2) \<Rightarrow>
                    (case commit_loop 4 nt (commit_url last_url digest) second (Inl []) w2 of
                       (Inl err, w3) \<Rightarrow> (Failed err, w3)
                     | (Inr (Inl _), w3) \<Rightarrow> (Panicked, w3)
                     | (Inr (Inr resp), w3) \<Rightarrow>
                         (if ha_status resp \<noteq> 201 \<and> ha_status resp \<noteq> 202 \<and> ha_status resp \<noteq> 200
                          then (Failed (''final PUT failed: HTTP '' @ show_int (ha_status resp) @ '', '' @ ha_body resp), w3)
                          else (Done (digest, int (length content)), w3))))))"

declare chunk_loop.simps [simp del]

section \<open>The upload of a blob\<close>

text \<open>
  The attempts of one upload; \<open>sz\<close> is the variable \<open>size\<close>, which an attempt that fails sets to 0.
  The session of the i-th attempt is opened after a pause of 10 i seconds.
\<close>

fun upload_attempts ::
  "nat \<Rightarrow> nat \<Rightarrow> network \<Rightarrow> resolver \<Rightarrow> string + string \<Rightarrow> string \<Rightarrow> nat \<Rightarrow> string \<Rightarrow> world
    \<Rightarrow> (string \<times> int) go_outcome \<times> world" where
  "upload_attempts 0 i nt resolve fcontent hex sz last_err w =
     (Failed (''upload failed after 2 retries: '' @ last_err), w)"
| "upload_attempts (Suc n) i nt resolve fcontent hex sz last_err w =
     (let w1 = (if 0 < i then pause (int i * 10 * second) w else w)
      in case (if chunked_threshold < sz then upload_chunked nt resolve fcontent hex w1
               else upload_monolithic nt resolve fcontent hex w1) of
           (Done d, w2) \<Rightarrow> (Done d, w2)
         | (Panicked, w2) \<Rightarrow> (Panicked, w2)
         | (Failed err, w2) \<Rightarrow>
             (if is_upload_session_expired err
              then upload_attempts n (Suc i) nt resolve fcontent hex 0 err w2
              else (Failed err, w2)))"

definition upload_blob ::
  "network \<Rightarrow> resolver \<Rightarrow> string + string \<Rightarrow> string \<Rightarrow> world \<Rightarrow> (string \<times> int) go_outcome \<times> world" where
  "upload_blob nt resolve fcontent hex w =
     (let digest = ''sha256:'' @ hex in
      case fcontent of
        Inl err \<Rightarrow> (Failed (''failed to open blob file: '' @ err), w)
      | Inr content \<Rightarrow>
          (let (head, w1) = transport_request nt ''HEAD'' (''/blobs/'' @ digest) None [] w
           in if (case head of Inr resp \<Rightarrow> ha_status resp = 200 | Inl _ \<Rightarrow> False)
              then (Done (digest, int (length content)), w1)
              else upload_attempts 3 0 nt resolve fcontent hex (length content) [] w1))"

section \<open>Download and deletion\<close>

definition download_blob :: "network \<Rightarrow> string \<Rightarrow> world \<Rightarrow> (string + string) \<times> world" where
  "download_blob nt digest w =
     (case transport_request nt ''GET'' (''/blobs/'' @ digest) None [] w of
        (Inl err, w1) \<Rightarrow> (Inl err, w1)
      | (Inr resp, w1) \<Rightarrow>
          (if ha_status resp \<noteq> 200
           then (Inl (''blob '' @ digest @ '' not found: HTTP '' @ show_int (ha_status resp)), w1)
           else (Inr (ha_body resp), w1)))"

definition delete_blob :: "network \<Rightarrow> string \<Rightarrow> world \<Rightarrow> string option \<times> world" where
  "delete_blob nt digest w =
     (case transport_request nt ''DELETE'' (''/blobs/'' @ digest) None [] w of
        (Inl err, w1) \<Rightarrow> (Some err, w1)
      | (Inr resp, w1) \<Rightarrow>
          (if ha_status resp \<noteq> 200 \<and> ha_status resp \<noteq> 202 \<and> ha_status resp \<noteq> 404
           then (Some (''failed to delete blob '' @ digest @ '' (HTTP '' @ show_int (ha_status resp) @ ''): '' @ ha_body resp), w1)
           else (None, w1)))"

end
