(* ===== verification/Oci_Index.thy ===== *)
theory Oci_Index
  imports Domain_Types
begin

text \<open>
  The cache index of \<open>pkg/oci/index.go\<close>: its records, \<open>NewIndex\<close>, the migration \<open>Upgrade\<close>
  from version 1, \<open>AddEntry\<close>, \<open>PinRoot\<close> and the References line of a narinfo. The mutex makes
  \<open>AddEntry\<close> and \<open>PinRoot\<close> atomic, which a function on the state is.
\<close>

section \<open>Data\<close>

record gc_root =
  rt_pinned_at :: time
  rt_ttl :: int

record index_item =
  it_name :: string
  it_narinfo :: string
  it_nar_digest :: string
  it_nar_size :: int
  it_added :: time
  it_last_used :: time
  it_uploaded_at :: time
  it_references :: "string list"
  it_source :: string

record cache_index =
  ix_version :: int
  ix_repo :: string
  ix_registry :: string
  ix_image :: string
  ix_generated :: time
  ix_public_key :: string
  ix_gc_roots_v1 :: "string list"
  ix_roots :: "gc_root gomap"
  ix_entries :: "index_item gomap"
  ix_source :: string

abbreviation entries_of :: "cache_index \<Rightarrow> (string, index_item) fmap" where
  "entries_of idx \<equiv> gm_fm (ix_entries idx)"

abbreviation roots_of :: "cache_index \<Rightarrow> (string, gc_root) fmap" where
  "roots_of idx \<equiv> gm_fm (ix_roots idx)"

section \<open>Operations\<close>

definition new_index :: "string \<Rightarrow> string \<Rightarrow> time \<Rightarrow> cache_index" where
  "new_index registry repo now =
     \<lparr>ix_version = 2, ix_repo = repo, ix_registry = registry,
      ix_image = registry @ ''/'' @ repo @ ''/nix-cache'',
      ix_generated = now, ix_public_key = [], ix_gc_roots_v1 = [],
      ix_roots = gm_make, ix_entries = gm_make, ix_source = []\<rparr>"

definition references_key :: string where "references_key = ''References: ''"

definition parse_references :: "string \<Rightarrow> string list" where
  "parse_references narinfo =
     (case find (\<lambda>line. has_prefix line references_key) (split_on (CHR 0x0A) narinfo) of
        None \<Rightarrow> []
      | Some line \<Rightarrow> map (\<lambda>f. store_prefix @ f) (str_fields (trim_prefix line references_key)))"

text \<open>
  The loop over the version-1 root list. The i-th root that is added reads the clock for the
  i-th time.
\<close>

fun migrate_roots :: "(nat \<Rightarrow> time) \<Rightarrow> nat \<Rightarrow> string list \<Rightarrow> (string, gc_root) fmap \<Rightarrow> (string, gc_root) fmap" where
  "migrate_roots clk i [] m = m"
| "migrate_roots clk i (r # rs) m =
     (if fmlookup m r \<noteq> None then migrate_roots clk i rs m
      else migrate_roots clk (Suc i) rs (fmupd r \<lparr>rt_pinned_at = clk i, rt_ttl = 0\<rparr> m))"

text \<open>One iteration of the loop over the entries, which writes back to its own key only.\<close>

definition backfill_last_used :: "index_item \<Rightarrow> index_item" where
  "backfill_last_used e = (if is_zero (it_last_used e) then e\<lparr>it_last_used := it_added e\<rparr> else e)"

definition backfill_uploaded :: "index_item \<Rightarrow> index_item" where
  "backfill_uploaded e = (if is_zero (it_uploaded_at e) then e\<lparr>it_uploaded_at := it_added e\<rparr> else e)"

definition backfill_references :: "index_item \<Rightarrow> index_item" where
  "backfill_references e =
     (if it_references e = [] \<and> it_narinfo e \<noteq> []
      then e\<lparr>it_references := parse_references (it_narinfo e)\<rparr> else e)"

definition backfill_item :: "index_item \<Rightarrow> index_item" where
  "backfill_item e = backfill_references (backfill_uploaded (backfill_last_used e))"

definition upgrade :: "(nat \<Rightarrow> time) \<Rightarrow> cache_index \<Rightarrow> cache_index" where
  "upgrade clk idx =
     (let roots = (case ix_roots idx of None \<Rightarrow> fmempty | Some m \<Rightarrow> m)
      in idx\<lparr>ix_version := (if ix_version idx < 2 then 2 else ix_version idx),
             ix_roots := Some (migrate_roots clk 0 (ix_gc_roots_v1 idx) roots),
             ix_gc_roots_v1 := [],
             ix_entries := map_option (fmmap backfill_item) (ix_entries idx)\<rparr>)"

definition new_item :: "string \<Rightarrow> string \<Rightarrow> string \<Rightarrow> int \<Rightarrow> string list \<Rightarrow> time \<Rightarrow> index_item" where
  "new_item name narinfo digest sz refs now =
     \<lparr>it_name = name, it_narinfo = narinfo, it_nar_digest = bare_hex digest, it_nar_size = sz,
      it_added = now, it_last_used = now, it_uploaded_at = now, it_references = refs,
      it_source = []\<rparr>"

text \<open>None is the panic of the assignment to a nil map.\<close>

definition add_entry ::
  "string \<Rightarrow> string \<Rightarrow> string \<Rightarrow> string \<Rightarrow> int \<Rightarrow> string list \<Rightarrow> time \<Rightarrow> cache_index \<Rightarrow> cache_index option" where
  "add_entry hash name narinfo digest sz refs now idx =
     map_option (\<lambda>es. idx\<lparr>ix_entries := es, ix_generated := now\<rparr>)
       (gm_set (ix_entries idx) hash (new_item name narinfo digest sz refs now))"

definition pin_root :: "string \<Rightarrow> int \<Rightarrow> time \<Rightarrow> cache_index \<Rightarrow> cache_index" where
  "pin_root hash ttl now idx =
     (let roots = (case ix_roots idx of None \<Rightarrow> fmempty | Some m \<Rightarrow> m)
      in idx\<lparr>ix_roots := Some (fmupd hash \<lparr>rt_pinned_at = now, rt_ttl = ttl\<rparr> roots)\<rparr>)"

text \<open>What is left of an index in its JSON: \<open>omitempty\<close> leaves out a map of roots without a root, which is
  read back as nil. The other fields marked so are a list and a string, whose absence is read as the
  empty one.\<close>

definition json_image :: "cache_index \<Rightarrow> cache_index" where
  "json_image idx = idx\<lparr>ix_roots := (if gm_keys (ix_roots idx) = {} then None else ix_roots idx)\<rparr>"

section \<open>Migration\<close>

text \<open>What every reader of an index relies on after \<open>Upgrade\<close>.\<close>

definition index_ready :: "cache_index \<Rightarrow> bool" where
  "index_ready idx \<longleftrightarrow> 2 \<le> ix_version idx \<and> ix_roots idx \<noteq> None \<and> ix_gc_roots_v1 idx = []"

lemma new_index_ready: "index_ready (new_index registry repo now)"
  by (simp add: index_ready_def new_index_def gm_make_def)

lemma upgrade_ready: "index_ready (upgrade clk idx)"
  by (simp add: index_ready_def upgrade_def Let_def)

lemma migrate_roots_old: "fmlookup m k = Some v \<Longrightarrow> fmlookup (migrate_roots clk i rs m) k = Some v"
proof (induction rs arbitrary: i m)
  case (Cons r rs)
  then show ?case by (cases "k = r") auto
qed simp

lemma migrate_roots_other: "k \<notin> set rs \<Longrightarrow> fmlookup (migrate_roots clk i rs m) k = fmlookup m k"
  by (induction rs arbitrary: i m) auto

lemma migrate_roots_new:
  "k \<in> set rs \<Longrightarrow> fmlookup m k = None \<Longrightarrow>
    \<exists>t. fmlookup (migrate_roots clk i rs m) k = Some \<lparr>rt_pinned_at = t, rt_ttl = 0\<rparr>"
proof (induction rs arbitrary: i m)
  case Nil
  then show ?case by simp
next
  case (Cons r rs)
  show ?case
  proof (cases "k = r")
    case True
    with Cons.prems have "fmlookup (fmupd r \<lparr>rt_pinned_at = clk i, rt_ttl = 0\<rparr> m) k
        = Some \<lparr>rt_pinned_at = clk i, rt_ttl = 0\<rparr>" by simp
    with True Cons.prems show ?thesis by (simp add: migrate_roots_old)
  next
    case False
    with Cons show ?thesis by auto
  qed
qed

lemmas backfill_defs =
  backfill_last_used_def backfill_uploaded_def backfill_references_def backfill_item_def

lemma backfill_fields:
  "it_last_used (backfill_item e) = (if is_zero (it_last_used e) then it_added e else it_last_used e)"
  "it_uploaded_at (backfill_item e) = (if is_zero (it_uploaded_at e) then it_added e else it_uploaded_at e)"
  "it_references (backfill_item e) = (if it_references e = [] \<and> it_narinfo e \<noteq> []
     then parse_references (it_narinfo e) else it_references e)"
  by (auto simp: backfill_defs)

lemma backfill_item_keeps [simp]:
  "it_name (backfill_item e) = it_name e" "it_narinfo (backfill_item e) = it_narinfo e"
  "it_nar_digest (backfill_item e) = it_nar_digest e"
  "it_nar_size (backfill_item e) = it_nar_size e" "it_added (backfill_item e) = it_added e"
  "it_source (backfill_item e) = it_source e"
  by (simp_all add: backfill_defs)

lemma backfill_item_idem: "backfill_item (backfill_item e) = backfill_item e"
  by (rule index_item.equality) (auto simp: backfill_fields)

lemma upgrade_get_entry:
  "gm_get (ix_entries (upgrade clk idx)) k = map_option backfill_item (gm_get (ix_entries idx) k)"
  by (cases "ix_entries idx") (simp_all add: upgrade_def Let_def gm_get_def)

lemma upgrade_idem: "upgrade clk' (upgrade clk idx) = upgrade clk idx"
proof -
  have "fmmap backfill_item (fmmap backfill_item m) = fmmap backfill_item m" for m :: "(string, index_item) fmap"
    by (rule fmap_ext) (auto simp: option.map_comp o_def backfill_item_idem)
  then show ?thesis
    by (cases "ix_entries idx") (simp_all add: upgrade_def Let_def)
qed

text \<open>The migration makes up for the roots that were left out.\<close>

lemma upgrade_json_image: "upgrade clk (json_image idx) = upgrade clk idx"
proof (cases "gm_keys (ix_roots idx) = {}")
  case True
  then have "roots_of idx = fmempty"
    by (intro fmap_ext) (metis empty_iff fmempty_lookup gm_get_def gm_keys_iff)
  then have "(case ix_roots idx of None \<Rightarrow> fmempty | Some m \<Rightarrow> m) = fmempty" by (cases "ix_roots idx") simp_all
  with True show ?thesis by (simp add: upgrade_def json_image_def)
qed (simp add: json_image_def)

section \<open>Entries\<close>

lemma add_entry_get:
  assumes "add_entry h name narinfo d sz refs now idx = Some idx'"
  shows "gm_get (ix_entries idx') k =
    (if k = h then Some (new_item name narinfo d sz refs now) else gm_get (ix_entries idx) k)"
  using assms by (auto simp: add_entry_def gm_get_set)

lemma add_entry_frame:
  assumes "add_entry h name narinfo d sz refs now idx = Some idx'"
  shows "ix_roots idx' = ix_roots idx" "ix_version idx' = ix_version idx"
    "ix_gc_roots_v1 idx' = ix_gc_roots_v1 idx" "ix_entries idx' \<noteq> None"
  using assms by (auto simp: add_entry_def gm_set_def split: option.splits)

lemma add_entry_panics_iff: "add_entry h name narinfo d sz refs now idx = None \<longleftrightarrow> ix_entries idx = None"
  by (auto simp: add_entry_def gm_set_def split: option.splits)

lemma pin_root_get:
  "gm_get (ix_roots (pin_root h ttl now idx)) k =
    (if k = h then Some \<lparr>rt_pinned_at = now, rt_ttl = ttl\<rparr> else gm_get (ix_roots idx) k)"
  by (cases "ix_roots idx") (simp_all add: pin_root_def Let_def gm_get_def)

lemma pin_root_frame: "ix_entries (pin_root h ttl now idx) = ix_entries idx"
  by (simp add: pin_root_def Let_def)

lemma pin_root_ready: "index_ready idx \<Longrightarrow> index_ready (pin_root h ttl now idx)"
  by (simp add: index_ready_def pin_root_def Let_def)

section \<open>References\<close>

lemma parse_references_line:
  assumes "\<forall>l \<in> set pre. \<not> has_prefix l references_key \<and> CHR 0x0A \<notin> set l"
    and "\<forall>w \<in> set ws. w \<noteq> [] \<and> set w \<inter> set space_edge = {}"
    and "\<forall>l \<in> set post. CHR 0x0A \<notin> set l"
  shows "parse_references (join [CHR 0x0A] (pre @ (references_key @ join '' '' ws) # post) @ [CHR 0x0A])
    = map (\<lambda>w. store_prefix @ w) ws"
proof -
  have nl: "CHR 0x0A \<in> set space_edge" by (simp add: space_edge_def space_runes_def)
  have jn: "CHR 0x0A \<notin> set (join '' '' ws)" using assms(2)
  proof (induction ws)
    case (Cons w ws)
    with nl show ?case by (cases ws) auto
  qed simp
  have rk: "CHR 0x0A \<notin> set references_key" by (simp add: references_key_def)
  let ?ls = "pre @ (references_key @ join '' '' ws) # post"
  have "CHR 0x0A \<notin> set l" if "l \<in> set ?ls" for l
    using that assms(1,3) jn rk by auto
  then have sp: "split_on (CHR 0x0A) (join [CHR 0x0A] ?ls @ [CHR 0x0A]) = ?ls @ [[]]"
    by (intro split_join_terminated) auto
  have "find (\<lambda>l. has_prefix l references_key) (?ls @ [[]]) = Some (references_key @ join '' '' ws)"
    using assms(1) by (induction pre) auto
  then show ?thesis
    using assms(2) by (simp add: parse_references_def sp str_fields_join)
qed

lemma parse_references_none:
  assumes "\<forall>l \<in> set ls. \<not> has_prefix l references_key \<and> CHR 0x0A \<notin> set l" "ls \<noteq> []"
  shows "parse_references (join [CHR 0x0A] ls @ [CHR 0x0A]) = []"
proof -
  have "split_on (CHR 0x0A) (join [CHR 0x0A] ls @ [CHR 0x0A]) = ls @ [[]]"
    using assms by (intro split_join_terminated) auto
  moreover have "find (\<lambda>l. has_prefix l references_key) (ls @ [[]]) = None"
    using assms(1) by (auto simp: find_None_iff references_key_def)
  ultimately show ?thesis by (simp add: parse_references_def)
qed

section \<open>Properties\<close>

text \<open>\<open>Upgrade\<close> is idempotent, at whatever times it runs: a client that upgrades an index
  already upgraded and pushed by another client changes nothing in it.\<close>

lemma upgrade_idempotent: "upgrade clk' (upgrade clk idx) = upgrade clk idx"
  by (rule upgrade_idem)

text \<open>the migration keeps every version-2 root as it is, turns every version-1 root without a
  version-2 entry into a permanent root (TTL 0), and invents no other root.\<close>

lemma upgrade_migrates_roots:
  "(gm_get (ix_roots idx) k = Some r \<longrightarrow> gm_get (ix_roots (upgrade clk idx)) k = Some r)
   \<and> (gm_get (ix_roots idx) k = None \<longrightarrow>
        (if k \<in> set (ix_gc_roots_v1 idx)
         then \<exists>t. gm_get (ix_roots (upgrade clk idx)) k = Some \<lparr>rt_pinned_at = t, rt_ttl = 0\<rparr>
         else gm_get (ix_roots (upgrade clk idx)) k = None))"
proof -
  have "gm_get (ix_roots (upgrade clk idx)) k
      = fmlookup (migrate_roots clk 0 (ix_gc_roots_v1 idx) (roots_of idx)) k"
    by (simp add: upgrade_def Let_def gm_fm_def)
  then show ?thesis
    using migrate_roots_old [of "roots_of idx" k] migrate_roots_new [of k _ "roots_of idx"]
      migrate_roots_other [of k "ix_gc_roots_v1 idx"]
    by (simp add: gm_get_def)
qed

end
