(* ===== verification/Oci_Manifest.thy ===== *)
theory Oci_Manifest
  imports Oci_Blob Oci_Index
begin

text \<open>
  Manifests, the index behind its manifest, and the list of tags (\<open>pkg/oci/manifest.go\<close>,
  \<open>spec.go\<close>). The JSON and compression codecs, SHA-256 and the parser of URLs are arguments; the
  temporary file an index goes through is its content.
\<close>

section \<open>Data and codecs\<close>

record descriptor =
  ds_media :: string
  ds_digest :: string
  ds_size :: int

record oci_manifest =
  mf_schema :: int
  mf_media :: string
  mf_artifact :: string
  mf_config :: descriptor
  mf_layers :: "descriptor list"
  mf_annotations :: "string gomap"

record codecs =
  cd_put_manifest :: "oci_manifest \<Rightarrow> string"
  cd_get_manifest :: "string \<Rightarrow> string + oci_manifest"
  cd_put_index :: "cache_index \<Rightarrow> string"
  cd_get_index :: "string \<Rightarrow> string + cache_index"
  cd_get_tags :: "string \<Rightarrow> string + string list"
  cd_zstd :: "string \<Rightarrow> string"
  cd_unzstd :: "string \<Rightarrow> string + string"
  cd_gunzip :: "string \<Rightarrow> string + string"
  cd_sha256 :: "string \<Rightarrow> string"
  cd_rfc3339 :: "time \<Rightarrow> string"
  cd_url_parts :: "string \<Rightarrow> (string \<times> string) option"
  cd_resolve :: resolver

definition media_manifest :: string where
  "media_manifest = ''application/vnd.oci.image.manifest.v1+json''"

definition default_empty_config :: descriptor where
  "default_empty_config =
     \<lparr>ds_media = ''application/vnd.oci.empty.v1+json'',
      ds_digest = ''sha256:44136fa355b3678a1146ad16f7e8649e94fb4fc21fe77e8310c060f61caaff8a'', ds_size = 2\<rparr>"

definition annotation :: "oci_manifest \<Rightarrow> string \<Rightarrow> string" where
  "annotation m k = (case gm_get (mf_annotations m) k of None \<Rightarrow> [] | Some v \<Rightarrow> v)"

section \<open>Manifests\<close>

definition fetch_manifest :: "network \<Rightarrow> codecs \<Rightarrow> string \<Rightarrow> world \<Rightarrow> (string + oci_manifest) \<times> world" where
  "fetch_manifest nt cd tag w =
     (case transport_request nt ''GET'' (''/manifests/'' @ tag) None media_manifest w of
        (Inl err, w1) \<Rightarrow> (Inl err, w1)
      | (Inr resp, w1) \<Rightarrow>
          (if ha_status resp \<noteq> 200
           then (Inl (''manifest '' @ tag @ '' not found: HTTP '' @ show_int (ha_status resp)), w1)
           else (cd_get_manifest cd (ha_body resp), w1)))"

definition push_manifest :: "network \<Rightarrow> codecs \<Rightarrow> string \<Rightarrow> oci_manifest \<Rightarrow> world \<Rightarrow> string option \<times> world" where
  "push_manifest nt cd tag m w =
     (case transport_request nt ''PUT'' (''/manifests/'' @ tag) (Some (cd_put_manifest cd m)) media_manifest w of
        (Inl err, w1) \<Rightarrow> (Some err, w1)
      | (Inr resp, w1) \<Rightarrow>
          (if ha_status resp \<noteq> 200 \<and> ha_status resp \<noteq> 201
           then (Some (''failed to upload manifest: HTTP '' @ show_int (ha_status resp) @ '', '' @ ha_body resp), w1)
           else (None, w1)))"

definition manifest_exists :: "network \<Rightarrow> string \<Rightarrow> world \<Rightarrow> (bool \<times> string) \<times> world" where
  "manifest_exists nt tag w =
     (case transport_request nt ''HEAD'' (''/manifests/'' @ tag) None media_manifest w of
        (Inl err, w1) \<Rightarrow> ((False, []), w1)
      | (Inr resp, w1) \<Rightarrow>
          (if ha_status resp = 200 then ((True, ha_header resp ''Docker-Content-Digest''), w1)
           else ((False, []), w1)))"

definition evicted_manifest :: oci_manifest where
  "evicted_manifest =
     \<lparr>mf_schema = 2, mf_media = media_manifest, mf_artifact = [], mf_config = default_empty_config,
      mf_layers = [], mf_annotations = Some (fmap_of_list [(''org.nix.evicted'', ''true'')])\<rparr>"

definition fallback_untag :: "network \<Rightarrow> codecs \<Rightarrow> string \<Rightarrow> world \<Rightarrow> string option \<times> world" where
  "fallback_untag nt cd tag w = push_manifest nt cd tag evicted_manifest w"

definition delete_manifest :: "network \<Rightarrow> codecs \<Rightarrow> string \<Rightarrow> world \<Rightarrow> string option \<times> world" where
  "delete_manifest nt cd tag w =
     (case transport_request nt ''DELETE'' (''/manifests/'' @ tag) None [] w of
        (Inl err, w1) \<Rightarrow> (Some err, w1)
      | (Inr resp, w1) \<Rightarrow>
          (if ha_status resp \<in> {200, 202, 404} then (None, w1)
           else if ha_status resp \<in> {405, 403, 401} then fallback_untag nt cd tag w1
           else (Some (''delete manifest failed: HTTP '' @ show_int (ha_status resp)), w1)))"

datatype repair_error = ManifestUnavailable string | NoAnnotations | NoLayers | BadHash type_error | BadDigest type_error

definition repair_index_entry ::
  "network \<Rightarrow> codecs \<Rightarrow> string \<Rightarrow> cache_index \<Rightarrow> world \<Rightarrow> (repair_error + cache_index option) \<times> world" where
  "repair_index_entry nt cd hash index w =
     (case fetch_manifest nt cd hash w of
        (Inl err, w1) \<Rightarrow> (Inl (ManifestUnavailable err), w1)
      | (Inr m, w1) \<Rightarrow>
          (if mf_annotations m = None then (Inl NoAnnotations, w1)
           else let refs_str = annotation m ''org.nix.references'';
                    refs = (if refs_str \<noteq> [] then split_on (CHR '','') refs_str else [])
                in case mf_layers m of
                     [] \<Rightarrow> (Inl NoLayers, w1)
                   | layer # _ \<Rightarrow>
                       (case parse_nix_hash hash of
                          Inl e \<Rightarrow> (Inl (BadHash e), w1)
                        | Inr nix_hash \<Rightarrow>
                            (case parse_oci_digest (ds_digest layer) of
                               Inl e \<Rightarrow> (Inl (BadDigest e), w1)
                             | Inr digest \<Rightarrow>
                                 (let (now, w2) = read_clock nt w1
                                  in (Inr (add_entry nix_hash (annotation m ''org.nix.name'')
                                        (annotation m ''org.nix.narinfo'') digest (ds_size layer) refs now index), w2))))))"

definition get_blob_redirect_url :: "network \<Rightarrow> string \<Rightarrow> world \<Rightarrow> (string + string) \<times> world" where
  "get_blob_redirect_url nt digest w =
     (case transport_request nt ''GET'' (''/blobs/'' @ digest) None [] w of
        (Inl err, w1) \<Rightarrow> (Inl err, w1)
      | (Inr resp, w1) \<Rightarrow>
          (if ha_status resp = 307 \<or> ha_status resp = 302 then (Inr (ha_header resp ''Location''), w1)
           else (Inl (''redirect failed: HTTP '' @ show_int (ha_status resp)), w1)))"

section \<open>The index\<close>

definition zstd_magic :: string where "zstd_magic = [CHR 0x28, CHR 0xB5, CHR 0x2F, CHR 0xFD]"
definition gzip_magic :: string where "gzip_magic = [CHR 0x1F, CHR 0x8B]"

definition decompress :: "codecs \<Rightarrow> string \<Rightarrow> string + string" where
  "decompress cd data =
     (if has_prefix data zstd_magic
      then (case cd_unzstd cd data of Inl err \<Rightarrow> Inl (''failed to decompress zstd index: '' @ err) | Inr d \<Rightarrow> Inr d)
      else if has_prefix data gzip_magic
      then (case cd_gunzip cd data of Inl err \<Rightarrow> Inl (''failed to decompress gzip index: '' @ err) | Inr d \<Rightarrow> Inr d)
      else Inr data)"

text \<open>\<open>Upgrade\<close> reads the clock for a root of version 1 it adds. The readings are numbered by the place of
  the root in the list; the number of one that is there already is not used.\<close>

definition upgrade_now :: "network \<Rightarrow> cache_index \<Rightarrow> world \<Rightarrow> cache_index \<times> world" where
  "upgrade_now nt idx w =
     (upgrade (\<lambda>i. nt_clock nt (w_ticks w + i)) idx, w\<lparr>w_ticks := w_ticks w + length (ix_gc_roots_v1 idx)\<rparr>)"

definition fresh_index :: "network \<Rightarrow> world \<Rightarrow> cache_index \<times> world" where
  "fresh_index nt w =
     (let (now, w1) = read_clock nt w
      in (new_index (tr_registry (w_transport w)) (tr_repo (w_transport w)) now, w1))"

definition decode_index :: "network \<Rightarrow> codecs \<Rightarrow> string \<Rightarrow> world \<Rightarrow> (string + cache_index) \<times> world" where
  "decode_index nt cd data w =
     (case decompress cd data of
        Inl err \<Rightarrow> (Inl err, w)
      | Inr text \<Rightarrow>
          (case cd_get_index cd text of
             Inl err \<Rightarrow> (Inl err, w)
           | Inr idx \<Rightarrow> (let (idx', w1) = upgrade_now nt idx w in (Inr idx', w1))))"

definition fetch_index :: "network \<Rightarrow> codecs \<Rightarrow> world \<Rightarrow> (string + cache_index) \<times> world" where
  "fetch_index nt cd w =
     (case fetch_manifest nt cd ''noci-index'' w of
        (Inl err, w1) \<Rightarrow>
          (if str_contains err ''HTTP 404'' then (let (idx, w2) = fresh_index nt w1 in (Inr idx, w2))
           else (Inl err, w1))
      | (Inr m, w1) \<Rightarrow>
          (case mf_layers m of
             [] \<Rightarrow> (let (idx, w2) = fresh_index nt w1 in (Inr idx, w2))
           | layer # _ \<Rightarrow>
               (case download_blob nt (ds_digest layer) w1 of
                  (Inl err, w2) \<Rightarrow> (Inl err, w2)
                | (Inr data, w2) \<Rightarrow> decode_index nt cd data w2)))"

definition index_manifest :: "string \<Rightarrow> int \<Rightarrow> string \<Rightarrow> oci_manifest" where
  "index_manifest digest sz generated_at =
     \<lparr>mf_schema = 2, mf_media = media_manifest, mf_artifact = [], mf_config = default_empty_config,
      mf_layers = [\<lparr>ds_media = ''application/vnd.noci.index.layer.v1+zstd'', ds_digest = digest, ds_size = sz\<rparr>],
      mf_annotations = Some (fmap_of_list [(''org.nix.index.generated_at'', generated_at)])\<rparr>"

definition push_index :: "network \<Rightarrow> codecs \<Rightarrow> cache_index \<Rightarrow> world \<Rightarrow> cache_index go_outcome \<times> world" where
  "push_index nt cd idx w =
     (let (now, w1) = read_clock nt w;
          idx' = idx\<lparr>ix_generated := now\<rparr>;
          compressed = cd_zstd cd (cd_put_index cd idx')
      in case upload_blob nt (cd_resolve cd) (Inr compressed) (cd_sha256 cd compressed) w1 of
           (Failed err, w2) \<Rightarrow> (Failed err, w2)
         | (Panicked, w2) \<Rightarrow> (Panicked, w2)
         | (Done (digest, sz), w2) \<Rightarrow>
             (let (now2, w3) = read_clock nt w2
              in case push_manifest nt cd ''noci-index''
                        (index_manifest digest (int (length compressed)) (cd_rfc3339 cd now2)) w3 of
                   (Some err, w4) \<Rightarrow> (Failed err, w4)
                 | (None, w4) \<Rightarrow> (Done idx', w4)))"

section \<open>Tags\<close>

text \<open>The shortest suffix that starts with \<open>p\<close>: what \<open>strings.LastIndex\<close> finds.\<close>

fun from_last :: "string \<Rightarrow> string \<Rightarrow> string option" where
  "from_last p [] = (if p = [] then Some [] else None)"
| "from_last p (c # s) =
     (case from_last p s of
        Some t \<Rightarrow> Some t
      | None \<Rightarrow> if has_prefix (c # s) p then Some (c # s) else None)"

text \<open>What stands between the first \<open><\<close> and the first \<open>></\<close>, if they come in this order.\<close>

definition bracketed :: "string \<Rightarrow> string option" where
  "bracketed part =
     (let before = takeWhile (\<lambda>c. c \<noteq> CHR ''<'') part; upto = takeWhile (\<lambda>c. c \<noteq> CHR ''>'') part
      in if CHR ''<'' \<notin> set part \<or> CHR ''>'' \<notin> set part \<or> length upto \<le> length before then None
         else Some (drop (Suc (length before)) upto))"

fun next_of_parts :: "codecs \<Rightarrow> string list \<Rightarrow> string" where
  "next_of_parts cd [] = []"
| "next_of_parts cd (part # parts) =
     (let p = trim_space part
      in if \<not> str_contains p ''rel=\"next\"'' then next_of_parts cd parts
         else case bracketed p of
                None \<Rightarrow> next_of_parts cd parts
              | Some raw \<Rightarrow>
                  (case cd_url_parts cd raw of
                     None \<Rightarrow> next_of_parts cd parts
                   | Some (path, query) \<Rightarrow>
                       (let path' = (case from_last ''/tags/list'' path of Some t \<Rightarrow> t | None \<Rightarrow> path)
                        in if query \<noteq> [] then path' @ ''?'' @ query else path')))"

definition parse_next_link :: "codecs \<Rightarrow> string \<Rightarrow> string" where
  "parse_next_link cd link = next_of_parts cd (split_on (CHR '','') link)"

text \<open>One page: an error, or the tags and the path of the next page.\<close>

definition tags_page :: "network \<Rightarrow> codecs \<Rightarrow> string \<Rightarrow> world \<Rightarrow> (string + string list \<times> string option) \<times> world" where
  "tags_page nt cd path w =
     (case transport_request nt ''GET'' path None [] w of
        (Inl err, w1) \<Rightarrow> (Inl err, w1)
      | (Inr resp, w1) \<Rightarrow>
          (if ha_status resp \<noteq> 200 then (Inl (''failed to list tags: HTTP '' @ show_int (ha_status resp)), w1)
           else case cd_get_tags cd (ha_body resp) of
                  Inl err \<Rightarrow> (Inl err, w1)
                | Inr tags \<Rightarrow>
                    (let link = ha_header resp ''Link''; next_path = parse_next_link cd link
                     in if link = [] \<or> next_path = [] then (Inr (tags, None), w1)
                        else (Inr (tags, Some (if has_prefix next_path ''/'' then next_path else ''/'' @ next_path)), w1))))"

text \<open>The loop over the pages need not end: None is not returning.\<close>

partial_function (option) tags_from ::
  "network \<Rightarrow> codecs \<Rightarrow> string \<Rightarrow> string list \<Rightarrow> world \<Rightarrow> ((string + string list) \<times> world) option" where
  "tags_from nt cd path acc w =
     (case tags_page nt cd path w of
        (Inl err, w1) \<Rightarrow> Some (Inl err, w1)
      | (Inr (tags, None), w1) \<Rightarrow> Some (Inr (acc @ tags), w1)
      | (Inr (tags, Some next_path), w1) \<Rightarrow> tags_from nt cd next_path (acc @ tags) w1)"

definition list_tags :: "network \<Rightarrow> codecs \<Rightarrow> world \<Rightarrow> ((string + string list) \<times> world) option" where
  "list_tags nt cd w = tags_from nt cd ''/tags/list'' [] w"

end
