(* ===== verification/Nix_Base32.thy ===== *)
theory Nix_Base32
  imports Go_Strings "HOL-Library.Word"
begin

text \<open>
  The base-32 encoding of Nix hashes, \<open>encodeNixBase32\<close> of \<open>pkg/nix/sign.go\<close>, on bytes at their
  width of 8 bits, against the reference: the base-32 digits, most significant first, of the number
  whose little-endian bytes are the input.
\<close>

unbundle bit_operations_syntax

section \<open>The encoder\<close>

definition base32_alphabet :: string where
  "base32_alphabet = ''0123456789abcdfghijklmnpqrsvwxyz''"

definition base32_length :: "nat \<Rightarrow> nat" where
  "base32_length n = (n * 8 + 4) div 5"

text \<open>The body of the loop: the five bits from position \<open>i * 5\<close>, which may straddle two bytes.\<close>

definition base32_val :: "8 word list \<Rightarrow> nat \<Rightarrow> 8 word" where
  "base32_val b i =
     (let bnum = i * 5; c = bnum div 8; r = bnum mod 8;
          v = (if c < length b then drop_bit r (b ! c) else 0)
      in if 3 < r \<and> c + 1 < length b then v OR push_bit (8 - r) (b ! (c + 1)) else v)"

definition base32_char :: "8 word list \<Rightarrow> nat \<Rightarrow> char" where
  "base32_char b i = base32_alphabet ! unat (base32_val b i AND 0x1F)"

definition encode_nix_base32 :: "8 word list \<Rightarrow> string" where
  "encode_nix_base32 b = rev (map (base32_char b) [0..<base32_length (length b)])"

section \<open>The number and its digits\<close>

fun le_value :: "8 word list \<Rightarrow> nat" where
  "le_value [] = 0"
| "le_value (b # bs) = unat b + 256 * le_value bs"

lemma bit_byte: "bit (unat (b :: 8 word)) k \<longleftrightarrow> k < 8 \<and> bit b k"
  by (auto simp: bit_unsigned_iff dest: bit_imp_le_length)

lemma bit_byte_high: "8 \<le> k \<Longrightarrow> \<not> bit (b :: 8 word) k"
  by (auto dest: bit_imp_le_length)

lemma le_value_step: "le_value (b # bs) = unat b OR push_bit 8 (le_value bs)"
proof -
  have "unat b AND push_bit 8 (le_value bs) = 0"
    by (rule bit_eqI) (auto simp: bit_and_iff bit_push_bit_iff bit_byte simp del: bit_unsigned_iff)
  then have "unat b + push_bit 8 (le_value bs) = unat b OR push_bit 8 (le_value bs)"
    by (rule disjunctive_add_eq_or)
  then show ?thesis by (simp add: push_bit_eq_mult)
qed

lemma bit_le_value: "bit (le_value bs) k \<longleftrightarrow> k div 8 < length bs \<and> bit (bs ! (k div 8)) (k mod 8)"
proof (induction bs arbitrary: k)
  case (Cons b bs)
  show ?case
  proof (cases "k < 8")
    case True
    then show ?thesis by (simp only: le_value_step bit_or_iff bit_push_bit_iff bit_byte) simp
  next
    case False
    then have "k div 8 = Suc ((k - 8) div 8)" "k mod 8 = (k - 8) mod 8"
      by (simp_all add: le_div_geq le_mod_geq)
    with False Cons show ?thesis
      by (simp only: le_value_step bit_or_iff bit_push_bit_iff bit_byte) simp
  qed
qed simp

lemma bit_base32_val:
  assumes "n < 5"
  shows "bit (base32_val b i) n \<longleftrightarrow> bit (le_value b) (i * 5 + n)"
proof -
  define c r where "c = i * 5 div 8" and "r = i * 5 mod 8"
  have split: "i * 5 = 8 * c + r" "r < 8" by (simp_all add: c_def r_def)
  have val: "base32_val b i =
      (let v = (if c < length b then drop_bit r (b ! c) else 0)
       in if 3 < r \<and> c + 1 < length b then v OR push_bit (8 - r) (b ! (c + 1)) else v)"
    unfolding base32_val_def Let_def c_def r_def ..
  show ?thesis
  proof (cases "r + n < 8")
    case True
    then have "(i * 5 + n) div 8 = c" "(i * 5 + n) mod 8 = r + n"
      using split by (simp_all add: add.assoc)
    with True assms show ?thesis
      unfolding val bit_le_value by (auto simp: Let_def bit_simps dest: bit_imp_le_length)
  next
    case False
    then have *: "(i * 5 + n) div 8 = c + 1" "(i * 5 + n) mod 8 = r + n - 8" "3 < r"
      using split assms by (simp_all add: div_nat_eqI mod_nat_eqI)
    have "\<not> bit (b ! c) (r + n)"
      using False bit_byte_high by simp
    with False assms * split show ?thesis
      unfolding val bit_le_value by (auto simp: Let_def bit_simps add.commute [of n r] dest: bit_imp_le_length)
  qed
qed

lemma base32_digit: "unat (base32_val b i AND 0x1F) = le_value b div 32 ^ i mod 32"
proof -
  have mask: "(0x1F :: 8 word) = mask 5" by (simp add: mask_eq_exp_minus_1)
  have "unat (base32_val b i AND 0x1F) = take_bit 5 (drop_bit (i * 5) (le_value b))"
    by (rule bit_eqI) (auto simp: mask bit_unsigned_iff bit_simps bit_base32_val add.commute dest: bit_imp_le_length)
  also have "\<dots> = le_value b div 32 ^ i mod 32"
    by (simp add: take_bit_eq_mod drop_bit_eq_div power_mult mult.commute [of i])
  finally show ?thesis .
qed

section \<open>Correctness\<close>

lemma base32_alphabet_check: "distinct base32_alphabet \<and> length base32_alphabet = 32"
  by code_simp

lemma base32_char_in: "base32_char b i \<in> set base32_alphabet"
proof -
  have "unat (base32_val b i AND 0x1F) < length base32_alphabet"
    using base32_alphabet_check by (simp add: base32_digit)
  then show ?thesis by (simp add: base32_char_def)
qed

text \<open>C33: \<open>encodeNixBase32\<close> writes the little-endian number of its bytes in base 32, most significant
  digit first, for an input of any length: the shifts and masks lose and mix up no bit.\<close>

theorem encode_nix_base32_digits:
  "encode_nix_base32 b =
     map (\<lambda>i. base32_alphabet ! (le_value b div 32 ^ i mod 32)) (rev [0..<base32_length (length b)])"
  by (simp add: encode_nix_base32_def base32_char_def base32_digit rev_map)

lemma le_value_bound: "le_value b < 256 ^ length b"
proof (induction b)
  case (Cons x b)
  have "unat x < 256" using unsigned_less [of x] by simp
  with Cons show ?case by simp
qed simp

lemma le_value_inj: "length a = length b \<Longrightarrow> le_value a = le_value b \<Longrightarrow> a = b"
proof (induction a b rule: list_induct2)
  case (Cons x xs y ys)
  have "unat x < 256" "unat y < 256" using unsigned_less [of x] unsigned_less [of y] by simp_all
  then have "(unat x + 256 * le_value xs) mod 256 = unat x" "(unat y + 256 * le_value ys) mod 256 = unat y"
    "(unat x + 256 * le_value xs) div 256 = le_value xs" "(unat y + 256 * le_value ys) div 256 = le_value ys"
    by simp_all
  with Cons show ?case by (metis le_value.simps(2) unsigned_word_eqI)
qed simp

lemma digits_determine:
  "x < 32 ^ l \<Longrightarrow> y < 32 ^ l \<Longrightarrow> (\<And>i. i < l \<Longrightarrow> x div 32 ^ i mod 32 = y div 32 ^ i mod 32) \<Longrightarrow> x = (y :: nat)"
proof (induction l arbitrary: x y)
  case (Suc l)
  have "x div 32 = y div 32"
  proof (rule Suc.IH)
    show "x div 32 div 32 ^ i mod 32 = y div 32 div 32 ^ i mod 32" if "i < l" for i
      using Suc.prems(3) [of "Suc i"] that by (simp add: div_mult2_eq [symmetric])
  qed (use Suc.prems(1,2) in \<open>simp_all add: less_mult_imp_div_less mult.commute\<close>)
  moreover have "x mod 32 = y mod 32" using Suc.prems(3) [of 0] by simp
  ultimately show ?case by (metis div_mult_mod_eq)
qed simp

lemma base32_enough: "256 ^ n \<le> (32 :: nat) ^ base32_length n"
proof -
  have "n * 8 \<le> 5 * base32_length n" by (simp add: base32_length_def)
  then have "(2 :: nat) ^ (8 * n) \<le> 2 ^ (5 * base32_length n)"
    by (intro power_increasing) auto
  then show ?thesis by (simp only: power_mult) simp
qed

text \<open>The encoding is injective: two byte strings of one length have the same encoding only when
  they are equal, so distinct SHA-256 values get distinct Nix hashes.\<close>

lemma encode_nix_base32_inj:
  assumes "length a = length b" and "encode_nix_base32 a = encode_nix_base32 b"
  shows "a = b"
proof (rule le_value_inj [OF assms(1)])
  let ?l = "base32_length (length b)"
  have "base32_char a i = base32_char b i" if "i < ?l" for i
    using assms that by (simp add: encode_nix_base32_def)
  then have digits: "le_value a div 32 ^ i mod 32 = le_value b div 32 ^ i mod 32" if "i < ?l" for i
    using that base32_alphabet_check by (simp add: base32_char_def base32_digit nth_eq_iff_index_eq)
  have bounds: "le_value a < 32 ^ ?l" "le_value b < 32 ^ ?l"
    using le_value_bound [of a] le_value_bound [of b] base32_enough [of "length b"] assms(1) by simp_all
  show "le_value a = le_value b" by (rule digits_determine [OF bounds]) (rule digits)
qed

lemma encode_nix_base32_length: "length (encode_nix_base32 b) = base32_length (length b)"
  by (simp add: encode_nix_base32_def)

lemma encode_nix_base32_set: "c \<in> set (encode_nix_base32 b) \<Longrightarrow> c \<in> set base32_alphabet"
  unfolding encode_nix_base32_def set_rev set_map by (metis base32_char_in imageE)

end
