(* ===== verification/Nix_Sign.thy ===== *)
theory Nix_Sign
  imports Domain_Types Go_Encoding Nix_Base32 "HOL-Library.Multiset"
begin

text \<open>
  \<open>pkg/nix/sign.go\<close>: signing keys, the fingerprint Nix signs and its signature, and the two forms
  of a NAR hash. \<open>ed25519.Sign\<close> is a parameter; that it panics on a key of the wrong length is
  written out.
\<close>

section \<open>Keys and signatures\<close>

record signer =
  sg_key_name :: string
  sg_private_key :: bytes

datatype sign_error = InvalidKeyFormat | InvalidKeyBase64 | KeyFileUnreadable

definition new_signer_from_key :: "string \<Rightarrow> sign_error + signer" where
  "new_signer_from_key content =
     (let parts = split_on (CHR '':'') (trim_space content)
      in if length parts < 2 then Inl InvalidKeyFormat
         else case b64_decode (parts ! 1) of
                None \<Rightarrow> Inl InvalidKeyBase64
              | Some raw \<Rightarrow> Inr \<lparr>sg_key_name = parts ! 0, sg_private_key = raw\<rparr>)"

text \<open>\<open>file\<close> is what reading the key file gives.\<close>

definition new_signer :: "string option \<Rightarrow> sign_error + signer" where
  "new_signer file =
     (case file of None \<Rightarrow> Inl KeyFileUnreadable | Some content \<Rightarrow> new_signer_from_key content)"

definition ref_paths :: "string list \<Rightarrow> string list" where
  "ref_paths refs = sort (map (\<lambda>r. store_prefix @ path_base r) refs)"

definition fingerprint :: "string \<Rightarrow> string \<Rightarrow> int \<Rightarrow> string list \<Rightarrow> string" where
  "fingerprint store_path nar_hash nar_size refs =
     ''1;'' @ store_path @ '';'' @ nar_hash @ '';'' @ show_int nar_size @ '';'' @ join '','' (ref_paths refs)"

definition ed25519_sign :: "(bytes \<Rightarrow> string \<Rightarrow> bytes) \<Rightarrow> bytes \<Rightarrow> string \<Rightarrow> bytes option" where
  "ed25519_sign sign key msg = (if length key \<noteq> 64 then None else Some (sign key msg))"

text \<open>None is the panic of \<open>ed25519.Sign\<close>.\<close>

definition sign_path ::
  "(bytes \<Rightarrow> string \<Rightarrow> bytes) \<Rightarrow> signer \<Rightarrow> string \<Rightarrow> string \<Rightarrow> int \<Rightarrow> string list \<Rightarrow> string option" where
  "sign_path sign s store_path nar_hash nar_size refs =
     map_option (\<lambda>sig. sg_key_name s @ '':'' @ b64_encode sig)
       (ed25519_sign sign (sg_private_key s) (fingerprint store_path nar_hash nar_size refs))"

section \<open>Hash formats\<close>

datatype hash_error = BadSriBase64 | BadHexDigits | BadHashLength nat | UnknownHashFormat string

definition sri_prefix :: string where "sri_prefix = ''sha256-''"

definition normalize_nar_hash :: "string \<Rightarrow> hash_error + string" where
  "normalize_nar_hash hash =
     (if has_prefix hash sha256_prefix then Inr hash
      else if has_prefix hash sri_prefix
      then let b64 = trim_prefix hash sri_prefix;
               padded = (if length b64 mod 4 \<noteq> 0 then b64 @ replicate (4 - length b64 mod 4) (CHR ''='') else b64)
           in case b64_decode padded of
                None \<Rightarrow> Inl BadSriBase64
              | Some data \<Rightarrow>
                  (if length data \<noteq> 32 then Inl (BadHashLength (length data))
                   else Inr (sha256_prefix @ encode_nix_base32 data))
      else Inl (UnknownHashFormat hash))"

definition hex_to_nix_base32 :: "string \<Rightarrow> hash_error + string" where
  "hex_to_nix_base32 s =
     (case hex_decode s of
        None \<Rightarrow> Inl BadHexDigits
      | Some data \<Rightarrow>
          (if length data \<noteq> 32 then Inl (BadHashLength (length data)) else Inr (encode_nix_base32 data)))"

section \<open>Signatures\<close>

lemma sep_cancel:
  assumes "c \<notin> set a" "c \<notin> set a'" "a @ c # x = a' @ c # x'"
  shows "a = a' \<and> x = x'"
proof -
  have "takeWhile (\<lambda>y. y \<noteq> c) (a @ c # x) = a" "takeWhile (\<lambda>y. y \<noteq> c) (a' @ c # x') = a'"
    using assms(1,2) by (auto simp: takeWhile_append)
  with assms(3) show ?thesis by simp
qed

lemma ref_paths_perm:
  assumes "mset (map path_base refs) = mset (map path_base refs')"
  shows "ref_paths refs = ref_paths refs'"
proof -
  have "image_mset (\<lambda>b. store_prefix @ b) (mset (map path_base refs))
      = image_mset (\<lambda>b. store_prefix @ b) (mset (map path_base refs'))"
    using assms by simp
  then have "mset (map (\<lambda>r. store_prefix @ path_base r) refs) = mset (map (\<lambda>r. store_prefix @ path_base r) refs')"
    by (simp add: image_mset.compositionality o_def flip: mset_map)
  then show ?thesis
    unfolding ref_paths_def by (metis mset_sort properties_for_sort sorted_sort)
qed

text \<open>The signature does not depend on the order in which the references are listed, nor on
  whether they are paths or bare names.\<close>

lemma sign_path_order:
  assumes "mset (map path_base refs) = mset (map path_base refs')"
  shows "sign_path sign s p h n refs = sign_path sign s p h n refs'"
  by (simp add: sign_path_def fingerprint_def ref_paths_perm [OF assms])

lemma show_int_no_sep: "c \<in> set (show_int n) \<Longrightarrow> is_digit c \<or> c = CHR ''-''"
  by (auto simp: show_int_def dest: show_nat_digits split: if_splits)

lemma show_int_inj: "show_int m = show_int n \<Longrightarrow> m = n"
proof -
  have nat: "show_nat a = show_nat b \<Longrightarrow> a = b" for a b by (metis digits_value_show_nat)
  have hd: "show_nat a \<noteq> CHR ''-'' # x" for a x
    using show_nat_hd [of a] by (auto simp: has_prefix_iff)
  assume "show_int m = show_int n"
  then show "m = n"
    using hd [of _ "show_nat _"] hd [symmetric] by (auto simp: show_int_def split: if_splits dest!: nat)
qed

lemma join_inj:
  assumes "\<And>s. s \<in> set xs \<union> set ys \<Longrightarrow> c \<notin> set s \<and> s \<noteq> []" and "join [c] xs = join [c] ys"
  shows "xs = ys"
proof (cases "xs = [] \<or> ys = []")
  case True
  have "join [c] zs = [] \<Longrightarrow> set zs \<subseteq> set xs \<union> set ys \<Longrightarrow> zs = []" for zs
    using assms(1) by (cases zs; cases "tl zs") auto
  with True assms(2) show ?thesis by (metis Un_upper1 Un_upper2 join.simps(1))
next
  case False
  with assms show ?thesis by (metis UnCI split_join)
qed

text \<open>C32: A signature is about one path: when no store path or hash holds a semicolon and no reference
  a comma, two equal fingerprints have the same path, hash, size and sorted references.\<close>

theorem fingerprint_injective:
  assumes "CHR '';'' \<notin> set p" "CHR '';'' \<notin> set h" "CHR '';'' \<notin> set p'" "CHR '';'' \<notin> set h'"
    and "\<And>r. r \<in> set refs \<union> set refs' \<Longrightarrow> CHR '','' \<notin> set (path_base r)"
    and "fingerprint p h n refs = fingerprint p' h' n' refs'"
  shows "p = p' \<and> h = h' \<and> n = n' \<and> ref_paths refs = ref_paths refs'"
proof -
  have dg: "\<not> is_digit CHR '';''" by code_simp
  then have sn: "CHR '';'' \<notin> set (show_int k)" for k using show_int_no_sep by force
  have eq: "p @ CHR '';'' # h @ CHR '';'' # show_int n @ CHR '';'' # join '','' (ref_paths refs)
      = p' @ CHR '';'' # h' @ CHR '';'' # show_int n' @ CHR '';'' # join '','' (ref_paths refs')"
    using assms(6) by (simp add: fingerprint_def)
  have p: "p = p'" and r1: "h @ CHR '';'' # show_int n @ CHR '';'' # join '','' (ref_paths refs)
      = h' @ CHR '';'' # show_int n' @ CHR '';'' # join '','' (ref_paths refs')"
    using sep_cancel [OF assms(1,3) eq] by blast+
  have h: "h = h'" and r2: "show_int n @ CHR '';'' # join '','' (ref_paths refs)
      = show_int n' @ CHR '';'' # join '','' (ref_paths refs')"
    using sep_cancel [OF assms(2,4) r1] by blast+
  have n: "n = n'" and r3: "join '','' (ref_paths refs) = join '','' (ref_paths refs')"
    using sep_cancel [OF sn sn r2] show_int_inj by blast+
  have "CHR '','' \<notin> set s \<and> s \<noteq> []" if "s \<in> set (ref_paths refs) \<union> set (ref_paths refs')" for s
    using that assms(5) by (auto simp: ref_paths_def store_prefix_def)
  then show ?thesis using join_inj [OF _ r3] p h n by blast
qed

theorem fingerprint_injective_witness:
  "ref_paths [''a''] = ref_paths [''/nix/store/a'']"
proof -
  have pb: "path_base ''a'' = ''a''" "path_base ''/nix/store/a'' = ''a''" by code_simp+
  have f: "fingerprint ''p'' ''h'' 7 [''a''] = fingerprint ''p'' ''h'' 7 [''/nix/store/a'']"
    by (simp add: fingerprint_def ref_paths_def pb)
  have r: "r \<in> set [''a''] \<union> set [''/nix/store/a''] \<Longrightarrow> CHR '','' \<notin> set (path_base r)" for r
    using pb by auto
  show ?thesis
    using fingerprint_injective [OF _ _ _ _ r f] by simp
qed

section \<open>One hash, three forms\<close>

lemma b64_encode_len: "length (b64_encode bs) mod 4 = 0"
  by (induction bs rule: b64_encode.induct) simp_all

lemma b64_encode_pad: "length bs mod 3 = 2 \<Longrightarrow> \<exists>u. b64_encode bs = u @ ''=''"
proof (induction bs rule: b64_encode.induct)
  case (4 x y z bs)
  then have "length bs mod 3 = 2" by (simp add: mod_Suc split: if_splits)
  with 4 show ?case by fastforce
qed simp_all

lemma normalize_sha256: "has_prefix h sha256_prefix \<Longrightarrow> normalize_nar_hash h = Inr h"
  by (simp add: normalize_nar_hash_def)

lemma normalize_sri:
  "normalize_nar_hash (sri_prefix @ t) =
     (case b64_decode (if length t mod 4 \<noteq> 0 then t @ replicate (4 - length t mod 4) (CHR ''='') else t) of
        None \<Rightarrow> Inl BadSriBase64
      | Some data \<Rightarrow> (if length data \<noteq> 32 then Inl (BadHashLength (length data))
                     else Inr (sha256_prefix @ encode_nix_base32 data)))"
proof -
  have "\<not> has_prefix (sri_prefix @ t) sha256_prefix"
    by (simp add: sri_prefix_def sha256_prefix_def)
  then show ?thesis by (simp add: normalize_nar_hash_def Let_def)
qed

text \<open>Normalising is idempotent: what it accepts becomes a hash in the form Nix writes, and a hash
  in that form is left alone.\<close>

lemma normalize_nar_hash_idem:
  assumes "normalize_nar_hash h = Inr h'"
  shows "has_prefix h' sha256_prefix \<and> normalize_nar_hash h' = Inr h'"
proof -
  have "has_prefix h' sha256_prefix"
    using assms by (auto simp: normalize_nar_hash_def Let_def split: if_splits option.splits)
  then show ?thesis by (simp add: normalize_sha256)
qed

text \<open>The forms of one SHA-256 value agree: its SRI form, with the padding or without, and its
  hexadecimal form become the same base-32 text, of 52 characters of the Nix alphabet.\<close>

lemma hash_forms_agree:
  assumes "length data = 32"
  shows "\<exists>x. hex_to_nix_base32 (hex_encode data) = Inr x
    \<and> normalize_nar_hash (sri_prefix @ b64_encode data) = Inr (sha256_prefix @ x)
    \<and> normalize_nar_hash (sri_prefix @ butlast (b64_encode data)) = Inr (sha256_prefix @ x)
    \<and> length x = 52 \<and> set x \<subseteq> set nix_alphabet"
proof (intro exI conjI)
  let ?x = "encode_nix_base32 data"
  show "hex_to_nix_base32 (hex_encode data) = Inr ?x"
    using assms by (simp add: hex_to_nix_base32_def)
  show "normalize_nar_hash (sri_prefix @ b64_encode data) = Inr (sha256_prefix @ ?x)"
    using assms by (simp add: normalize_sri b64_encode_len)
  obtain u where u: "b64_encode data = u @ ''=''" using b64_encode_pad [of data] assms by auto
  then have "(length u + 1) mod 4 = 0" using b64_encode_len [of data] by simp
  then have m: "length u mod 4 = 3" by presburger
  then have pad: "(if length u mod 4 \<noteq> 0 then u @ replicate (4 - length u mod 4) (CHR ''='') else u) = b64_encode data"
    by (simp add: u)
  have "butlast (b64_encode data) = u" by (simp add: u)
  then show "normalize_nar_hash (sri_prefix @ butlast (b64_encode data)) = Inr (sha256_prefix @ ?x)"
    by (simp only: normalize_sri pad b64_decode_encode option.case) (simp add: assms)
  show "length ?x = 52" using assms by (simp add: encode_nix_base32_length base32_length_def)
  have "base32_alphabet = nix_alphabet" by (simp add: base32_alphabet_def nix_alphabet_def)
  then show "set ?x \<subseteq> set nix_alphabet" using encode_nix_base32_set by auto
qed

text \<open>A key file whose key is too short is accepted, and the first signature with it panics:
  \<open>NewSignerFromKey\<close> checks the format and the base-64 text, not the length of the key.\<close>

lemma short_key_panics:
  "\<exists>content s. new_signer_from_key content = Inr s
     \<and> (\<forall>sign p h n refs. sign_path sign s p h n refs = None)"
proof (intro exI conjI allI)
  have "trim_space ''k:AAAA'' = ''k:AAAA''" by code_simp
  moreover have "split_on CHR '':'' ''k:AAAA'' = [''k'', ''AAAA'']" "b64_decode ''AAAA'' = Some [0, 0, 0]"
    by code_simp+
  ultimately show "new_signer_from_key ''k:AAAA'' = Inr \<lparr>sg_key_name = ''k'', sg_private_key = [0, 0, 0]\<rparr>"
    by (simp add: new_signer_from_key_def)
  show "sign_path sign \<lparr>sg_key_name = ''k'', sg_private_key = [0, 0, 0]\<rparr> p h n refs = None" for sign p h n refs
    by (simp add: sign_path_def ed25519_sign_def)
qed

end
