(* ===== verification/Nix_NarInfo.thy ===== *)
theory Nix_NarInfo
  imports Nix_Sign Oci_Index
begin

text \<open>
  \<open>pkg/nix/compressor.go\<close> and \<open>GenerateNarInfo\<close> of \<open>pkg/nix/nar.go\<close>. The compressors implement an
  interface; \<open>narinfo_codec\<close> states what the narinfo format relies on in its implementations.
\<close>

section \<open>Compressors\<close>

datatype compressor = Zstd | Gzip

definition compressor_name :: "compressor \<Rightarrow> string" where
  "compressor_name c = (case c of Zstd \<Rightarrow> ''zstd'' | Gzip \<Rightarrow> ''gzip'')"

definition compressor_extension :: "compressor \<Rightarrow> string" where
  "compressor_extension c = (case c of Zstd \<Rightarrow> ''.nar.zst'' | Gzip \<Rightarrow> ''.nar.gz'')"

definition compressor_media_type :: "compressor \<Rightarrow> string" where
  "compressor_media_type c =
     (case c of Zstd \<Rightarrow> ''application/vnd.nix.cache.layer.v1+tar+zstd''
      | Gzip \<Rightarrow> ''application/vnd.nix.cache.layer.v1+tar+gzip'')"

text \<open>The options \<open>WrapWriter\<close> gives the zstd encoder: concurrency and level.\<close>

definition zstd_options :: "int \<Rightarrow> int \<Rightarrow> int \<Rightarrow> int \<times> int" where
  "zstd_options num_cpu concurrency level =
     (if concurrency \<le> 0
      then (let c = num_cpu div 2 in if c < 1 then 1 else if 4 < c then 4 else c)
      else concurrency,
      if level \<le> 0 then 3 else level)"

definition get_compressor :: "string \<Rightarrow> string + compressor" where
  "get_compressor name =
     (if name = ''zstd'' then Inr Zstd
      else if name = ''gzip'' \<or> name = [] then Inr Gzip
      else Inl (''unsupported compression algorithm: '' @ name))"

section \<open>NarInfo\<close>

definition newline :: string where "newline = [CHR 0x0A]"

definition narinfo_head :: "string \<Rightarrow> string \<Rightarrow> int \<Rightarrow> string \<Rightarrow> int \<Rightarrow> compressor \<Rightarrow> string list" where
  "narinfo_head store_path nar_hash nar_size file_hash file_size c =
     [''StorePath: '' @ store_path,
      ''URL: nar/'' @ get_path_hash store_path @ compressor_extension c,
      ''Compression: '' @ compressor_name c,
      ''FileHash: sha256:'' @ file_hash,
      ''FileSize: '' @ show_int file_size,
      ''NarHash: '' @ nar_hash,
      ''NarSize: '' @ show_int nar_size]"

text \<open>The error of \<open>GetCompressor\<close> is dropped; the call on its nil result then panics (None).\<close>

definition generate_narinfo ::
  "string \<Rightarrow> string \<Rightarrow> int \<Rightarrow> string \<Rightarrow> int \<Rightarrow> string list \<Rightarrow> string list \<Rightarrow> string \<Rightarrow> string option" where
  "generate_narinfo store_path nar_hash nar_size file_hash file_size refs sigs compression =
     (case get_compressor compression of
        Inl _ \<Rightarrow> None
      | Inr c \<Rightarrow>
          (let ref_lines = (if refs \<noteq> [] then [references_key @ join '' '' (map path_base refs)] else [])
           in Some (join newline
                (narinfo_head store_path nar_hash nar_size file_hash file_size c
                 @ ref_lines @ map (\<lambda>sig. ''Sig: '' @ sig) sigs) @ newline)))"

section \<open>What the format needs of a compressor\<close>

text \<open>An implementation's name and extension go into lines of the narinfo.\<close>

locale narinfo_codec =
  fixes nm ext :: string
  assumes one_line: "CHR 0x0A \<notin> set nm" "CHR 0x0A \<notin> set ext"
    and nar_ext: "has_prefix ext ''.nar.''"
begin

lemma url_line_prefix: "has_prefix (''URL: nar/'' @ h @ ext) ''URL: nar/''"
  by simp

lemma url_line_has_nar: "str_contains (''URL: nar/'' @ h @ ext) ''.nar.''"
proof -
  obtain r where "ext = ''.nar.'' @ r" using nar_ext by (auto simp: has_prefix_iff)
  then have "''URL: nar/'' @ h @ ext = (''URL: nar/'' @ h) @ ''.nar.'' @ r" by simp
  then show ?thesis unfolding str_contains_iff by blast
qed

lemma codec_lines:
  assumes "CHR 0x0A \<notin> set h"
  shows "CHR 0x0A \<notin> set (''URL: nar/'' @ h @ ext)" "CHR 0x0A \<notin> set (''Compression: '' @ nm)"
  using assms one_line by auto

end

interpretation codec: narinfo_codec "compressor_name c" "compressor_extension c" for c
  by unfold_locales (cases c; simp add: compressor_name_def compressor_extension_def)+

lemma show_int_one_line: "CHR 0x0A \<notin> set (show_int n)"
proof -
  have "\<not> is_digit CHR 0x0A" by code_simp
  then show ?thesis using show_int_no_sep by force
qed

lemma narinfo_head_lines:
  assumes "CHR 0x0A \<notin> set p" "CHR 0x0A \<notin> set (get_path_hash p)" "CHR 0x0A \<notin> set nh" "CHR 0x0A \<notin> set fh"
  shows "\<forall>l \<in> set (narinfo_head p nh ns fh fs c). \<not> has_prefix l references_key \<and> CHR 0x0A \<notin> set l"
  using assms show_int_one_line codec.codec_lines [OF assms(2), of c]
  by (simp add: narinfo_head_def references_key_def)

text \<open>C34: The References line of a generated narinfo is read back by \<open>parseReferencesFromNarInfo\<close> as
  the store paths of the references, in their order, for both compressors and any signatures; that
  is how an upgraded index gets the references the publisher wrote.\<close>

theorem narinfo_references_roundtrip:
  assumes "generate_narinfo p nh ns fh fs refs sigs compression = Some t"
    and "CHR 0x0A \<notin> set p" "CHR 0x0A \<notin> set (get_path_hash p)" "CHR 0x0A \<notin> set nh" "CHR 0x0A \<notin> set fh"
    and "\<And>s. s \<in> set sigs \<Longrightarrow> CHR 0x0A \<notin> set s"
    and "\<And>r. r \<in> set refs \<Longrightarrow> set (path_base r) \<inter> set space_edge = {}"
  shows "parse_references t = map (\<lambda>r. store_prefix @ path_base r) refs"
proof -
  obtain c where t: "t = join newline (narinfo_head p nh ns fh fs c
      @ (if refs \<noteq> [] then [references_key @ join '' '' (map path_base refs)] else [])
      @ map (\<lambda>sig. ''Sig: '' @ sig) sigs) @ newline"
    using assms(1) by (auto simp: generate_narinfo_def Let_def split: sum.splits)
  note head = narinfo_head_lines [OF assms(2-5), of ns fs c]
  have sigs: "\<forall>l \<in> set (map (\<lambda>sig. ''Sig: '' @ sig) sigs). CHR 0x0A \<notin> set l"
    "\<forall>l \<in> set (map (\<lambda>sig. ''Sig: '' @ sig) sigs). \<not> has_prefix l references_key"
    using assms(6) by (auto simp: references_key_def)
  show ?thesis
  proof (cases "refs = []")
    case True
    have "parse_references t = []"
      unfolding t newline_def using True head sigs
      by (intro parse_references_none) (auto simp: narinfo_head_def)
    with True show ?thesis by simp
  next
    case False
    have "parse_references t = map (\<lambda>w. store_prefix @ w) (map path_base refs)"
    proof -
      have w: "\<forall>w \<in> set (map path_base refs). w \<noteq> [] \<and> set w \<inter> set space_edge = {}"
        using assms(7) path_base_nonempty by auto
      show ?thesis
        using parse_references_line [OF head w sigs(1)] False by (simp add: t newline_def)
    qed
    then show ?thesis by simp
  qed
qed

theorem narinfo_references_roundtrip_witness:
  "\<exists>t. generate_narinfo ''/nix/store/app'' ''h'' 1 ''f'' 2 [''/nix/store/dep''] [''k:s''] ''zstd'' = Some t
     \<and> parse_references t = [''/nix/store/dep'']"
proof -
  have pb: "path_base ''/nix/store/dep'' = ''dep''" by code_simp
  have gp: "get_path_hash ''/nix/store/app'' = []" by code_simp
  have dep: "set ''dep'' \<inter> set space_edge = {}" by code_simp
  obtain t where t: "generate_narinfo ''/nix/store/app'' ''h'' 1 ''f'' 2 [''/nix/store/dep''] [''k:s''] ''zstd'' = Some t"
    by (simp add: generate_narinfo_def get_compressor_def Let_def)
  have "parse_references t = map (\<lambda>r. store_prefix @ path_base r) [''/nix/store/dep'']"
    by (rule narinfo_references_roundtrip [OF t]) (use pb gp dep in auto)
  with t pb show ?thesis by (simp add: store_prefix_def)
qed

end
