(* ===== verification/Nix_Runner.thy ===== *)
theory Nix_Runner
  imports Nix_NarInfo "HOL-Library.Finite_Map"
begin

text \<open>
  The Nix commands behind the interface \<open>nix.Runner\<close> (\<open>pkg/nix/runner.go\<close>, \<open>nix.go\<close>,
  \<open>ExportAndCompress\<close> of \<open>nar.go\<close>) and its test double (\<open>fake.go\<close>). What a process prints, the JSON
  decoders, the compressors and SHA-256 are arguments.
\<close>

section \<open>Data\<close>

record path_info =
  pi_path :: string
  pi_nar_hash :: string
  pi_nar_size :: int
  pi_refs :: "string list"
  pi_sigs :: "string list"

record export_entry =
  xe_file :: string
  xe_hash :: string
  xe_size :: int

text \<open>The interface, with the content of the files an export leaves. An answer that is an error is \<open>Inl\<close>.\<close>

record nix_runner =
  nx_closure :: "string list \<Rightarrow> string + string list"
  nx_infos :: "string list \<Rightarrow> string + (string \<Rightarrow> path_info option)"
  nx_export :: "string \<Rightarrow> string \<Rightarrow> int \<Rightarrow> int \<Rightarrow> string + export_entry"
  nx_build :: "string \<Rightarrow> string + string list"
  nx_eval :: "string \<Rightarrow> string + string"
  nx_content :: "string \<Rightarrow> string + string"

section \<open>Decoded JSON\<close>

text \<open>The entries of an object are in the order in which the program ranges over the decoded map.\<close>

datatype json = JNull | JBool bool | JNumber int | JString string | JArray "json list" | JObject "(string \<times> json) list"

text \<open>\<open>ParseJSONBuildOutputs\<close> after \<open>json.Unmarshal\<close> into a list of objects.\<close>

definition string_values :: "(string \<times> json) list \<Rightarrow> string list" where
  "string_values outs = List.map_filter (\<lambda>(k, v). case v of JString s \<Rightarrow> Some s | _ \<Rightarrow> None) outs"

definition output_paths :: "(string \<times> json) list \<Rightarrow> string list" where
  "output_paths out = (case map_of out ''outputs'' of Some (JObject outs) \<Rightarrow> string_values outs | _ \<Rightarrow> [])"

definition parse_build_outputs :: "(string \<Rightarrow> string + (string \<times> json) list list) \<Rightarrow> string \<Rightarrow> string + string list" where
  "parse_build_outputs decode text =
     (case decode text of Inl err \<Rightarrow> Inl err | Inr outs \<Rightarrow> Inr (concat (map output_paths outs)))"

section \<open>The commands\<close>

text \<open>
  \<open>tl_query\<close>, \<open>tl_info\<close>, \<open>tl_build\<close>, \<open>tl_eval\<close>: the standard output of \<open>nix-store --query\<close>,
  \<open>nix path-info\<close>, \<open>nix build\<close> and \<open>nix eval\<close>, or the error with the standard error.
\<close>

record nix_tools =
  tl_query :: "string list \<Rightarrow> string + string"
  tl_info :: "string list \<Rightarrow> string \<times> string + string"
  tl_build :: "string \<Rightarrow> string \<times> string + string"
  tl_eval :: "string \<Rightarrow> string \<times> string + string"
  tl_dict :: "string \<Rightarrow> (string, path_info) fmap option"
  tl_list :: "string \<Rightarrow> path_info list option"
  tl_outputs :: "string \<Rightarrow> string + (string \<times> json) list list"

definition nonempty_lines :: "string \<Rightarrow> string list" where
  "nonempty_lines out = filter (\<lambda>l. l \<noteq> []) (map trim_space (split_on (CHR 0x0A) out))"

definition get_closure :: "nix_tools \<Rightarrow> string list \<Rightarrow> string + string list" where
  "get_closure tools paths = (case tl_query tools paths of Inl err \<Rightarrow> Inl err | Inr out \<Rightarrow> Inr (nonempty_lines out))"

definition by_path :: "path_info list \<Rightarrow> (string, path_info) fmap" where
  "by_path infos = foldl (\<lambda>m info. fmupd (pi_path info) info m) fmempty infos"

definition get_path_infos :: "nix_tools \<Rightarrow> string list \<Rightarrow> string + (string \<Rightarrow> path_info option)" where
  "get_path_infos tools paths =
     (if paths = [] then Inr (\<lambda>_. None)
      else case tl_info tools paths of
             Inl (err, stderr) \<Rightarrow> Inl (''nix path-info failed: '' @ err @ '', stderr: '' @ trim_space stderr)
           | Inr out \<Rightarrow>
               (case tl_dict tools out of
                  Some dict \<Rightarrow> Inr (fmlookup (fmmap_keys (\<lambda>path info. info\<lparr>pi_path := path\<rparr>) dict))
                | None \<Rightarrow>
                    (case tl_list tools out of
                       Some infos \<Rightarrow> Inr (fmlookup (by_path infos))
                     | None \<Rightarrow> Inl (''failed to parse nix path-info output: '' @ out))))"

definition build_target :: "nix_tools \<Rightarrow> string \<Rightarrow> string + string list" where
  "build_target tools tgt =
     (case tl_build tools tgt of
        Inl (err, stderr) \<Rightarrow> Inl (err @ '': '' @ stderr)
      | Inr out \<Rightarrow> parse_build_outputs (tl_outputs tools) out)"

definition eval_out_path :: "nix_tools \<Rightarrow> string \<Rightarrow> string + string" where
  "eval_out_path tools tgt =
     (case tl_eval tools tgt of
        Inl (err, stderr) \<Rightarrow> Inl (err @ '': '' @ trim_space stderr)
      | Inr out \<Rightarrow> Inr (trim_space out))"

section \<open>Export\<close>

text \<open>
  \<open>xp_temp\<close>: the temporary file for an extension; \<open>xp_dump\<close>: the archive, or the error with the
  standard error; \<open>xp_compress\<close>: the compressed stream; \<open>xp_accepted\<close>: the part of it the writers
  took, which is hashed; \<open>xp_stored\<close>: the part of that in the file after the flush, whose error is
  not looked at.
\<close>

record exporter =
  xp_temp :: "string \<Rightarrow> string + string"
  xp_wrap :: "compressor \<Rightarrow> int \<Rightarrow> int \<Rightarrow> string option"
  xp_dump :: "string \<Rightarrow> string \<times> string + string"
  xp_compress :: "compressor \<Rightarrow> int \<Rightarrow> int \<Rightarrow> string \<Rightarrow> string"
  xp_accepted :: "string \<Rightarrow> string"
  xp_stored :: "string \<Rightarrow> string"
  xp_stat :: "string option"
  xp_sha256 :: "string \<Rightarrow> string"

text \<open>The result, and the temporary file that is left with its content.\<close>

definition export_and_compress ::
  "exporter \<Rightarrow> string \<Rightarrow> string \<Rightarrow> int \<Rightarrow> int \<Rightarrow> (string + export_entry) \<times> (string \<times> string) option" where
  "export_and_compress xp path compression conc level =
     (case get_compressor compression of
        Inl err \<Rightarrow> (Inl err, None)
      | Inr c \<Rightarrow>
          (case xp_temp xp (compressor_extension c) of
             Inl err \<Rightarrow> (Inl err, None)
           | Inr tmp \<Rightarrow>
               (case xp_wrap xp c conc level of
                  Some err \<Rightarrow> (Inl err, None)
                | None \<Rightarrow>
                    (case xp_dump xp path of
                       Inl (err, stderr) \<Rightarrow>
                         (Inl (''nix-store dump failed: '' @ err
                            @ (if trim_space stderr \<noteq> [] then '' (stderr: '' @ trim_space stderr @ '')'' else [])), None)
                     | Inr nar \<Rightarrow>
                         (let hashed = xp_accepted xp (xp_compress xp c conc level nar); stored = xp_stored xp hashed
                          in case xp_stat xp of
                               Some err \<Rightarrow> (Inl err, None)
                             | None \<Rightarrow> (Inr \<lparr>xe_file = tmp, xe_hash = xp_sha256 xp hashed, xe_size = int (length stored)\<rparr>,
                                        Some (tmp, stored)))))))"

text \<open>\<open>ExecRunner\<close>: every method calls the function of its name.\<close>

definition exec_runner :: "nix_tools \<Rightarrow> exporter \<Rightarrow> (string \<Rightarrow> string + string) \<Rightarrow> nix_runner" where
  "exec_runner tools xp content =
     \<lparr>nx_closure = get_closure tools, nx_infos = get_path_infos tools,
      nx_export = (\<lambda>path compression conc level. fst (export_and_compress xp path compression conc level)),
      nx_build = build_target tools, nx_eval = eval_out_path tools, nx_content = content\<rparr>"

section \<open>The test double\<close>

record fake_runner =
  fk_closures :: "string \<Rightarrow> string list option"
  fk_infos :: "string \<Rightarrow> path_info option"
  fk_build :: "string list"
  fk_eval :: string
  fk_content :: string

definition new_fake_runner :: fake_runner where
  "new_fake_runner =
     \<lparr>fk_closures = (\<lambda>_. None), fk_infos = (\<lambda>_. None), fk_build = [], fk_eval = [], fk_content = []\<rparr>"

definition fake_closure :: "fake_runner \<Rightarrow> string list \<Rightarrow> string list" where
  "fake_closure f paths = concat (map (\<lambda>p. case fk_closures f p of Some c \<Rightarrow> c | None \<Rightarrow> [p]) paths)"

definition fake_info :: "fake_runner \<Rightarrow> string \<Rightarrow> path_info" where
  "fake_info f p =
     (case fk_infos f p of Some info \<Rightarrow> info
      | None \<Rightarrow> \<lparr>pi_path = p, pi_nar_hash = ''sha256-AAAAAAAAAAAAAAAAAAAAAAAAAAAAAAAAAAAAAAAAAAA='',
                 pi_nar_size = 1024, pi_refs = [], pi_sigs = []\<rparr>)"

definition fake_infos :: "fake_runner \<Rightarrow> string list \<Rightarrow> string \<Rightarrow> path_info option" where
  "fake_infos f paths p = (if p \<in> set paths then Some (fake_info f p) else None)"

definition fake_content :: "fake_runner \<Rightarrow> string" where
  "fake_content f = (if fk_content f = [] then ''fake-compressed-nar-data'' else fk_content f)"

text \<open>\<open>tmp\<close>: the name of the temporary file or the error of making or writing it.\<close>

definition fake_export :: "(string \<Rightarrow> string) \<Rightarrow> string + string \<Rightarrow> fake_runner \<Rightarrow> string + export_entry" where
  "fake_export sha256 tmp f =
     (case tmp of Inl err \<Rightarrow> Inl err
      | Inr name \<Rightarrow> Inr \<lparr>xe_file = name, xe_hash = sha256 (fake_content f), xe_size = int (length (fake_content f))\<rparr>)"

definition fake_as_runner :: "(string \<Rightarrow> string) \<Rightarrow> string + string \<Rightarrow> fake_runner \<Rightarrow> nix_runner" where
  "fake_as_runner sha256 tmp f =
     \<lparr>nx_closure = (\<lambda>paths. Inr (fake_closure f paths)), nx_infos = (\<lambda>paths. Inr (fake_infos f paths)),
      nx_export = (\<lambda>_ _ _ _. fake_export sha256 tmp f), nx_build = (\<lambda>_. Inr (fk_build f)),
      nx_eval = (\<lambda>_. Inr (fk_eval f)), nx_content = (\<lambda>_. Inr (fake_content f))\<rparr>"

section \<open>What a runner promises\<close>

text \<open>The metadata of a path is filed under that path, and an export is named by the hash and the size
  of the file it leaves: what the publisher takes for granted.\<close>

locale runner_contract =
  fixes infos :: "string list \<Rightarrow> string + (string \<Rightarrow> path_info option)"
    and export :: "string \<Rightarrow> string \<Rightarrow> int \<Rightarrow> int \<Rightarrow> string + export_entry"
    and content :: "string \<Rightarrow> string \<Rightarrow> int \<Rightarrow> int \<Rightarrow> string"
    and sha256 :: "string \<Rightarrow> string"
  assumes info_path: "infos paths = Inr m \<Longrightarrow> m p = Some info \<Longrightarrow> pi_path info = p"
    and export_named: "export path compression conc level = Inr e \<Longrightarrow>
      xe_hash e = sha256 (content path compression conc level)
      \<and> xe_size e = int (length (content path compression conc level))"
begin

lemma infos_distinct:
  assumes "infos paths = Inr m" and "distinct ps"
  shows "distinct (map pi_path (List.map_filter m ps))"
  using assms(2)
proof (induction ps)
  case (Cons p ps)
  have "pi_path ` set (List.map_filter m ps) \<subseteq> set ps"
    using info_path [OF assms(1)] by (auto simp: List.map_filter_def)
  with Cons info_path [OF assms(1)] show ?case by (auto simp: List.map_filter_def split: option.splits)
qed (simp add: List.map_filter_def)

end

lemma by_path_fold_key:
  assumes "fmpred (\<lambda>q i. pi_path i = q) m"
  shows "fmpred (\<lambda>q i. pi_path i = q) (foldl (\<lambda>m info. fmupd (pi_path info) info m) m infos)"
  using assms by (induction infos arbitrary: m) auto

lemma by_path_key: "fmlookup (by_path infos) p = Some info \<Longrightarrow> pi_path info = p"
  using by_path_fold_key [of fmempty infos] by (auto simp: by_path_def fmpred_iff)

text \<open>The commands keep the promise as long as the flush writes everything.\<close>

definition exported_content :: "exporter \<Rightarrow> string \<Rightarrow> string \<Rightarrow> int \<Rightarrow> int \<Rightarrow> string" where
  "exported_content xp path compression conc level =
     (case export_and_compress xp path compression conc level of (r, Some (tmp, c)) \<Rightarrow> c | _ \<Rightarrow> [])"

definition flushing :: "exporter \<Rightarrow> exporter" where
  "flushing xp = xp\<lparr>xp_stored := (\<lambda>s. s)\<rparr>"

interpretation exec: runner_contract "get_path_infos tools"
    "\<lambda>path compression conc level. fst (export_and_compress (flushing xp) path compression conc level)"
    "exported_content (flushing xp)" "xp_sha256 xp" for tools xp
  by unfold_locales
    (auto simp: get_path_infos_def exported_content_def export_and_compress_def flushing_def Let_def
      dest: by_path_key split: if_splits sum.splits option.splits prod.splits)

text \<open>When it does not, the hash is that of more than the file holds.\<close>

lemma lost_flush_breaks_hash:
  assumes "export_and_compress xp path compression conc level = (Inr e, Some (tmp, c))"
    and "xp_stored xp = take n"
  shows "\<exists>full. xe_hash e = xp_sha256 xp full \<and> c = take n full \<and> xe_size e = int (length c)"
  using assms by (auto simp: export_and_compress_def Let_def split: sum.splits option.splits)

text \<open>A failed export leaves no file.\<close>

lemma failed_export_cleans: "export_and_compress xp path compression conc level = (Inl err, left) \<Longrightarrow> left = None"
  by (auto simp: export_and_compress_def Let_def split: sum.splits option.splits prod.splits)

end
