(* ===== verification/Publisher.thy ===== *)
theory Publisher
  imports Oci_Manifest Nix_Runner
begin

text \<open>
  The publish pipeline (\<open>pkg/publisher/publisher.go\<close>): the public key, the difference between the
  closure and the index with the repair of stale entries, the upload of every path, the late merge.
  Goroutines are put in an order, which is an argument: the order in which the checks and the uploads
  finish. Logging and profiling are left out.
\<close>

section \<open>Data\<close>

record upload_result =
  ur_hash :: string
  ur_name :: string
  ur_narinfo :: string
  ur_digest :: string
  ur_size :: int
  ur_refs :: "string list"

record diff_result =
  df_uploads :: "path_info list"
  df_index :: cache_index
  df_digest :: string

record publisher =
  pb_signer :: signer
  pb_skip_upstream :: bool
  pb_comp :: string
  pb_level :: int
  pb_jobs :: int

text \<open>None is the panic of \<open>NewPublisher\<close> without a client or a signer.\<close>

definition new_publisher :: "nat \<Rightarrow> signer option \<Rightarrow> bool \<Rightarrow> string \<Rightarrow> int \<Rightarrow> int \<Rightarrow> publisher option" where
  "new_publisher clients signer skip compression level jobs =
     (if clients = 0 then None
      else map_option (\<lambda>s. \<lparr>pb_signer = s, pb_skip_upstream = skip, pb_comp = compression, pb_level = level,
             pb_jobs = jobs\<rparr>) signer)"

section \<open>The export cache\<close>

text \<open>
  An entry is being made, or done with its result. The lock makes looking a path up and claiming it
  one step; the export runs outside of it. A goroutine that waits gives up when its context ends.
\<close>

datatype progress = Running | Finished "string + export_entry"

datatype export_event = Claim string | Finish string "string + export_entry" | Join string "string + export_entry"
  | Abandon string

inductive export_step :: "(string, progress) fmap \<Rightarrow> export_event \<Rightarrow> (string, progress) fmap \<Rightarrow> bool" where
  step_claim: "fmlookup c p = None \<Longrightarrow> export_step c (Claim p) (fmupd p Running c)"
| step_finish: "fmlookup c p = Some Running \<Longrightarrow> export_step c (Finish p r) (fmupd p (Finished r) c)"
| step_join: "fmlookup c p = Some (Finished r) \<Longrightarrow> export_step c (Join p r) c"
| step_abandon: "fmlookup c p = Some x \<Longrightarrow> export_step c (Abandon p) c"

inductive_cases export_stepE: "export_step c ev c'"

inductive export_run :: "(string, progress) fmap \<Rightarrow> export_event list \<Rightarrow> (string, progress) fmap \<Rightarrow> bool" where
  run_none: "export_run c [] c"
| run_snoc: "export_run c evs c' \<Longrightarrow> export_step c' ev c'' \<Longrightarrow> export_run c (evs @ [ev]) c''"

text \<open>One call after another; without a cache the export runs every time. \<open>export\<close> is what the export of
  this path gives, so a call that finds it running in another goroutine waits for the same result.\<close>

definition get_or_create ::
  "(string, progress) fmap option \<Rightarrow> string \<Rightarrow> string + export_entry
    \<Rightarrow> (string + export_entry) \<times> (string, progress) fmap option" where
  "get_or_create c path export =
     (case c of None \<Rightarrow> (export, None)
      | Some m \<Rightarrow>
          (case fmlookup m path of
             Some (Finished r) \<Rightarrow> (r, Some m)
           | _ \<Rightarrow> (export, Some (fmupd path (Finished export) m))))"

definition cleanup_files :: "(string, progress) fmap \<Rightarrow> string set" where
  "cleanup_files m = {xe_file e | p e. fmlookup m p = Some (Finished (Inr e)) \<and> xe_file e \<noteq> []}"

section \<open>The public key\<close>

text \<open>\<open>PrivateKey.Public\<close>: the last 32 bytes, a panic when there are not even 32 before them.\<close>

definition ed25519_public :: "bytes \<Rightarrow> bytes option" where
  "ed25519_public priv = (if length priv < 32 then None else Some (take 32 (drop 32 priv @ replicate 32 0)))"

definition annotated_manifest :: "descriptor list \<Rightarrow> (string \<times> string) list \<Rightarrow> oci_manifest" where
  "annotated_manifest layers annotations =
     \<lparr>mf_schema = 2, mf_media = media_manifest, mf_artifact = [], mf_config = default_empty_config,
      mf_layers = layers, mf_annotations = Some (fmap_of_list annotations)\<rparr>"

definition ensure_public_key :: "network \<Rightarrow> codecs \<Rightarrow> publisher \<Rightarrow> world \<Rightarrow> unit go_outcome \<times> world" where
  "ensure_public_key nt cd p w =
     (case manifest_exists nt ''public-key'' w of
        ((True, dg), w1) \<Rightarrow> (Done (), w1)
      | ((False, dg), w1) \<Rightarrow>
          (case ed25519_public (sg_private_key (pb_signer p)) of
             None \<Rightarrow> (Panicked, w1)
           | Some pub \<Rightarrow>
               (case push_manifest nt cd ''public-key''
                       (annotated_manifest [] [(''org.nix.public_key'', sg_key_name (pb_signer p) @ '':'' @ b64_encode pub)]) w1 of
                  (None, w2) \<Rightarrow> (Done (), w2)
                | (Some err, w2) \<Rightarrow> (Failed err, w2))))"

section \<open>The difference with the index\<close>

definition is_upstream_cached :: "publisher \<Rightarrow> path_info \<Rightarrow> bool" where
  "is_upstream_cached p info =
     (let nm = sg_key_name (pb_signer p); prefix = (if nm \<noteq> [] then nm @ '':'' else [])
      in list_ex (\<lambda>sig. \<not> (prefix \<noteq> [] \<and> has_prefix sig prefix)) (pi_sigs info))"

definition candidates :: "publisher \<Rightarrow> string list \<Rightarrow> (string \<Rightarrow> path_info option) \<Rightarrow> path_info list" where
  "candidates p closure infos =
     filter (\<lambda>info. \<not> (pb_skip_upstream p \<and> is_upstream_cached p info)) (List.map_filter infos closure)"

definition missing_paths :: "cache_index \<Rightarrow> path_info list \<Rightarrow> path_info list" where
  "missing_paths index infos =
     filter (\<lambda>info. gm_get (ix_entries index) (get_path_hash (pi_path info)) = None) infos"

text \<open>The checks, in the order in which they finish; each is kept with its answer.\<close>

fun check_paths :: "network \<Rightarrow> path_info list \<Rightarrow> world \<Rightarrow> (path_info \<times> bool) list \<times> world" where
  "check_paths nt [] w = ([], w)"
| "check_paths nt (info # infos) w =
     (let ((exists, _), w1) = manifest_exists nt (get_path_hash (pi_path info)) w;
          (rest, w2) = check_paths nt infos w1
      in ((info, exists) # rest, w2))"

text \<open>The repairs: the uploads, the number of repaired entries and the index; None is the panic of
  \<open>AddEntry\<close>.\<close>

fun repair_paths ::
  "network \<Rightarrow> codecs \<Rightarrow> (path_info \<times> bool) list \<Rightarrow> cache_index \<Rightarrow> world
    \<Rightarrow> (path_info list \<times> nat \<times> cache_index) option \<times> world" where
  "repair_paths nt cd [] index w = (Some ([], 0, index), w)"
| "repair_paths nt cd ((info, exists) # rest) index w =
     (if exists
      then case repair_index_entry nt cd (get_path_hash (pi_path info)) index w of
             (Inl err, w1) \<Rightarrow>
               (case repair_paths nt cd rest index w1 of
                  (None, w2) \<Rightarrow> (None, w2)
                | (Some (ups, n, idx), w2) \<Rightarrow> (Some (info # ups, n, idx), w2))
           | (Inr None, w1) \<Rightarrow> (None, w1)
           | (Inr (Some index'), w1) \<Rightarrow>
               (case repair_paths nt cd rest index' w1 of
                  (None, w2) \<Rightarrow> (None, w2)
                | (Some (ups, n, idx), w2) \<Rightarrow> (Some (ups, Suc n, idx), w2))
      else case repair_paths nt cd rest index w of
             (None, w2) \<Rightarrow> (None, w2)
           | (Some (ups, n, idx), w2) \<Rightarrow> (Some (info # ups, n, idx), w2))"

definition largest_first :: "path_info list \<Rightarrow> path_info list" where
  "largest_first infos = sort_key (\<lambda>info. - pi_nar_size info) infos"

definition stage_diff ::
  "network \<Rightarrow> codecs \<Rightarrow> nix_runner \<Rightarrow> (path_info list \<Rightarrow> path_info list) \<Rightarrow> publisher \<Rightarrow> string list \<Rightarrow> world
    \<Rightarrow> diff_result go_outcome \<times> world" where
  "stage_diff nt cd nx finish p inputs w =
     (case fetch_index nt cd w of
        (Inl err, w1) \<Rightarrow> (Failed (''failed to load index: '' @ err), w1)
      | (Inr index, w1) \<Rightarrow>
          (case manifest_exists nt ''noci-index'' w1 of ((_, digest), w2) \<Rightarrow>
             (case nx_closure nx inputs of
                Inl err \<Rightarrow> (Failed (''failed to get closure: '' @ err), w2)
              | Inr closure \<Rightarrow>
                  (case nx_infos nx closure of
                     Inl err \<Rightarrow> (Failed (''failed to get path infos: '' @ err), w2)
                   | Inr infos \<Rightarrow>
                       (let missing = missing_paths index (candidates p closure infos) in
                        if missing = []
                        then (Done \<lparr>df_uploads = [], df_index = index, df_digest = digest\<rparr>, w2)
                        else let (checks, w3) = check_paths nt (finish missing) w2 in
                          case repair_paths nt cd checks index w3 of
                            (None, w4) \<Rightarrow> (Panicked, w4)
                          | (Some (ups, n, index'), w4) \<Rightarrow>
                              (if 0 < n
                               then case push_index nt cd index' w4 of
                                      (Failed err, w5) \<Rightarrow> (Failed (''failed to push repaired index: '' @ err), w5)
                                    | (Panicked, w5) \<Rightarrow> (Panicked, w5)
                                    | (Done index'', w5) \<Rightarrow>
                                        (Done \<lparr>df_uploads = largest_first ups, df_index = index'', df_digest = digest\<rparr>, w5)
                               else (Done \<lparr>df_uploads = largest_first ups, df_index = index', df_digest = digest\<rparr>, w4)))))))"

section \<open>Uploads\<close>

text \<open>The errors of the library's decoders are named without their details.\<close>

definition hash_error_text :: "hash_error \<Rightarrow> string" where
  "hash_error_text e =
     (case e of
        BadSriBase64 \<Rightarrow> ''failed to decode SRI hash''
      | BadHexDigits \<Rightarrow> ''hex decode''
      | BadHashLength n \<Rightarrow> ''invalid sha256 byte length: '' @ show_nat n
      | UnknownHashFormat h \<Rightarrow> ''unknown hash format: '' @ h)"

definition or_empty :: "'e + string \<Rightarrow> string" where
  "or_empty r = (case r of Inl _ \<Rightarrow> [] | Inr s \<Rightarrow> s)"

definition publish_single ::
  "network \<Rightarrow> codecs \<Rightarrow> nix_runner \<Rightarrow> (bytes \<Rightarrow> string \<Rightarrow> bytes) \<Rightarrow> publisher \<Rightarrow> path_info
    \<Rightarrow> (string, progress) fmap option \<times> world \<Rightarrow> upload_result go_outcome \<times> (string, progress) fmap option \<times> world" where
  "publish_single nt cd nx sign p info cw =
     (case get_or_create (fst cw) (pi_path info) (nx_export nx (pi_path info) (pb_comp p) (pb_jobs p) (pb_level p)) of
        (Inl err, c) \<Rightarrow> (Failed (''export failed: '' @ err), c, snd cw)
      | (Inr entry, c) \<Rightarrow>
          (case upload_blob nt (cd_resolve cd) (nx_content nx (xe_file entry)) (xe_hash entry) (snd cw) of
             (Failed err, w1) \<Rightarrow> (Failed (''upload blob failed: '' @ err), c, w1)
           | (Panicked, w1) \<Rightarrow> (Panicked, c, w1)
           | (Done (digest, sz), w1) \<Rightarrow>
               (let bare = trim_prefix digest sha256_prefix;
                    file_hash = (case hex_to_nix_base32 bare of Inr b32 \<Rightarrow> b32 | Inl _ \<Rightarrow> bare)
                in case normalize_nar_hash (pi_nar_hash info) of
                     Inl e \<Rightarrow> (Failed (''normalize NarHash failed: '' @ hash_error_text e), c, w1)
                   | Inr nar_hash \<Rightarrow>
                       (case sign_path sign (pb_signer p) (pi_path info) nar_hash (pi_nar_size info) (pi_refs info) of
                          None \<Rightarrow> (Panicked, c, w1)
                        | Some sig \<Rightarrow>
                            (case generate_narinfo (pi_path info) nar_hash (pi_nar_size info) file_hash sz
                                    (pi_refs info) (pi_sigs info @ [sig]) (pb_comp p) of
                               None \<Rightarrow> (Panicked, c, w1)
                             | Some narinfo \<Rightarrow>
                                 (Done \<lparr>ur_hash = or_empty (parse_nix_hash (get_path_hash (pi_path info))),
                                        ur_name = get_path_name (pi_path info), ur_narinfo = narinfo,
                                        ur_digest = or_empty (parse_oci_digest digest), ur_size = sz,
                                        ur_refs = pi_refs info\<rparr>, c, w1))))))"

definition layer_media_type :: "string \<Rightarrow> string" where
  "layer_media_type compression =
     (case get_compressor compression of
        Inr c \<Rightarrow> compressor_media_type c
      | Inl _ \<Rightarrow> ''application/vnd.nix.cache.layer.v1+tar+gzip'')"

definition path_manifest :: "string \<Rightarrow> upload_result \<Rightarrow> oci_manifest" where
  "path_manifest compression res =
     annotated_manifest [\<lparr>ds_media = layer_media_type compression, ds_digest = ur_digest res, ds_size = ur_size res\<rparr>]
       [(''org.nix.narinfo'', ur_narinfo res), (''org.nix.name'', ur_name res),
        (''org.nix.references'', join '','' (ur_refs res))]"

text \<open>The uploads in the order in which they finish, up to the first that fails, which cancels the
  others.\<close>

fun upload_paths ::
  "network \<Rightarrow> codecs \<Rightarrow> nix_runner \<Rightarrow> (bytes \<Rightarrow> string \<Rightarrow> bytes) \<Rightarrow> publisher \<Rightarrow> path_info list
    \<Rightarrow> (string, progress) fmap option \<times> world
    \<Rightarrow> upload_result list go_outcome \<times> (string, progress) fmap option \<times> world" where
  "upload_paths nt cd nx sign p [] cw = (Done [], cw)"
| "upload_paths nt cd nx sign p (info # infos) cw =
     (case publish_single nt cd nx sign p info cw of
        (Failed err, cw1) \<Rightarrow> (Failed err, cw1)
      | (Panicked, cw1) \<Rightarrow> (Panicked, cw1)
      | (Done res, c, w1) \<Rightarrow>
          (case push_manifest nt cd (ur_hash res) (path_manifest (pb_comp p) res) w1 of
             (Some err, w2) \<Rightarrow> (Failed (''push manifest '' @ ur_hash res @ '' failed: '' @ err), c, w2)
           | (None, w2) \<Rightarrow>
               (case upload_paths nt cd nx sign p infos (c, w2) of
                  (Done rest, cw3) \<Rightarrow> (Done (res # rest), cw3)
                | (Failed err, cw3) \<Rightarrow> (Failed err, cw3)
                | (Panicked, cw3) \<Rightarrow> (Panicked, cw3))))"

section \<open>The late merge\<close>

fun add_results :: "network \<Rightarrow> upload_result list \<Rightarrow> cache_index \<Rightarrow> world \<Rightarrow> cache_index option \<times> world" where
  "add_results nt [] index w = (Some index, w)"
| "add_results nt (res # rest) index w =
     (let (now, w1) = read_clock nt w
      in case add_entry (ur_hash res) (ur_name res) (ur_narinfo res) (ur_digest res) (ur_size res) (ur_refs res) now index of
           None \<Rightarrow> (None, w1)
         | Some index' \<Rightarrow> add_results nt rest index' w1)"

definition merge_target :: "network \<Rightarrow> codecs \<Rightarrow> cache_index \<Rightarrow> string \<Rightarrow> world \<Rightarrow> (string + cache_index) \<times> world" where
  "merge_target nt cd initial digest w =
     (case manifest_exists nt ''noci-index'' w of ((_, current), w1) \<Rightarrow>
        (if current \<noteq> [] \<and> current = digest then (Inr initial, w1)
         else case fetch_index nt cd w1 of
                (Inl err, w2) \<Rightarrow> (Inl (''failed to re-fetch index for late merge: '' @ err), w2)
              | (Inr fresh, w2) \<Rightarrow> (Inr fresh, w2)))"

text \<open>The result is the index as it was pushed, if it was.\<close>

definition stage_merge ::
  "network \<Rightarrow> codecs \<Rightarrow> cache_index \<Rightarrow> string \<Rightarrow> upload_result list \<Rightarrow> world
    \<Rightarrow> cache_index option go_outcome \<times> world" where
  "stage_merge nt cd initial digest results w =
     (if results = [] then (Done None, w)
      else case merge_target nt cd initial digest w of
             (Inl err, w1) \<Rightarrow> (Failed err, w1)
           | (Inr target_index, w1) \<Rightarrow>
               (case add_results nt results target_index w1 of
                  (None, w2) \<Rightarrow> (Panicked, w2)
                | (Some merged, w2) \<Rightarrow>
                    (case push_index nt cd merged w2 of
                       (Failed err, w3) \<Rightarrow> (Failed err, w3)
                     | (Panicked, w3) \<Rightarrow> (Panicked, w3)
                     | (Done pushed, w3) \<Rightarrow> (Done (Some pushed), w3))))"

section \<open>The pipeline\<close>

definition publish_to_registry ::
  "network \<Rightarrow> codecs \<Rightarrow> nix_runner \<Rightarrow> (bytes \<Rightarrow> string \<Rightarrow> bytes) \<Rightarrow> (path_info list \<Rightarrow> path_info list)
    \<Rightarrow> (path_info list \<Rightarrow> path_info list) \<Rightarrow> publisher \<Rightarrow> string list \<Rightarrow> (string, progress) fmap option \<times> world
    \<Rightarrow> cache_index option go_outcome \<times> (string, progress) fmap option \<times> world" where
  "publish_to_registry nt cd nx sign finish finish2 p inputs cw =
     (case ensure_public_key nt cd p (snd cw) of
        (Panicked, w1) \<Rightarrow> (Panicked, fst cw, w1)
      | (_, w1) \<Rightarrow>
          (case stage_diff nt cd nx finish p inputs w1 of
             (Failed err, w2) \<Rightarrow> (Failed (''pipeline stage diff-index failed: '' @ err), fst cw, w2)
           | (Panicked, w2) \<Rightarrow> (Panicked, fst cw, w2)
           | (Done dr, w2) \<Rightarrow>
               (if df_uploads dr = [] then (Done None, fst cw, w2)
                else case upload_paths nt cd nx sign p (finish2 (df_uploads dr)) (fst cw, w2) of
                       (Failed err, cw3) \<Rightarrow> (Failed (''pipeline stage upload failed: '' @ err), cw3)
                     | (Panicked, cw3) \<Rightarrow> (Panicked, cw3)
                     | (Done results, c, w3) \<Rightarrow>
                         (case stage_merge nt cd (df_index dr) (df_digest dr) results w3 of
                            (Failed err, w4) \<Rightarrow> (Failed (''pipeline stage merge-index failed: '' @ err), c, w4)
                          | (Panicked, w4) \<Rightarrow> (Panicked, c, w4)
                          | (Done pushed, w4) \<Rightarrow> (Done pushed, c, w4)))))"

text \<open>The end of a push to several registries: it fails only when all of them failed; a panic in one
  goroutine ends the program. The outcomes are in the order in which the registries finish.\<close>

definition failed_errors :: "'a go_outcome list \<Rightarrow> string list" where
  "failed_errors outcomes = List.map_filter (\<lambda>r. case r of Failed err \<Rightarrow> Some err | _ \<Rightarrow> None) outcomes"

definition publish_verdict :: "'a go_outcome list \<Rightarrow> unit go_outcome" where
  "publish_verdict outcomes =
     (if list_ex (\<lambda>r. r = Panicked) outcomes then Panicked
      else case outcomes of
             [r] \<Rightarrow> (case r of Failed err \<Rightarrow> Failed err | _ \<Rightarrow> Done ())
           | _ \<Rightarrow> (if length (failed_errors outcomes) = length outcomes
                   then Failed (''all registries failed: ['' @ join '' '' (failed_errors outcomes) @ '']'') else Done ()))"

end
