(* ===== verification/Oci_Client.thy ===== *)
theory Oci_Client
  imports Oci_Manifest Go_Time
begin

text \<open>
  The client over the registry (\<open>pkg/oci/client.go\<close>): streaming a blob, the write probe, the status
  of a tag, and the progress messages with their sizes. The delegating methods are the operations of
  \<open>Oci_Manifest\<close> and \<open>Oci_Blob\<close>.
\<close>

section \<open>Construction\<close>

text \<open>None is the panic of \<open>NewClient\<close>.\<close>

definition new_client :: "string \<Rightarrow> string \<Rightarrow> string \<Rightarrow> world option" where
  "new_client registry repo token =
     (if registry = [] \<or> repo = [] then None
      else Some \<lparr>w_log = [], w_ticks = 0, w_sleeps = [], w_transport = new_transport registry repo token\<rparr>)"

section \<open>Streaming and probing\<close>

text \<open>\<open>copy\<close> is \<open>io.Copy\<close> of a body into the writer: what it passed on, and the error that ended it.\<close>

datatype stream_result = StreamDone string | StreamCut string string | BlobRedirect int string | StreamError string

definition client_stream_blob ::
  "network \<Rightarrow> (string \<Rightarrow> string \<times> string option) \<Rightarrow> string \<Rightarrow> world \<Rightarrow> stream_result \<times> world" where
  "client_stream_blob nt copy digest w =
     (case transport_raw_request nt ''GET'' (''/blobs/'' @ digest) None [] w of
        (Inl err, w1) \<Rightarrow> (StreamError err, w1)
      | (Inr resp, w1) \<Rightarrow>
          (if 300 \<le> ha_status resp \<and> ha_status resp < 400
           then (BlobRedirect (ha_status resp) (ha_header resp ''Location''), w1)
           else if ha_status resp \<noteq> 200
           then (StreamError (''blob streaming failed with status '' @ show_int (ha_status resp)), w1)
           else (case copy (ha_body resp) of
                   (sent, None) \<Rightarrow> StreamDone sent | (sent, Some err) \<Rightarrow> StreamCut sent err, w1)))"

definition probe_tag :: string where "probe_tag = ''noci-probe-write''"

definition auth_error :: "string \<Rightarrow> bool" where
  "auth_error err \<longleftrightarrow>
     (let e = to_lower err
      in str_contains e ''401'' \<or> str_contains e ''403'' \<or> str_contains e ''unauthorized'' \<or> str_contains e ''forbidden'')"

text \<open>The answer, and whether the probe is deleted in the background.\<close>

definition can_write :: "network \<Rightarrow> world \<Rightarrow> (bool \<times> bool) \<times> world" where
  "can_write nt w =
     (case transport_raw_request nt ''PUT'' (''/manifests/'' @ probe_tag) None [] w of
        (Inl err, w1) \<Rightarrow> ((\<not> auth_error err, False), w1)
      | (Inr resp, w1) \<Rightarrow>
          (if ha_status resp = 401 \<or> ha_status resp = 403 then ((False, False), w1) else ((True, True), w1)))"

definition probe_cleanup :: "network \<Rightarrow> codecs \<Rightarrow> world \<Rightarrow> world" where
  "probe_cleanup nt cd w = snd (delete_manifest nt cd probe_tag w)"

definition check_cache_status :: "network \<Rightarrow> codecs \<Rightarrow> string \<Rightarrow> world \<Rightarrow> (bool \<times> bool) \<times> world" where
  "check_cache_status nt cd tag w =
     (case transport_request nt ''HEAD'' (''/manifests/'' @ tag) None media_manifest w of
        (Inl err, w1) \<Rightarrow> ((False, False), w1)
      | (Inr resp, w1) \<Rightarrow>
          (if ha_status resp \<noteq> 200 then ((False, False), w1)
           else case fetch_manifest nt cd tag w1 of
                  (Inl err, w2) \<Rightarrow> ((True, False), w2)
                | (Inr m, w2) \<Rightarrow> ((True, annotation m ''org.nix.evicted'' = ''true''), w2)))"

section \<open>Sizes\<close>

text \<open>The verb \<open>%.1f\<close> on a float that is not negative: the exact value rounded to tenths, ties to even.\<close>

definition tenths :: "int \<times> nat \<Rightarrow> int" where
  "tenths x =
     (let d = 2 ^ snd x; q = 10 * fst x div d; r = 10 * fst x mod d
      in if 2 * r < d then q else if d < 2 * r then q + 1 else if even q then q else q + 1)"

definition format_1f :: "int \<times> nat \<Rightarrow> string" where
  "format_1f x = show_int (tenths x div 10) @ ''.'' @ show_int (tenths x mod 10)"

text \<open>The loop of \<open>FormatSize\<close>: the divisor and the exponent.\<close>

function size_scale :: "int \<Rightarrow> int \<Rightarrow> nat \<Rightarrow> int \<times> nat" where
  "size_scale n div_by e =
     (if n < 1024 then (div_by, e) else size_scale (n div 1024) (mul64 div_by 1024) (Suc e))"
  by pat_completeness auto

termination
  by (relation "measure (\<lambda>(n, d, e). nat n)") auto

declare size_scale.simps [simp del]

definition size_units_letters :: string where "size_units_letters = ''KMGTPE''"

definition format_size :: "int \<Rightarrow> string" where
  "format_size b =
     (if b < 1024 then show_int b @ '' B''
      else let (div_by, e) = size_scale (b div 1024) 1024 0
           in format_1f (f64_div (f64_of_int b) (f64_of_int div_by)) @ '' '' @ [size_units_letters ! e] @ ''B'')"

section \<open>Progress\<close>

record notifier =
  nf_tty :: bool
  nf_last_print :: time
  nf_last_bucket :: int
  nf_finished :: bool

definition new_notifier :: "bool \<Rightarrow> notifier" where
  "new_notifier tty = \<lparr>nf_tty = tty, nf_last_print = 0, nf_last_bucket = - 1, nf_finished = False\<rparr>"

definition percent :: "int \<Rightarrow> int \<Rightarrow> int \<times> nat" where
  "percent offset whole = f64_div (f64_mul (f64_of_int offset) (f64_of_int 100)) (f64_of_int whole)"

definition amount :: "int \<Rightarrow> int \<Rightarrow> string" where
  "amount offset whole = '' ('' @ format_size offset @ '' / '' @ format_size whole @ '')''"

text \<open>\<open>start\<close> is the text before the description, with its control sequence on a terminal.\<close>

fun bucket_lines :: "nat \<Rightarrow> string \<Rightarrow> string \<Rightarrow> int \<Rightarrow> int \<Rightarrow> int \<Rightarrow> string list" where
  "bucket_lines 0 start desc last_bucket offset whole = []"
| "bucket_lines (Suc n) start desc last_bucket offset whole =
     (start @ desc @ ''... '' @ show_int ((last_bucket + 1) * 10) @ ''%'' @ amount offset whole)
     # bucket_lines n start desc (last_bucket + 1) offset whole"

definition notify_update ::
  "string \<Rightarrow> string \<Rightarrow> time \<Rightarrow> string \<Rightarrow> int \<Rightarrow> int \<Rightarrow> notifier \<Rightarrow> string list \<times> notifier" where
  "notify_update tty_start start now desc offset whole n =
     (if whole \<le> 0 then ([], n)
      else let pct = percent offset whole
           in if nf_tty n
              then (if is_zero (nf_last_print n) \<or> offset = whole \<or> 200000000 \<le> time_sub now (nf_last_print n)
                    then ([tty_start @ desc @ ''... '' @ format_1f pct @ ''%'' @ amount offset whole],
                          n\<lparr>nf_last_print := now\<rparr>)
                    else ([], n))
              else let bucket = f64_trunc pct div 10; steps = nat (bucket - nf_last_bucket n)
                   in (bucket_lines steps start desc (nf_last_bucket n) offset whole,
                       n\<lparr>nf_last_bucket := max bucket (nf_last_bucket n)\<rparr>))"

definition notify_finish :: "notifier \<Rightarrow> bool \<times> notifier" where
  "notify_finish n = (if nf_finished n then (False, n) else (nf_tty n, n\<lparr>nf_finished := True\<rparr>))"

section \<open>Bounds\<close>

text \<open>The exponent always names a unit: the index of \<open>KMGTPE\<close> is in range for every size.\<close>

lemma size_scale_exponent:
  "n < 1024 ^ Suc k \<Longrightarrow> snd (size_scale n d e) \<le> e + k"
proof (induction k arbitrary: n d e)
  case 0
  then show ?case by (simp add: size_scale.simps)
next
  case (Suc k)
  show ?case
  proof (cases "n < 1024")
    case True
    then show ?thesis by (simp add: size_scale.simps)
  next
    case False
    have "n div 1024 < 1024 ^ Suc k" using Suc.prems by (simp add: div_less_iff_less_mult)
    from Suc.IH [OF this, of "mul64 d 1024" "Suc e"] False show ?thesis by (subst size_scale.simps) simp
  qed
qed

lemma format_size_unit_in_range:
  assumes "in64 b"
  shows "snd (size_scale (b div 1024) 1024 0) < length size_units_letters"
proof -
  have "b div 1024 < 1024 ^ Suc 5" using assms by (auto simp: in64_def max64_def)
  from size_scale_exponent [OF this, of 1024 0] show ?thesis by (simp add: size_units_letters_def)
qed

end
