(* ===== verification/Gc_Closure.thy ===== *)
theory Gc_Closure
  imports Oci_Index
begin

text \<open>
  The two graph traversals of \<open>pkg/gc/gc.go\<close>: \<open>scanClosure\<close>, the depth-first marking from the
  roots along References, and the breadth-first loop of \<open>CascadeEvict\<close> along the reversed
  references. Both are provers of one interface, \<open>graph_search\<close>: the result is the least set of
  index entries that holds the present starting points and is closed under the edges.
\<close>

section \<open>The interface of a traversal\<close>

locale graph_search =
  fixes nodes :: "'a set"
    and succ :: "'a \<Rightarrow> 'a set"
    and search :: "'a list \<Rightarrow> 'a set"
  assumes search_nodes: "search rs \<subseteq> nodes"
    and search_start: "r \<in> set rs \<Longrightarrow> r \<in> nodes \<Longrightarrow> r \<in> search rs"
    and search_closed: "x \<in> search rs \<Longrightarrow> y \<in> succ x \<Longrightarrow> y \<in> nodes \<Longrightarrow> y \<in> search rs"
    and search_least: "(\<And>r. r \<in> set rs \<Longrightarrow> r \<in> nodes \<Longrightarrow> r \<in> S) \<Longrightarrow>
      (\<And>x y. x \<in> S \<Longrightarrow> x \<in> nodes \<Longrightarrow> y \<in> succ x \<Longrightarrow> y \<in> nodes \<Longrightarrow> y \<in> S) \<Longrightarrow> search rs \<subseteq> S"
begin

lemma search_mono: "set rs \<inter> nodes \<subseteq> search rs' \<Longrightarrow> search rs \<subseteq> search rs'"
  by (rule search_least) (auto intro: search_closed)

lemma search_subset: "set rs \<subseteq> set rs' \<Longrightarrow> search rs \<subseteq> search rs'"
  by (rule search_mono) (auto intro: search_start)

lemma search_cong: "set rs = set rs' \<Longrightarrow> search rs = search rs'"
  by (metis search_subset subset_antisym subset_refl)

lemma search_append: "search (rs @ rs') = search rs \<union> search rs'"
proof
  show "search (rs @ rs') \<subseteq> search rs \<union> search rs'"
    by (rule search_least) (auto intro: search_start search_closed)
  show "search rs \<union> search rs' \<subseteq> search (rs @ rs')"
    by (auto intro: search_subset [THEN subsetD, rotated])
qed

definition edge :: "('a \<times> 'a) set" where
  "edge = {(x, y). x \<in> nodes \<and> y \<in> succ x \<and> y \<in> nodes}"

lemma search_eq_rtrancl: "search rs = edge\<^sup>* `` (set rs \<inter> nodes)"
proof
  show "search rs \<subseteq> edge\<^sup>* `` (set rs \<inter> nodes)"
    by (rule search_least) (auto simp: edge_def intro: rtrancl_into_rtrancl)
  show "edge\<^sup>* `` (set rs \<inter> nodes) \<subseteq> search rs"
  proof clarify
    fix x y assume "(x, y) \<in> edge\<^sup>*" "x \<in> set rs" "x \<in> nodes"
    then show "y \<in> search rs"
      by (induction rule: rtrancl_induct) (auto simp: edge_def intro: search_start search_closed)
  qed
qed

end

section \<open>References between entries\<close>

definition get_hash_from_path :: "string \<Rightarrow> string" where
  "get_hash_from_path sp =
     (let base = path_base sp
      in if length base < 32 then []
         else let hash = take 32 base in if \<not> nix_hash_regex hash then [] else hash)"

text \<open>The hashes an entry refers to, in the order of its References, without the malformed ones.\<close>

definition ref_hashes :: "index_item \<Rightarrow> string list" where
  "ref_hashes it = filter (\<lambda>h. h \<noteq> []) (map get_hash_from_path (it_references it))"

definition refs_of :: "(string, index_item) fmap \<Rightarrow> string \<Rightarrow> string set" where
  "refs_of E h = (case fmlookup E h of None \<Rightarrow> {} | Some it \<Rightarrow> set (ref_hashes it))"

lemma get_hash_from_path_store:
  "nix_hash_regex h \<Longrightarrow> CHR ''/'' \<notin> set n \<Longrightarrow> get_hash_from_path (store_prefix @ h @ CHR ''-'' # n) = h"
proof -
  assume h: "nix_hash_regex h" and n: "CHR ''/'' \<notin> set n"
  have "path_base (''/nix/store'' @ CHR ''/'' # (h @ CHR ''-'' # n)) = h @ CHR ''-'' # n"
    using n nix_hash_regexD(7) [OF h] by (intro path_base_append) auto
  moreover have "store_prefix @ h @ CHR ''-'' # n = ''/nix/store'' @ CHR ''/'' # (h @ CHR ''-'' # n)"
    by (simp add: store_prefix_def)
  ultimately have "path_base (store_prefix @ h @ CHR ''-'' # n) = h @ CHR ''-'' # n" by metis
  then show ?thesis
    using h nix_hash_regexD(1) [OF h] by (simp add: get_hash_from_path_def)
qed

lemma nodes_eq: "h \<in> fmdom' E \<longleftrightarrow> fmlookup E h \<noteq> None"
  by (simp add: fmlookup_dom'_iff)

section \<open>Marking: scanClosure\<close>

lemma mark_decreases:
  "cur \<notin> M \<Longrightarrow> fmlookup E cur = Some it \<Longrightarrow> card (fmdom' E - insert cur M) < card (fmdom' E - M)"
proof -
  assume "cur \<notin> M" "fmlookup E cur = Some it"
  then have "cur \<in> fmdom' E - M" by (simp add: fmlookup_dom'_iff)
  then have "card (fmdom' E - M - {cur}) < card (fmdom' E - M)"
    by (intro card_Diff1_less) simp_all
  moreover have "fmdom' E - insert cur M = fmdom' E - M - {cur}" by blast
  ultimately show ?thesis by simp
qed

text \<open>
  The work list is the Go slice read from its end: its head is \<open>queue[len(queue)-1]\<close>.
\<close>

function scan_loop :: "(string, index_item) fmap \<Rightarrow> string list \<Rightarrow> string set \<Rightarrow> string set" where
  "scan_loop E [] marked = marked"
| "scan_loop E (cur # queue) marked =
     (if cur \<in> marked then scan_loop E queue marked
      else case fmlookup E cur of
        None \<Rightarrow> scan_loop E queue marked
      | Some entry \<Rightarrow>
          (let marked' = insert cur marked;
               pushed = filter (\<lambda>h. h \<noteq> [] \<and> h \<notin> marked') (map get_hash_from_path (it_references entry))
           in scan_loop E (rev pushed @ queue) marked'))"
  by pat_completeness auto

termination
  by (relation "measures [\<lambda>(E, q, M). card (fmdom' E - M), \<lambda>(E, q, M). length q]")
    (auto simp: mark_decreases)

definition scan_closure :: "(string, index_item) fmap \<Rightarrow> string list \<Rightarrow> string set \<Rightarrow> string set" where
  "scan_closure E active_roots marked = scan_loop E (rev active_roots) marked"

lemma pushed_set:
  "fmlookup E c = Some it \<Longrightarrow>
    set (rev (filter (\<lambda>h. h \<noteq> [] \<and> h \<notin> M) (map get_hash_from_path (it_references it)))) = refs_of E c - M"
  by (auto simp: refs_of_def ref_hashes_def)

lemma scan_loop_sub: "M \<subseteq> scan_loop E q M"
  by (induction E q M rule: scan_loop.induct) (auto simp: Let_def split: option.splits)

lemma scan_loop_queue: "x \<in> set q \<Longrightarrow> x \<in> fmdom' E \<Longrightarrow> x \<in> scan_loop E q M"
proof (induction E q M rule: scan_loop.induct)
  case (2 E cur queue M)
  show ?case
  proof (cases "cur \<in> M \<or> fmlookup E cur = None")
    case True
    with 2 scan_loop_sub [of M E queue] show ?thesis
      by (cases "x = cur") (auto simp: nodes_eq)
  next
    case False
    then obtain it where it: "cur \<notin> M" "fmlookup E cur = Some it" by auto
    let ?p = "rev (filter (\<lambda>h. h \<noteq> [] \<and> h \<notin> insert cur M) (map get_hash_from_path (it_references it)))"
    have "x \<in> scan_loop E (?p @ queue) (insert cur M)"
    proof (cases "x = cur")
      case True
      then show ?thesis using scan_loop_sub [of "insert cur M" E "?p @ queue"] by auto
    next
      case False
      with 2 it show ?thesis by (auto simp: Let_def)
    qed
    with it show ?thesis by (simp add: Let_def)
  qed
qed simp

lemma scan_loop_closed:
  "(\<And>x y. x \<in> M \<Longrightarrow> y \<in> refs_of E x \<Longrightarrow> y \<in> fmdom' E \<Longrightarrow> y \<in> M \<or> y \<in> set q) \<Longrightarrow>
    x \<in> scan_loop E q M \<Longrightarrow> y \<in> refs_of E x \<Longrightarrow> y \<in> fmdom' E \<Longrightarrow> y \<in> scan_loop E q M"
proof (induction E q M rule: scan_loop.induct)
  case (1 E M)
  then show ?case by auto
next
  case (2 E cur queue M)
  show ?case
  proof (cases "cur \<in> M \<or> fmlookup E cur = None")
    case True
    have c: "y \<in> M \<or> y \<in> set queue" if "x \<in> M" "y \<in> refs_of E x" "y \<in> fmdom' E" for x y
      using 2(4) [OF that] True that by (auto simp: nodes_eq)
    show ?thesis
      using True 2(5-7) by (cases "cur \<in> M") (use "2.IH" c in auto)
  next
    case False
    then obtain it where it: "cur \<notin> M" "fmlookup E cur = Some it" by auto
    let ?M = "insert cur M"
    let ?p = "rev (filter (\<lambda>h. h \<noteq> [] \<and> h \<notin> ?M) (map get_hash_from_path (it_references it)))"
    have p: "set ?p = refs_of E cur - ?M" by (rule pushed_set [OF it(2)])
    have c: "y \<in> ?M \<or> y \<in> set (?p @ queue)" if "x \<in> ?M" "y \<in> refs_of E x" "y \<in> fmdom' E" for x y
      using 2(4) [of x y] that p by auto
    have "y \<in> scan_loop E (?p @ queue) ?M"
      using it 2(5-7) by (intro "2.IH"(3) [OF it refl refl c]) (simp_all add: Let_def)
    with it show ?thesis by (simp add: Let_def)
  qed
qed

lemma scan_loop_least:
  "M \<subseteq> S \<Longrightarrow> set q \<inter> fmdom' E \<subseteq> S \<Longrightarrow>
    (\<And>x y. x \<in> S \<Longrightarrow> x \<in> fmdom' E \<Longrightarrow> y \<in> refs_of E x \<Longrightarrow> y \<in> fmdom' E \<Longrightarrow> y \<in> S) \<Longrightarrow>
    scan_loop E q M \<subseteq> S"
proof (induction E q M rule: scan_loop.induct)
  case (2 E cur queue M)
  show ?case
  proof (cases "cur \<in> M \<or> fmlookup E cur = None")
    case True
    with 2 show ?thesis by (cases "cur \<in> M") auto
  next
    case False
    then obtain it where it: "cur \<notin> M" "fmlookup E cur = Some it" by auto
    let ?M = "insert cur M"
    let ?p = "rev (filter (\<lambda>h. h \<noteq> [] \<and> h \<notin> ?M) (map get_hash_from_path (it_references it)))"
    have p: "set ?p = refs_of E cur - ?M" by (rule pushed_set [OF it(2)])
    have cur: "cur \<in> S" "cur \<in> fmdom' E" using 2(5) it by (auto simp: nodes_eq)
    have "scan_loop E (?p @ queue) ?M \<subseteq> S"
    proof (rule "2.IH"(3) [OF it refl refl])
      show "?M \<subseteq> S" using 2(4) cur by simp
      show "set (?p @ queue) \<inter> fmdom' E \<subseteq> S" using 2(5,6) cur p by auto
    qed (use 2(6) in blast)
    with it show ?thesis by (simp add: Let_def)
  qed
qed simp

lemma scan_loop_nodes: "M \<subseteq> fmdom' E \<Longrightarrow> scan_loop E q M \<subseteq> fmdom' E"
  by (rule scan_loop_least) auto

interpretation scan: graph_search "fmdom' E" "refs_of E" "\<lambda>rs. scan_closure E rs {}" for E
proof
  fix rs :: "string list" and r x y :: string and S :: "string set"
  show "scan_closure E rs {} \<subseteq> fmdom' E"
    by (simp add: scan_closure_def scan_loop_nodes)
  show "r \<in> scan_closure E rs {}" if "r \<in> set rs" "r \<in> fmdom' E"
    using that by (simp add: scan_closure_def scan_loop_queue)
  show "y \<in> scan_closure E rs {}"
    if "x \<in> scan_closure E rs {}" "y \<in> refs_of E x" "y \<in> fmdom' E"
    using that scan_loop_closed [of "{}" E "rev rs" x y] by (simp add: scan_closure_def)
  show "scan_closure E rs {} \<subseteq> S"
    if "\<And>r. r \<in> set rs \<Longrightarrow> r \<in> fmdom' E \<Longrightarrow> r \<in> S"
      and "\<And>x y. x \<in> S \<Longrightarrow> x \<in> fmdom' E \<Longrightarrow> y \<in> refs_of E x \<Longrightarrow> y \<in> fmdom' E \<Longrightarrow> y \<in> S"
    unfolding scan_closure_def using that by (intro scan_loop_least) auto
qed

section \<open>Cascading eviction\<close>

text \<open>
  The reverse-dependency map: for every entry in the order of the loop, its key is appended under
  each of its well-formed references.
\<close>

definition rev_deps :: "string list \<Rightarrow> (string, index_item) fmap \<Rightarrow> string \<Rightarrow> string list" where
  "rev_deps ord E k =
     concat (map (\<lambda>h. case fmlookup E h of None \<Rightarrow> []
       | Some it \<Rightarrow> map (\<lambda>_. h) (filter (\<lambda>r. r = k) (ref_hashes it))) ord)"

function cascade_loop ::
  "(string, index_item) fmap \<Rightarrow> (string \<Rightarrow> string list) \<Rightarrow> string list \<Rightarrow> string set \<Rightarrow> string set" where
  "cascade_loop E deps [] evicted = evicted"
| "cascade_loop E deps (cur # queue) evicted =
     (if cur \<in> evicted then cascade_loop E deps queue evicted
      else if fmlookup E cur = None then cascade_loop E deps queue evicted
      else cascade_loop E deps (queue @ deps cur) (insert cur evicted))"
  by pat_completeness auto
termination
  by (relation "measures [\<lambda>(E, d, q, M). card (fmdom' E - M), \<lambda>(E, d, q, M). length q]")
    (auto simp: mark_decreases)

lemma rev_deps_set:
  "set ord = fmdom' E \<Longrightarrow> set (rev_deps ord E k) = {h \<in> fmdom' E. k \<in> refs_of E h}"
  by (auto simp: rev_deps_def refs_of_def nodes_eq split: option.splits) force

lemma cascade_sub: "M \<subseteq> cascade_loop E d q M"
  by (induction E d q M rule: cascade_loop.induct) auto

lemma cascade_queue: "x \<in> set q \<Longrightarrow> x \<in> fmdom' E \<Longrightarrow> x \<in> cascade_loop E d q M"
proof (induction E d q M rule: cascade_loop.induct)
  case (2 E d cur queue M)
  then show ?case
    using cascade_sub [of M E d queue] cascade_sub [of "insert cur M" E d "queue @ d cur"]
    by (cases "x = cur") (auto simp: nodes_eq)
qed simp

lemma cascade_closed:
  "(\<And>x y. x \<in> M \<Longrightarrow> y \<in> set (d x) \<Longrightarrow> y \<in> fmdom' E \<Longrightarrow> y \<in> M \<or> y \<in> set q) \<Longrightarrow>
    x \<in> cascade_loop E d q M \<Longrightarrow> y \<in> set (d x) \<Longrightarrow> y \<in> fmdom' E \<Longrightarrow> y \<in> cascade_loop E d q M"
proof (induction E d q M rule: cascade_loop.induct)
  case (1 E d M)
  then show ?case by auto
next
  case (2 E d cur queue M)
  show ?case
  proof (cases "cur \<in> M \<or> fmlookup E cur = None")
    case True
    have c: "y \<in> M \<or> y \<in> set queue" if "x \<in> M" "y \<in> set (d x)" "y \<in> fmdom' E" for x y
      using 2(4) [OF that] True that by (auto simp: nodes_eq)
    show ?thesis
      using True 2(5-7) by (cases "cur \<in> M") (use "2.IH" c in auto)
  next
    case False
    have c: "y \<in> insert cur M \<or> y \<in> set (queue @ d cur)"
      if "x \<in> insert cur M" "y \<in> set (d x)" "y \<in> fmdom' E" for x y
      using 2(4) [of x y] that by auto
    have "y \<in> cascade_loop E d (queue @ d cur) (insert cur M)"
      using False 2(5-7) by (intro "2.IH"(3) [OF _ _ c]) auto
    with False show ?thesis by (simp only: cascade_loop.simps de_Morgan_disj if_False)
  qed
qed

lemma cascade_least:
  "M \<subseteq> S \<Longrightarrow> set q \<inter> fmdom' E \<subseteq> S \<Longrightarrow>
    (\<And>x y. x \<in> S \<Longrightarrow> x \<in> fmdom' E \<Longrightarrow> y \<in> set (d x) \<Longrightarrow> y \<in> fmdom' E \<Longrightarrow> y \<in> S) \<Longrightarrow>
    cascade_loop E d q M \<subseteq> S"
proof (induction E d q M rule: cascade_loop.induct)
  case (2 E d cur queue M)
  show ?case
  proof (cases "cur \<in> M \<or> fmlookup E cur = None")
    case True
    with 2 show ?thesis by (cases "cur \<in> M") auto
  next
    case False
    then have cur: "cur \<in> S" "cur \<in> fmdom' E" using 2(5) by (auto simp: nodes_eq)
    have "cascade_loop E d (queue @ d cur) (insert cur M) \<subseteq> S"
    proof (rule "2.IH"(3))
      show "insert cur M \<subseteq> S" using 2(4) cur by simp
      show "set (queue @ d cur) \<inter> fmdom' E \<subseteq> S" using 2(5,6) cur by auto
    qed (use False 2(6) in auto)
    with False show ?thesis by (simp only: cascade_loop.simps de_Morgan_disj if_False)
  qed
qed simp

interpretation cascade: graph_search "fmdom' E" "\<lambda>x. set (d x)" "\<lambda>rs. cascade_loop E d rs {}" for E d
proof
  fix rs :: "string list" and r x y :: string and S :: "string set"
  show "cascade_loop E d rs {} \<subseteq> fmdom' E"
    by (rule cascade_least) auto
  show "r \<in> cascade_loop E d rs {}" if "r \<in> set rs" "r \<in> fmdom' E"
    using that by (rule cascade_queue)
  show "y \<in> cascade_loop E d rs {}"
    if "x \<in> cascade_loop E d rs {}" "y \<in> set (d x)" "y \<in> fmdom' E"
    using that cascade_closed [of "{}" d E rs x y] by simp
  show "cascade_loop E d rs {} \<subseteq> S"
    if "\<And>r. r \<in> set rs \<Longrightarrow> r \<in> fmdom' E \<Longrightarrow> r \<in> S"
      and "\<And>x y. x \<in> S \<Longrightarrow> x \<in> fmdom' E \<Longrightarrow> y \<in> set (d x) \<Longrightarrow> y \<in> fmdom' E \<Longrightarrow> y \<in> S"
    using that by (intro cascade_least) auto
qed

end
