(* ===== verification/Gc_Engine.thy ===== *)
theory Gc_Engine
  imports Gc_Closure "HOL-Library.Multiset"
begin

text \<open>
  The mark-sweep engine of \<open>pkg/gc/gc.go\<close>: \<open>Sweep\<close> phase by phase, \<open>CascadeEvict\<close> and
  \<open>Apply\<close>. Each loop over a Go map takes its own iteration order. \<open>sort.Slice\<close> is not stable;
  the lists it sorts come from map iterations in an arbitrary order, and a stable sort of an
  arbitrary order gives every sorted arrangement, so \<open>sort_key\<close> loses no behaviour.
\<close>

section \<open>Engine and result\<close>

record engine =
  en_index :: cache_index
  en_grace :: duration
  en_keep :: int

definition new_engine :: "cache_index option \<Rightarrow> duration \<Rightarrow> engine option" where
  "new_engine index grace =
     map_option (\<lambda>idx. \<lparr>en_index = idx, en_grace = grace, en_keep = 0\<rparr>) index"

definition set_keep_versions :: "int \<Rightarrow> engine \<Rightarrow> engine" where
  "set_keep_versions n e = e\<lparr>en_keep := n\<rparr>"

record gc_result =
  gr_original_count :: int
  gr_original_size :: int
  gr_retained_count :: int
  gr_retained_size :: int
  gr_evicted_count :: int
  gr_evicted_size :: int
  gr_evicted_keys :: "string list"
  gr_expired_roots :: "string list"

text \<open>The iteration orders of the loops of \<open>Sweep\<close>, in the order of the loops.\<close>

record sweep_order =
  so_sum :: "string list"
  so_roots :: "string list"
  so_part :: "string list"
  so_group :: "string list"
  so_bases :: "string list"
  so_cand :: "string list"

section \<open>Package names\<close>

text \<open>The two loops count an index down from the last part to 1.\<close>

fun find_down :: "(string \<Rightarrow> bool) \<Rightarrow> string list \<Rightarrow> nat \<Rightarrow> nat option" where
  "find_down P parts 0 = None"
| "find_down P parts (Suc i) = (if P (parts ! Suc i) then Some (Suc i) else find_down P parts i)"

definition starts_with_digit :: "string \<Rightarrow> bool" where
  "starts_with_digit p \<longleftrightarrow> p \<noteq> [] \<and> is_digit (hd p)"

definition base_package_name :: "string \<Rightarrow> string" where
  "base_package_name name =
     (let parts = split_on (CHR ''-'') name; n = length parts - 1
      in case find_down (\<lambda>p. starts_with_digit p \<and> (str_contains p ''.'' \<or> 4 \<le> length p)) parts n of
           Some i \<Rightarrow> join ''-'' (take i parts)
         | None \<Rightarrow>
             (case find_down starts_with_digit parts n of
                Some i \<Rightarrow> join ''-'' (take i parts)
              | None \<Rightarrow> name))"

section \<open>Sweep\<close>

definition root_expired :: "time \<Rightarrow> gc_root \<Rightarrow> bool" where
  "root_expired now root \<longleftrightarrow>
     0 < rt_ttl root \<and> add64 (unix (rt_pinned_at root)) (rt_ttl root) < unix now"

definition select_roots :: "(gc_root \<Rightarrow> bool) \<Rightarrow> (string, gc_root) fmap \<Rightarrow> string list \<Rightarrow> string list" where
  "select_roots P R ord = filter (\<lambda>h. case fmlookup R h of None \<Rightarrow> False | Some r \<Rightarrow> P r) ord"

definition size_at :: "(string, index_item) fmap \<Rightarrow> string \<Rightarrow> int" where
  "size_at E h = (case fmlookup E h of None \<Rightarrow> 0 | Some it \<Rightarrow> it_nar_size it)"

definition last_used_at :: "(string, index_item) fmap \<Rightarrow> string \<Rightarrow> time" where
  "last_used_at E h = (case fmlookup E h of None \<Rightarrow> 0 | Some it \<Rightarrow> it_last_used it)"

definition uploaded_at :: "(string, index_item) fmap \<Rightarrow> string \<Rightarrow> time" where
  "uploaded_at E h = (case fmlookup E h of None \<Rightarrow> 0 | Some it \<Rightarrow> it_uploaded_at it)"

definition name_at :: "(string, index_item) fmap \<Rightarrow> string \<Rightarrow> string" where
  "name_at E h = (case fmlookup E h of None \<Rightarrow> [] | Some it \<Rightarrow> it_name it)"

record sweep_state =
  ss_marked :: "string set"
  ss_retained :: int
  ss_candidates :: "string list"

definition in_grace :: "engine \<Rightarrow> time \<Rightarrow> string \<Rightarrow> bool" where
  "in_grace e now h \<longleftrightarrow> time_sub now (uploaded_at (entries_of (en_index e)) h) < en_grace e"

text \<open>Phase 3: one iteration of the loop that protects recent uploads and collects candidates.\<close>

definition grace_step :: "engine \<Rightarrow> time \<Rightarrow> string \<Rightarrow> sweep_state \<Rightarrow> sweep_state" where
  "grace_step e now h st =
     (let E = entries_of (en_index e) in
      if h \<in> ss_marked st then st\<lparr>ss_retained := add64 (ss_retained st) (size_at E h)\<rparr>
      else if in_grace e now h
      then st\<lparr>ss_marked := insert h (ss_marked st), ss_retained := add64 (ss_retained st) (size_at E h)\<rparr>
      else st\<lparr>ss_candidates := ss_candidates st @ [h]\<rparr>)"

text \<open>Phase 3.5: groups of unmarked entries by base name; the newest of a large group are kept.\<close>

definition version_group :: "(string, index_item) fmap \<Rightarrow> string set \<Rightarrow> string list \<Rightarrow> string \<Rightarrow> string list" where
  "version_group E marked ord base =
     filter (\<lambda>h. h \<notin> marked \<and> base_package_name (name_at E h) = base) ord"

definition newest_first :: "(string, index_item) fmap \<Rightarrow> string list \<Rightarrow> string list" where
  "newest_first E grp = sort_key (\<lambda>h. - uploaded_at E h) grp"

definition kept_versions :: "engine \<Rightarrow> string set \<Rightarrow> string list \<Rightarrow> string \<Rightarrow> string list" where
  "kept_versions e marked ord base =
     (let E = entries_of (en_index e); grp = version_group E marked ord base
      in if int (length grp) \<le> en_keep e then [] else take (nat (en_keep e)) (newest_first E grp))"

definition keep_one :: "(string, index_item) fmap \<Rightarrow> sweep_state \<Rightarrow> string \<Rightarrow> sweep_state" where
  "keep_one E st h =
     st\<lparr>ss_marked := insert h (ss_marked st), ss_retained := add64 (ss_retained st) (size_at E h)\<rparr>"

definition keep_phase :: "engine \<Rightarrow> sweep_order \<Rightarrow> sweep_state \<Rightarrow> sweep_state" where
  "keep_phase e ord st =
     (if 0 < en_keep e
      then let E = entries_of (en_index e);
               kept = concat (map (kept_versions e (ss_marked st) (so_group ord)) (so_bases ord));
               st' = foldl (keep_one E) st kept
           in st'\<lparr>ss_candidates := filter (\<lambda>h. h \<notin> ss_marked st') (so_cand ord)\<rparr>
      else st)"

text \<open>
  Phase 4: the loop over the sorted candidates under a quota. Its marks are never read again and
  are left out. The result is the retained size, the evicted keys and the evicted size.
\<close>

fun shrink_loop ::
  "(string, index_item) fmap \<Rightarrow> int \<Rightarrow> string list \<Rightarrow> int \<Rightarrow> int \<Rightarrow> string list \<Rightarrow> int
    \<Rightarrow> int \<times> string list \<times> int" where
  "shrink_loop E max_size [] current retained keys sz = (retained, keys, sz)"
| "shrink_loop E max_size (h # hs) current retained keys sz =
     (if current \<le> max_size
      then shrink_loop E max_size hs current (add64 retained (size_at E h)) keys sz
      else shrink_loop E max_size hs (sub64 current (size_at E h)) retained (keys @ [h])
             (add64 sz (size_at E h)))"

definition sweep_roots :: "engine \<Rightarrow> sweep_order \<Rightarrow> time \<Rightarrow> string list" where
  "sweep_roots e ord now = select_roots (\<lambda>r. \<not> root_expired now r) (roots_of (en_index e)) (so_roots ord)"

text \<open>Phases 1 to 3.5.\<close>

definition sweep_marks :: "engine \<Rightarrow> sweep_order \<Rightarrow> time \<Rightarrow> sweep_state" where
  "sweep_marks e ord now =
     (let E = entries_of (en_index e);
          marked = scan_closure E (sweep_roots e ord now) {};
          st = fold (grace_step e now) (so_part ord)
                 \<lparr>ss_marked = marked, ss_retained = 0, ss_candidates = []\<rparr>
      in keep_phase e ord st)"

definition sweep :: "engine \<Rightarrow> sweep_order \<Rightarrow> time \<Rightarrow> int \<Rightarrow> gc_result" where
  "sweep e ord now max_size =
     (let E = entries_of (en_index e);
          original = sum64_from 0 (map (size_at E) (so_sum ord));
          expired = select_roots (root_expired now) (roots_of (en_index e)) (so_roots ord);
          st = sweep_marks e ord now;
          candidates = sort_key (last_used_at E) (ss_candidates st);
          (retained, keys, sz) =
            (if 0 < max_size
             then shrink_loop E max_size candidates
                    (sum64_from (ss_retained st) (map (size_at E) candidates)) (ss_retained st) [] 0
             else (ss_retained st, candidates, sum64_from 0 (map (size_at E) candidates)));
          count = int (card (fmdom' E))
      in \<lparr>gr_original_count = count, gr_original_size = original,
          gr_retained_count = count - int (length keys), gr_retained_size = retained,
          gr_evicted_count = int (length keys), gr_evicted_size = sz,
          gr_evicted_keys = keys, gr_expired_roots = expired\<rparr>)"

definition apply_result :: "gc_result \<Rightarrow> cache_index \<Rightarrow> cache_index" where
  "apply_result r idx =
     idx\<lparr>ix_roots := foldl gm_del (ix_roots idx) (gr_expired_roots r),
         ix_entries := foldl gm_del (ix_entries idx) (gr_evicted_keys r)\<rparr>"

section \<open>Cascading eviction\<close>

text \<open>
  The loops over the local sets \<open>evictedSet\<close> and \<open>expiredSet\<close> visit their elements in the
  order of a list of the index's keys and of the keys and targets.
\<close>

record cascade_order =
  co_sum :: "string list"
  co_rev :: "string list"
  co_keys :: "string list"
  co_roots :: "string list"

definition cascade_evict :: "engine \<Rightarrow> cascade_order \<Rightarrow> string list \<Rightarrow> gc_result" where
  "cascade_evict e ord targets =
     (let E = entries_of (en_index e);
          original = sum64_from 0 (map (size_at E) (co_sum ord));
          evicted = cascade_loop E (rev_deps (co_rev ord) E) targets {};
          keys = filter (\<lambda>h. h \<in> evicted) (co_keys ord);
          sz = sum64_from 0 (map (size_at E) keys);
          expired = set targets \<union> {h \<in> evicted. fmlookup (roots_of (en_index e)) h \<noteq> None};
          count = int (card (fmdom' E))
      in \<lparr>gr_original_count = count, gr_original_size = original,
          gr_retained_count = count - int (length keys), gr_retained_size = sub64 original sz,
          gr_evicted_count = int (length keys), gr_evicted_size = sz,
          gr_evicted_keys = keys,
          gr_expired_roots = filter (\<lambda>h. h \<in> expired) (co_roots ord)\<rparr>)"

section \<open>Iteration orders\<close>

definition sweep_order_ok :: "sweep_order \<Rightarrow> engine \<Rightarrow> bool" where
  "sweep_order_ok ord e \<longleftrightarrow>
     (let E = entries_of (en_index e) in
      enumerates (so_sum ord) E \<and> enumerates (so_roots ord) (roots_of (en_index e))
      \<and> enumerates (so_part ord) E \<and> enumerates (so_group ord) E \<and> enumerates (so_cand ord) E
      \<and> distinct (so_bases ord)
      \<and> set (so_bases ord) = (\<lambda>h. base_package_name (name_at E h)) ` fmdom' E)"

definition cascade_order_ok :: "cascade_order \<Rightarrow> engine \<Rightarrow> string list \<Rightarrow> bool" where
  "cascade_order_ok ord e targets \<longleftrightarrow>
     (let E = entries_of (en_index e) in
      enumerates (co_sum ord) E \<and> enumerates (co_rev ord) E \<and> enumerates (co_keys ord) E
      \<and> distinct (co_roots ord) \<and> set (co_roots ord) = set targets \<union> fmdom' E)"

end
