(* ===== verification/Gc_Correct.thy ===== *)
theory Gc_Correct
  imports Gc_Engine
begin

text \<open>
  What the garbage collector guarantees: the traversals compute the live set and the set of
  dependents, \<open>Sweep\<close> partitions the index into a protected part, a retained part and evicted keys
  with exact accounting, and \<open>CascadeEvict\<close> leaves no reference to what it removes.
\<close>

section \<open>The live set and the dependents, abstractly\<close>

inductive_set live :: "(string, index_item) fmap \<Rightarrow> string set \<Rightarrow> string set"
  for E :: "(string, index_item) fmap" and R :: "string set" where
  live_root: "r \<in> R \<Longrightarrow> r \<in> fmdom' E \<Longrightarrow> r \<in> live E R"
| live_ref: "h \<in> live E R \<Longrightarrow> k \<in> refs_of E h \<Longrightarrow> k \<in> fmdom' E \<Longrightarrow> k \<in> live E R"

inductive_set dependents :: "(string, index_item) fmap \<Rightarrow> string set \<Rightarrow> string set"
  for E :: "(string, index_item) fmap" and T :: "string set" where
  dep_target: "t \<in> T \<Longrightarrow> t \<in> fmdom' E \<Longrightarrow> t \<in> dependents E T"
| dep_ref: "k \<in> dependents E T \<Longrightarrow> h \<in> fmdom' E \<Longrightarrow> k \<in> refs_of E h \<Longrightarrow> h \<in> dependents E T"

lemma live_nodes: "h \<in> live E R \<Longrightarrow> h \<in> fmdom' E"
  by (induction rule: live.induct) auto

lemma scan_closure_eq_live: "scan_closure E rs {} = live E (set rs)"
proof
  show "scan_closure E rs {} \<subseteq> live E (set rs)"
    by (rule scan.search_least) (auto intro: live.intros)
  show "live E (set rs) \<subseteq> scan_closure E rs {}"
  proof
    fix h assume "h \<in> live E (set rs)"
    then show "h \<in> scan_closure E rs {}"
      by (induction rule: live.induct) (auto intro: scan.search_start scan.search_closed)
  qed
qed

lemma cascade_eq_dependents:
  assumes "set ord = fmdom' E"
  shows "cascade_loop E (rev_deps ord E) ts {} = dependents E (set ts)"
proof
  note rd = rev_deps_set [OF assms]
  show "cascade_loop E (rev_deps ord E) ts {} \<subseteq> dependents E (set ts)"
    by (rule cascade.search_least) (auto simp: rd intro: dependents.intros)
  show "dependents E (set ts) \<subseteq> cascade_loop E (rev_deps ord E) ts {}"
  proof
    fix h assume "h \<in> dependents E (set ts)"
    then show "h \<in> cascade_loop E (rev_deps ord E) ts {}"
      by (induction rule: dependents.induct)
        (auto simp: rd intro: cascade.search_start cascade.search_closed)
  qed
qed

section \<open>Phases\<close>

lemma grace_fold:
  "distinct ks \<Longrightarrow>
    fold (grace_step e now) ks st =
      st\<lparr>ss_marked := ss_marked st \<union> {h \<in> set ks. in_grace e now h},
         ss_retained := sum64_from (ss_retained st)
           (map (size_at (entries_of (en_index e))) (filter (\<lambda>h. h \<in> ss_marked st \<or> in_grace e now h) ks)),
         ss_candidates := ss_candidates st @ filter (\<lambda>h. h \<notin> ss_marked st \<and> \<not> in_grace e now h) ks\<rparr>"
proof (induction ks arbitrary: st)
  case Nil
  then show ?case by simp
next
  case (Cons k ks)
  have f1: "filter (\<lambda>h. (h = k \<or> h \<in> M) \<or> in_grace e now h) ks = filter (\<lambda>h. h \<in> M \<or> in_grace e now h) ks"
    and f2: "filter (\<lambda>h. (h \<noteq> k \<and> h \<notin> M) \<and> \<not> in_grace e now h) ks = filter (\<lambda>h. h \<notin> M \<and> \<not> in_grace e now h) ks"
    for M using Cons.prems by (auto intro!: filter_cong)
  have "{h. (h = k \<or> h \<in> set ks) \<and> in_grace e now h}
      = (if in_grace e now k then insert k {h \<in> set ks. in_grace e now h} else {h \<in> set ks. in_grace e now h})"
    by auto
  with Cons f1 f2 show ?case
    by (simp add: grace_step_def Let_def insert_absorb)
qed

lemma keep_fold:
  "foldl (keep_one E) st kept =
    st\<lparr>ss_marked := ss_marked st \<union> set kept, ss_retained := sum64_from (ss_retained st) (map (size_at E) kept)\<rparr>"
  by (induction kept arbitrary: st) (simp_all add: keep_one_def)

lemma set_newest_first [simp]: "set (newest_first E g) = set g"
  and distinct_newest_first [simp]: "distinct (newest_first E g) = distinct g"
  and length_newest_first [simp]: "length (newest_first E g) = length g"
  by (simp_all add: newest_first_def)

lemma kept_versions_sub: "set (kept_versions e M ord b) \<subseteq> set (version_group (entries_of (en_index e)) M ord b)"
  by (auto simp: kept_versions_def Let_def dest: in_set_takeD)

lemma kept_versions_distinct: "distinct ord \<Longrightarrow> distinct (kept_versions e M ord b)"
  by (auto simp: kept_versions_def Let_def version_group_def)

lemma kept_all_distinct:
  assumes "distinct ord" and "distinct bs"
  shows "distinct (concat (map (kept_versions e M ord) bs))"
  using assms(2)
proof (induction bs)
  case (Cons b bs)
  have "set (kept_versions e M ord b) \<inter> set (kept_versions e M ord b') = {}" if "b' \<noteq> b" for b'
    using that kept_versions_sub [of e M ord b] kept_versions_sub [of e M ord b']
    by (auto simp: version_group_def)
  with Cons show ?case
    by (auto simp: kept_versions_distinct assms(1)) fastforce
qed simp

definition phase_ok :: "(string, index_item) fmap \<Rightarrow> sweep_state \<Rightarrow> bool" where
  "phase_ok E st \<longleftrightarrow> ss_marked st \<subseteq> fmdom' E \<and> distinct (ss_candidates st)
     \<and> set (ss_candidates st) = fmdom' E - ss_marked st
     \<and> ss_retained st = wrap64 (\<Sum>h \<in> ss_marked st. size_at E h)"

lemma orders:
  assumes "sweep_order_ok ord e"
  defines "E \<equiv> entries_of (en_index e)"
  shows "distinct (so_sum ord)" "set (so_sum ord) = fmdom' E"
    "distinct (so_part ord)" "set (so_part ord) = fmdom' E"
    "distinct (so_group ord)" "set (so_group ord) = fmdom' E"
    "distinct (so_cand ord)" "set (so_cand ord) = fmdom' E"
    "distinct (so_bases ord)" "distinct (so_roots ord)"
    "set (so_roots ord) = fmdom' (roots_of (en_index e))"
    "set (so_bases ord) = (\<lambda>h. base_package_name (name_at E h)) ` fmdom' E"
  using assms by (simp_all add: sweep_order_ok_def enumerates_def Let_def)

text \<open>After the grace phase.\<close>

definition grace_marks :: "engine \<Rightarrow> sweep_order \<Rightarrow> time \<Rightarrow> sweep_state" where
  "grace_marks e ord now =
     fold (grace_step e now) (so_part ord)
       \<lparr>ss_marked = scan_closure (entries_of (en_index e)) (sweep_roots e ord now) {},
        ss_retained = 0, ss_candidates = []\<rparr>"

lemma sweep_marks_keep: "sweep_marks e ord now = keep_phase e ord (grace_marks e ord now)"
  by (simp add: sweep_marks_def grace_marks_def Let_def)

definition protected :: "engine \<Rightarrow> time \<Rightarrow> string list \<Rightarrow> string set" where
  "protected e now rs =
     live (entries_of (en_index e)) (set rs)
     \<union> {h \<in> fmdom' (entries_of (en_index e)). in_grace e now h}"

lemma grace_marks_marked:
  assumes "sweep_order_ok ord e"
  shows "ss_marked (grace_marks e ord now) = protected e now (sweep_roots e ord now)"
  using orders [OF assms]
  by (simp add: grace_marks_def grace_fold scan_closure_eq_live protected_def)

lemma grace_marks_ok:
  assumes "sweep_order_ok ord e"
  shows "phase_ok (entries_of (en_index e)) (grace_marks e ord now)"
proof -
  let ?E = "entries_of (en_index e)"
  let ?L = "live ?E (set (sweep_roots e ord now))"
  note o = orders [OF assms]
  have st: "grace_marks e ord now =
    \<lparr>ss_marked = ?L \<union> {h \<in> fmdom' ?E. in_grace e now h},
     ss_retained = sum64_from 0 (map (size_at ?E) (filter (\<lambda>h. h \<in> ?L \<or> in_grace e now h) (so_part ord))),
     ss_candidates = filter (\<lambda>h. h \<notin> ?L \<and> \<not> in_grace e now h) (so_part ord)\<rparr>"
    using o by (simp add: grace_marks_def grace_fold scan_closure_eq_live)
  have "?L \<union> {h \<in> fmdom' ?E. in_grace e now h}
      = set (filter (\<lambda>h. h \<in> ?L \<or> in_grace e now h) (so_part ord))"
    using o live_nodes by auto
  with o show ?thesis
    by (auto simp: phase_ok_def st sum64_from_0 sum_list_map_set)
qed

lemma keep_phase_ok:
  assumes "sweep_order_ok ord e" and "phase_ok (entries_of (en_index e)) st"
  shows "phase_ok (entries_of (en_index e)) (keep_phase e ord st)"
    and "ss_marked st \<subseteq> ss_marked (keep_phase e ord st)"
proof -
  let ?E = "entries_of (en_index e)"
  let ?kept = "concat (map (kept_versions e (ss_marked st) (so_group ord)) (so_bases ord))"
  note o = orders [OF assms(1)]
  have sub: "set ?kept \<subseteq> fmdom' ?E - ss_marked st"
  proof
    fix h assume "h \<in> set ?kept"
    then obtain b where "h \<in> set (kept_versions e (ss_marked st) (so_group ord) b)" by auto
    then have "h \<in> set (version_group ?E (ss_marked st) (so_group ord) b)"
      using kept_versions_sub by blast
    then show "h \<in> fmdom' ?E - ss_marked st" using o(6) by (simp add: version_group_def)
  qed
  have dist: "distinct ?kept" using o by (intro kept_all_distinct) auto
  have fin: "finite (ss_marked st)" using assms(2) by (auto simp: phase_ok_def intro: finite_subset)
  have "(\<Sum>h \<in> ss_marked st \<union> set ?kept. size_at ?E h)
      = (\<Sum>h \<in> ss_marked st. size_at ?E h) + sum_list (map (size_at ?E) ?kept)"
    using sub fin dist by (subst sum.union_disjoint) (auto simp: sum_list_map_set)
  moreover have "ss_retained st = wrap64 (\<Sum>h \<in> ss_marked st. size_at ?E h)"
    using assms(2) by (simp add: phase_ok_def)
  ultimately have ret: "sum64_from (ss_retained st) (map (size_at ?E) ?kept)
      = wrap64 (\<Sum>h \<in> ss_marked st \<union> set ?kept. size_at ?E h)"
    by (simp add: sum64_from_eq)
  show "phase_ok ?E (keep_phase e ord st)"
  proof (cases "0 < en_keep e")
    case True
    let ?M = "ss_marked st \<union> set ?kept"
    have st': "keep_phase e ord st =
      st\<lparr>ss_marked := ?M, ss_retained := wrap64 (\<Sum>h \<in> ?M. size_at ?E h),
         ss_candidates := filter (\<lambda>h. h \<notin> ?M) (so_cand ord)\<rparr>"
      unfolding ret [symmetric] using True
      by (simp add: keep_phase_def Let_def keep_fold)
    have "ss_marked st \<subseteq> fmdom' ?E" using assms(2) by (simp add: phase_ok_def)
    then have "?M \<subseteq> fmdom' ?E" using sub by blast
    then show ?thesis
      unfolding st' phase_ok_def using o(7,8) by simp blast
  next
    case False
    with assms(2) show ?thesis by (simp add: keep_phase_def)
  qed
  show "ss_marked st \<subseteq> ss_marked (keep_phase e ord st)"
    by (simp add: keep_phase_def Let_def keep_fold)
qed

lemma sweep_marks_ok:
  assumes "sweep_order_ok ord e"
  shows "phase_ok (entries_of (en_index e)) (sweep_marks e ord now)"
    and "protected e now (sweep_roots e ord now) \<subseteq> ss_marked (sweep_marks e ord now)"
  using keep_phase_ok [OF assms grace_marks_ok [OF assms]] grace_marks_marked [OF assms]
  by (simp_all add: sweep_marks_keep)

section \<open>The quota loop\<close>

text \<open>The loop evicts a prefix of its list, the shortest after which the size fits.\<close>

lemma shrink_loop_prefix:
  assumes "in64 cur" and "in64 ret" and "in64 sz"
  shows "\<exists>n. n \<le> length hs
    \<and> shrink_loop E mx hs cur ret ks sz =
        (wrap64 (ret + sum_list (map (size_at E) (drop n hs))), ks @ take n hs,
         wrap64 (sz + sum_list (map (size_at E) (take n hs))))
    \<and> (n = length hs \<or> wrap64 (cur - sum_list (map (size_at E) (take n hs))) \<le> mx)
    \<and> (\<forall>i. i < n \<longrightarrow> mx < wrap64 (cur - sum_list (map (size_at E) (take i hs))))"
  using assms
proof (induction hs arbitrary: cur ret ks sz)
  case Nil
  then show ?case by (simp add: wrap64_id)
next
  case (Cons h hs)
  show ?case
  proof (cases "cur \<le> mx")
    case True
    obtain n where "n \<le> length hs"
      and eq: "shrink_loop E mx hs cur (add64 ret (size_at E h)) ks sz =
        (wrap64 (add64 ret (size_at E h) + sum_list (map (size_at E) (drop n hs))), ks @ take n hs,
         wrap64 (sz + sum_list (map (size_at E) (take n hs))))"
      and least: "\<forall>i. i < n \<longrightarrow> mx < wrap64 (cur - sum_list (map (size_at E) (take i hs)))"
      using Cons.IH [of cur "add64 ret (size_at E h)" sz ks] Cons.prems by (auto simp: add64_def)
    have "n = 0"
    proof (rule ccontr)
      assume "n \<noteq> 0"
      then have "mx < wrap64 cur" using least by force
      with True Cons.prems show False by (simp add: wrap64_id)
    qed
    with eq True Cons.prems show ?thesis
      by (intro exI [of _ 0]) (simp add: add64_def add.assoc wrap64_id)
  next
    case False
    obtain n where n: "n \<le> length hs"
      "shrink_loop E mx hs (sub64 cur (size_at E h)) ret (ks @ [h]) (add64 sz (size_at E h)) =
        (wrap64 (ret + sum_list (map (size_at E) (drop n hs))), (ks @ [h]) @ take n hs,
         wrap64 (add64 sz (size_at E h) + sum_list (map (size_at E) (take n hs))))"
      "n = length hs \<or> wrap64 (sub64 cur (size_at E h) - sum_list (map (size_at E) (take n hs))) \<le> mx"
      "\<forall>i. i < n \<longrightarrow> mx < wrap64 (sub64 cur (size_at E h) - sum_list (map (size_at E) (take i hs)))"
      using Cons.IH [of "sub64 cur (size_at E h)" ret "add64 sz (size_at E h)" "ks @ [h]"] Cons.prems
      by (auto simp: add64_def sub64_def)
    have "mx < wrap64 (cur - sum_list (map (size_at E) (take i (h # hs))))" if "i < Suc n" for i
      using that n(4) False Cons.prems
      by (cases i) (auto simp: sub64_def wrap64_id diff_diff_eq)
    with n False show ?thesis
      by (intro exI [of _ "Suc n"]) (simp add: add64_def sub64_def add.assoc diff_diff_eq)
  qed
qed

end
