(* ===== verification/Gc_Props.thy ===== *)
theory Gc_Props
  imports Gc_Correct
begin

text \<open>
  The properties of \<open>Sweep\<close>, \<open>CascadeEvict\<close> and \<open>Apply\<close>, from one description of what a
  sweep returns: the evicted keys are a prefix of the candidates in least-recently-used order, and
  the sizes are the sums over the two sides of the cut.
\<close>

section \<open>What a sweep returns\<close>

definition lru_candidates :: "engine \<Rightarrow> sweep_order \<Rightarrow> time \<Rightarrow> string list" where
  "lru_candidates e ord now =
     sort_key (last_used_at (entries_of (en_index e))) (ss_candidates (sweep_marks e ord now))"

definition weight :: "(string, index_item) fmap \<Rightarrow> string set \<Rightarrow> int" where
  "weight E S = (\<Sum>h \<in> S. size_at E h)"

lemma lru_candidates_facts:
  assumes "sweep_order_ok ord e"
  shows "distinct (lru_candidates e ord now)"
    and "set (lru_candidates e ord now)
      = fmdom' (entries_of (en_index e)) - ss_marked (sweep_marks e ord now)"
    and "sorted (map (last_used_at (entries_of (en_index e))) (lru_candidates e ord now))"
  using sweep_marks_ok(1) [OF assms, of now] by (auto simp: lru_candidates_def phase_ok_def)

lemma sorted_map_cut: "sorted (map f (xs @ ys)) \<Longrightarrow> x \<in> set xs \<Longrightarrow> y \<in> set ys \<Longrightarrow> f x \<le> f y"
  by (auto simp: sorted_append)

lemma weight_list: "distinct xs \<Longrightarrow> sum_list (map (size_at E) xs) = weight E (set xs)"
  by (simp add: weight_def sum_list_map_set)

lemma weight_cut:
  fixes e :: engine and ord :: sweep_order and now :: time
  assumes "sweep_order_ok ord e"
  defines "E \<equiv> entries_of (en_index e)"
  defines "C \<equiv> lru_candidates e ord now"
  shows "weight E (fmdom' E - set (take n C))
      = weight E (ss_marked (sweep_marks e ord now)) + sum_list (map (size_at E) (drop n C))"
    and "weight E (fmdom' E - set (take n C))
      = weight E (fmdom' E) - sum_list (map (size_at E) (take n C))"
proof -
  note ok = sweep_marks_ok(1) [OF assms(1), of now]
  note c = lru_candidates_facts [OF assms(1), of now, folded E_def C_def]
  let ?M = "ss_marked (sweep_marks e ord now)"
  have M: "?M \<subseteq> fmdom' E" using ok by (simp add: phase_ok_def E_def)
  have disj: "set (take n C) \<inter> set (drop n C) = {}" using c(1) by (rule set_take_disj_set_drop_if_distinct) simp
  have un: "set (take n C) \<union> set (drop n C) = set C" by (metis append_take_drop_id set_append)
  have split: "fmdom' E - set (take n C) = ?M \<union> set (drop n C)" "?M \<inter> set (drop n C) = {}"
    using c(2) M disj un by blast+
  have "weight E (?M \<union> set (drop n C)) = weight E ?M + weight E (set (drop n C))"
    unfolding weight_def using M split(2) by (intro sum.union_disjoint) (auto intro: finite_subset)
  then show "weight E (fmdom' E - set (take n C)) = weight E ?M + sum_list (map (size_at E) (drop n C))"
    using c(1) by (simp add: split weight_list)
  have "set (take n C) \<subseteq> fmdom' E" using c(2) un by blast
  then have "weight E (fmdom' E - set (take n C)) = weight E (fmdom' E) - weight E (set (take n C))"
    unfolding weight_def by (intro sum_diff) auto
  then show "weight E (fmdom' E - set (take n C))
      = weight E (fmdom' E) - sum_list (map (size_at E) (take n C))"
    using c(1) by (simp add: weight_list)
qed

lemma sweep_fields:
  fixes e :: engine and ord :: sweep_order and now :: time
  assumes "sweep_order_ok ord e"
  defines "E \<equiv> entries_of (en_index e)"
  shows "gr_original_count (sweep e ord now mx) = int (card (fmdom' E))"
    and "gr_original_size (sweep e ord now mx) = wrap64 (weight E (fmdom' E))"
    and "gr_expired_roots (sweep e ord now mx)
      = select_roots (root_expired now) (roots_of (en_index e)) (so_roots ord)"
    and "gr_evicted_count (sweep e ord now mx) = int (length (gr_evicted_keys (sweep e ord now mx)))"
    and "gr_retained_count (sweep e ord now mx)
      = int (card (fmdom' E)) - int (length (gr_evicted_keys (sweep e ord now mx)))"
  using orders(1,2) [OF assms(1), folded E_def]
  by (simp_all add: sweep_def Let_def split_beta E_def [symmetric] sum64_from_0 weight_list)

lemma sweep_cut:
  fixes e :: engine and ord :: sweep_order and now :: time and mx :: int
  assumes "sweep_order_ok ord e"
  defines "E \<equiv> entries_of (en_index e)"
  defines "C \<equiv> lru_candidates e ord now"
  defines "r \<equiv> sweep e ord now mx"
  obtains n where "n \<le> length C" "gr_evicted_keys r = take n C"
    "gr_retained_size r = wrap64 (weight E (fmdom' E - set (take n C)))"
    "gr_evicted_size r = wrap64 (weight E (set (take n C)))"
    "mx \<le> 0 \<Longrightarrow> n = length C"
    "0 < mx \<Longrightarrow> n = length C \<or> gr_retained_size r \<le> mx"
    "\<And>i. 0 < mx \<Longrightarrow> i < n \<Longrightarrow> mx < wrap64 (weight E (fmdom' E - set (take i C)))"
proof -
  let ?st = "sweep_marks e ord now"
  note ok = sweep_marks_ok(1) [OF assms(1), of now, folded E_def]
  have ret: "ss_retained ?st = wrap64 (weight E (ss_marked ?st))"
    using ok by (simp add: phase_ok_def weight_def)
  have C: "C = sort_key (last_used_at E) (ss_candidates ?st)" by (simp add: C_def lru_candidates_def E_def)
  note d = lru_candidates_facts(1) [OF assms(1), of now, folded C_def]
  note cut = weight_cut [OF assms(1), of _ now, folded E_def C_def]
  have total: "weight E (ss_marked ?st) + sum_list (map (size_at E) C) = weight E (fmdom' E)"
    using cut(1) [of 0] cut(2) [of 0] by simp
  show thesis
  proof (cases "0 < mx")
    case False
    then have "gr_evicted_keys r = C" "gr_retained_size r = ss_retained ?st"
      "gr_evicted_size r = sum64_from 0 (map (size_at E) C)"
      by (simp_all add: r_def sweep_def Let_def C E_def)
    then show thesis
      using that [of "length C"] False ret cut(1) [of "length C"] d
      by (simp add: sum64_from_0 weight_list)
  next
    case True
    let ?cur = "wrap64 (weight E (fmdom' E))"
    have cur: "sum64_from (ss_retained ?st) (map (size_at E) C) = ?cur"
      by (simp add: ret sum64_from_eq total)
    obtain n where n: "n \<le> length C"
      "shrink_loop E mx C ?cur (ss_retained ?st) [] 0 =
        (wrap64 (ss_retained ?st + sum_list (map (size_at E) (drop n C))), [] @ take n C,
         wrap64 (0 + sum_list (map (size_at E) (take n C))))"
      "n = length C \<or> wrap64 (?cur - sum_list (map (size_at E) (take n C))) \<le> mx"
      "\<forall>i. i < n \<longrightarrow> mx < wrap64 (?cur - sum_list (map (size_at E) (take i C)))"
      using shrink_loop_prefix [of ?cur "ss_retained ?st" 0 C E mx "[]"] ret by auto
    have r: "gr_evicted_keys r = take n C"
      "gr_retained_size r = wrap64 (weight E (fmdom' E - set (take n C)))"
      "gr_evicted_size r = wrap64 (weight E (set (take n C)))"
      using True n(2) cur cut(1) [of n] d ret
      by (simp_all add: r_def sweep_def Let_def C [symmetric] E_def [symmetric] weight_list)
    have w: "wrap64 (?cur - sum_list (map (size_at E) (take i C)))
        = wrap64 (weight E (fmdom' E - set (take i C)))" for i
      using cut(2) [of i] by simp
    show thesis
      by (rule that [of n]) (use True n r w in auto)
  qed
qed

lemma sweep_evicted_unmarked:
  assumes "sweep_order_ok ord e"
  shows "distinct (gr_evicted_keys (sweep e ord now mx))"
    and "set (gr_evicted_keys (sweep e ord now mx))
      \<subseteq> fmdom' (entries_of (en_index e)) - ss_marked (sweep_marks e ord now)"
proof -
  obtain n where "gr_evicted_keys (sweep e ord now mx) = take n (lru_candidates e ord now)"
    by (rule sweep_cut [OF assms, of now mx])
  with lru_candidates_facts [OF assms, of now]
  show "distinct (gr_evicted_keys (sweep e ord now mx))"
    and "set (gr_evicted_keys (sweep e ord now mx))
      \<subseteq> fmdom' (entries_of (en_index e)) - ss_marked (sweep_marks e ord now)"
    by (auto dest: in_set_takeD)
qed

lemma sweep_evicted_all:
  assumes "sweep_order_ok ord e" and "mx \<le> 0"
  shows "set (gr_evicted_keys (sweep e ord now mx))
    = fmdom' (entries_of (en_index e)) - ss_marked (sweep_marks e ord now)"
proof -
  obtain n where "gr_evicted_keys (sweep e ord now mx) = take n (lru_candidates e ord now)"
    "n = length (lru_candidates e ord now)"
    using assms(2) by (rule_tac sweep_cut [OF assms(1), of now mx]) blast
  with assms(2) lru_candidates_facts(2) [OF assms(1), of now] show ?thesis by simp
qed

lemma set_sweep_roots:
  assumes "sweep_order_ok ord e"
  shows "set (sweep_roots e ord now)
    = {k. \<exists>root. gm_get (ix_roots (en_index e)) k = Some root \<and> \<not> root_expired now root}"
  using orders(11) [OF assms]
  by (auto simp: sweep_roots_def select_roots_def gm_get_def fmlookup_dom'_iff split: option.splits)

abbreviation active_roots :: "engine \<Rightarrow> time \<Rightarrow> string set" where
  "active_roots e now \<equiv>
     {k. \<exists>root. gm_get (ix_roots (en_index e)) k = Some root \<and> \<not> root_expired now root}"

lemma protected_active:
  assumes "sweep_order_ok ord e"
  shows "protected e now (sweep_roots e ord now)
    = live (entries_of (en_index e)) (active_roots e now)
      \<union> {h \<in> fmdom' (entries_of (en_index e)). in_grace e now h}"
  by (simp add: protected_def set_sweep_roots [OF assms])

lemma apply_result_get:
  "gm_get (ix_entries (apply_result r idx)) h
    = (if h \<in> set (gr_evicted_keys r) then None else gm_get (ix_entries idx) h)"
  "gm_get (ix_roots (apply_result r idx)) h
    = (if h \<in> set (gr_expired_roots r) then None else gm_get (ix_roots idx) h)"
  by (simp_all add: apply_result_def keyed)

lemma apply_result_dom:
  "fmdom' (entries_of (apply_result r idx)) = fmdom' (entries_of idx) - set (gr_evicted_keys r)"
  using apply_result_get(1) [of r idx] by (auto simp: gm_get_def fmlookup_dom'_iff split: if_splits)

lemma sweep_not_expired:
  assumes "sweep_order_ok ord e" and "h \<in> active_roots e now"
  shows "h \<notin> set (gr_expired_roots (sweep e ord now mx))"
  using assms(2) by (auto simp: sweep_fields [OF assms(1)] select_roots_def gm_get_def)

section \<open>Versions\<close>

lemma sweep_marks_marked:
  fixes e :: engine and ord :: sweep_order and now :: time
  assumes "sweep_order_ok ord e" and "0 < en_keep e"
  defines "P \<equiv> protected e now (sweep_roots e ord now)"
  shows "ss_marked (sweep_marks e ord now)
    = P \<union> (\<Union>b \<in> set (so_bases ord). set (kept_versions e P (so_group ord) b))"
  using assms(2)
  by (simp add: sweep_marks_keep keep_phase_def Let_def keep_fold grace_marks_marked [OF assms(1)] P_def)

text \<open>The entries of one package that neither a root nor the grace period protects.\<close>

definition package_group :: "engine \<Rightarrow> string set \<Rightarrow> string \<Rightarrow> string set" where
  "package_group e P b =
     {h \<in> fmdom' (entries_of (en_index e)) - P.
        base_package_name (name_at (entries_of (en_index e)) h) = b}"

lemma version_group_set:
  assumes "sweep_order_ok ord e"
  shows "set (version_group (entries_of (en_index e)) P (so_group ord) b) = package_group e P b"
    and "length (version_group (entries_of (en_index e)) P (so_group ord) b) = card (package_group e P b)"
    and "distinct (version_group (entries_of (en_index e)) P (so_group ord) b)"
proof -
  show s: "set (version_group (entries_of (en_index e)) P (so_group ord) b) = package_group e P b"
    using orders(6) [OF assms] by (auto simp: version_group_def package_group_def)
  show d: "distinct (version_group (entries_of (en_index e)) P (so_group ord) b)"
    using orders(5) [OF assms] by (simp add: version_group_def)
  show "length (version_group (entries_of (en_index e)) P (so_group ord) b) = card (package_group e P b)"
    using s d by (metis distinct_card)
qed

lemma marked_in_group:
  fixes e :: engine and ord :: sweep_order and now :: time
  assumes "sweep_order_ok ord e" and "0 < en_keep e"
  defines "P \<equiv> protected e now (sweep_roots e ord now)"
  shows "ss_marked (sweep_marks e ord now) \<inter> package_group e P b
    = set (kept_versions e P (so_group ord) b)"
proof
  note m = sweep_marks_marked [OF assms(1,2), of now, folded P_def]
  note g = version_group_set(1) [OF assms(1), of P]
  show "ss_marked (sweep_marks e ord now) \<inter> package_group e P b \<subseteq> set (kept_versions e P (so_group ord) b)"
  proof
    fix h assume h: "h \<in> ss_marked (sweep_marks e ord now) \<inter> package_group e P b"
    then obtain b' where b': "h \<in> set (kept_versions e P (so_group ord) b')"
      by (auto simp: m package_group_def)
    then have "h \<in> package_group e P b'" using kept_versions_sub g by blast
    with h have "b' = b" by (simp add: package_group_def)
    with b' show "h \<in> set (kept_versions e P (so_group ord) b)" by simp
  qed
  show "set (kept_versions e P (so_group ord) b) \<subseteq> ss_marked (sweep_marks e ord now) \<inter> package_group e P b"
  proof
    fix h assume h: "h \<in> set (kept_versions e P (so_group ord) b)"
    then have "h \<in> package_group e P b" using kept_versions_sub g by blast
    moreover from this have "b \<in> set (so_bases ord)"
      using orders(12) [OF assms(1)] by (auto simp: package_group_def)
    ultimately show "h \<in> ss_marked (sweep_marks e ord now) \<inter> package_group e P b"
      using h by (auto simp: m)
  qed
qed

lemma kept_versions_newest:
  fixes e :: engine and ord :: sweep_order and P :: "string set" and b :: string
  assumes "sweep_order_ok ord e" and "0 < en_keep e" and "en_keep e < int (card (package_group e P b))"
  defines "K \<equiv> set (kept_versions e P (so_group ord) b)"
  shows "K \<subseteq> package_group e P b" and "card K = nat (en_keep e)"
    and "h \<in> K \<Longrightarrow> g \<in> package_group e P b - K \<Longrightarrow>
      uploaded_at (entries_of (en_index e)) g \<le> uploaded_at (entries_of (en_index e)) h"
proof -
  let ?E = "entries_of (en_index e)"
  let ?g = "version_group ?E P (so_group ord) b"
  let ?s = "newest_first ?E ?g"
  let ?n = "nat (en_keep e)"
  note vg = version_group_set [OF assms(1), of P b]
  have "\<not> int (length ?g) \<le> en_keep e" unfolding vg(2) using assms(3) by linarith
  then have K: "K = set (take ?n ?s)"
    unfolding K_def kept_versions_def Let_def by (simp only: if_False)
  show "K \<subseteq> package_group e P b" 
    unfolding K vg(1) [symmetric] by (metis set_newest_first set_take_subset)
  have "distinct (take ?n ?s)" using vg(3) by simp
  then have "card K = length (take ?n ?s)" unfolding K by (rule distinct_card)
  also have "\<dots> = min (card (package_group e P b)) ?n" using vg(2) by simp
  also have "\<dots> = ?n" using assms(2,3) by linarith
  finally show "card K = ?n" .
  assume h: "h \<in> K" and g: "g \<in> package_group e P b - K"
  have "g \<in> set (drop ?n ?s)"
    using g vg(1) unfolding K by (metis Diff_iff Un_iff append_take_drop_id set_append set_newest_first)
  moreover have "sorted (map (\<lambda>h. - uploaded_at ?E h) (take ?n ?s @ drop ?n ?s))"
    unfolding newest_first_def append_take_drop_id by (rule sorted_sort_key)
  ultimately have "- uploaded_at ?E h \<le> - uploaded_at ?E g"
    using h unfolding K by (intro sorted_map_cut)
  then show "uploaded_at ?E g \<le> uploaded_at ?E h" by simp
qed

end
