(* ===== verification/Gc_Sweep.thy ===== *)
theory Gc_Sweep
  imports Gc_Props
begin

text \<open>
  The contract of \<open>Sweep\<close> followed by \<open>Apply\<close> (\<open>pkg/gc/gc.go\<close>): safety, completeness,
  accounting, eviction order, quota and version retention, each for every iteration order, with a
  small index on which every hypothesis holds.
\<close>

section \<open>A small index\<close>

definition sample_item :: "string \<Rightarrow> int \<Rightarrow> time \<Rightarrow> time \<Rightarrow> string list \<Rightarrow> index_item" where
  "sample_item name sz used uploaded refs =
     \<lparr>it_name = name, it_narinfo = [], it_nar_digest = [], it_nar_size = sz, it_added = uploaded,
      it_last_used = used, it_uploaded_at = uploaded, it_references = refs, it_source = []\<rparr>"

text \<open>Three versions of one package; a pin of the first one.\<close>

definition sample_entries :: "(string, index_item) fmap" where
  "sample_entries = fmap_of_list
     [(''a'', sample_item ''foo-1.0'' 10 5 1 []), (''b'', sample_item ''foo-2.0'' 20 6 2 []),
      (''c'', sample_item ''foo-3.0'' 30 4 3 [])]"

definition sample_index :: "string list \<Rightarrow> cache_index" where
  "sample_index pins = (new_index ''r'' ''o'' 0)
     \<lparr>ix_entries := Some sample_entries,
      ix_roots := Some (fmap_of_list (map (\<lambda>p. (p, \<lparr>rt_pinned_at = 1, rt_ttl = 0\<rparr>)) pins))\<rparr>"

definition sample_engine :: "string list \<Rightarrow> int \<Rightarrow> engine" where
  "sample_engine pins n = \<lparr>en_index = sample_index pins, en_grace = 10, en_keep = n\<rparr>"

definition sample_order :: "string list \<Rightarrow> sweep_order" where
  "sample_order pins = (let ks = [''a'', ''b'', ''c''] in
     \<lparr>so_sum = ks, so_roots = pins, so_part = ks, so_group = ks, so_bases = [''foo''], so_cand = ks\<rparr>)"

lemma sample_base [simp]:
  "base_package_name ''foo-1.0'' = ''foo''" "base_package_name ''foo-2.0'' = ''foo''"
  "base_package_name ''foo-3.0'' = ''foo''"
  by code_simp+

lemma sample_engine_index [simp]:
  "en_index (sample_engine pins n) = sample_index pins" "en_grace (sample_engine pins n) = 10"
  "en_keep (sample_engine pins n) = n"
  by (simp_all add: sample_engine_def)

lemma sample_entries_of [simp]: "entries_of (sample_index pins) = sample_entries"
  by (simp add: sample_index_def)

lemma sample_roots_of [simp]:
  "roots_of (sample_index pins) = fmap_of_list (map (\<lambda>p. (p, \<lparr>rt_pinned_at = 1, rt_ttl = 0\<rparr>)) pins)"
  by (simp add: sample_index_def)

lemma sample_get [simp]: "gm_get (ix_entries (sample_index pins)) h = fmlookup sample_entries h"
  by (simp add: gm_get_def)

lemma sample_lookup [simp]:
  "fmlookup sample_entries ''a'' = Some (sample_item ''foo-1.0'' 10 5 1 [])"
  "fmlookup sample_entries ''b'' = Some (sample_item ''foo-2.0'' 20 6 2 [])"
  "fmlookup sample_entries ''c'' = Some (sample_item ''foo-3.0'' 30 4 3 [])"
  by (simp_all add: sample_entries_def fmlookup_of_list)

lemma sample_dom [simp]: "fmdom' sample_entries = {''a'', ''b'', ''c''}"
  by (simp add: sample_entries_def fmdom'_alt_def fset_of_list.rep_eq)

lemma sample_roots_dom [simp]:
  "fmdom' (fmap_of_list (map (\<lambda>p. (p, x)) pins)) = set pins"
  by (simp add: fmdom'_alt_def fset_of_list.rep_eq image_image)

lemma sample_order_ok: "distinct pins \<Longrightarrow> sweep_order_ok (sample_order pins) (sample_engine pins n)"
  by (simp add: sweep_order_ok_def sample_order_def Let_def enumerates_def name_at_def sample_item_def)

lemma sample_live: "h \<in> live sample_entries R \<Longrightarrow> h \<in> R"
proof (induction rule: live.induct)
  case (live_ref h k)
  then have "h \<in> {''a'', ''b'', ''c''}" using live_nodes by fastforce
  with live_ref show ?case by (auto simp: refs_of_def ref_hashes_def sample_item_def)
qed

lemma sample_order_ok0: "sweep_order_ok (sample_order []) (sample_engine [] n)"
  by (rule sample_order_ok) simp

section \<open>Safety\<close>

text \<open>C1: No live or recently uploaded entry is collected: whatever a pin whose TTL has not passed
  reaches through References, and whatever is younger than the grace period, is in the index after
  \<open>Sweep\<close> and \<open>Apply\<close> exactly as it was, for every quota and every setting of the engine.\<close>

theorem sweep_keeps_protected:
  assumes "sweep_order_ok ord e"
    and "h \<in> live (entries_of (en_index e)) (active_roots e now)
      \<or> (h \<in> fmdom' (entries_of (en_index e)) \<and> in_grace e now h)"
  shows "gm_get (ix_entries (apply_result (sweep e ord now mx) (en_index e))) h \<noteq> None
    \<and> gm_get (ix_entries (apply_result (sweep e ord now mx) (en_index e))) h
      = gm_get (ix_entries (en_index e)) h"
proof -
  have "h \<in> protected e now (sweep_roots e ord now)"
    using assms(2) by (auto simp: protected_active [OF assms(1)])
  then have "h \<notin> set (gr_evicted_keys (sweep e ord now mx))"
    using sweep_marks_ok(2) [OF assms(1), of now] sweep_evicted_unmarked(2) [OF assms(1), of now mx]
    by blast
  moreover have "h \<in> fmdom' (entries_of (en_index e))"
    using assms(2) live_nodes by blast
  then have "gm_get (ix_entries (en_index e)) h \<noteq> None" by (simp add: gm_get_def fmlookup_dom'_iff)
  ultimately show ?thesis by (simp add: apply_result_get)
qed

theorem sweep_keeps_protected_witness:
  "gm_get (ix_entries (apply_result (sweep (sample_engine [''a''] 0) (sample_order [''a'']) 100 5)
     (sample_index [''a'']))) ''a'' \<noteq> None"
proof -
  have "''a'' \<in> live sample_entries (active_roots (sample_engine [''a''] 0) 100)"
    by (rule live_root) (simp_all add: gm_get_def root_expired_def)
  then show ?thesis
    using sweep_keeps_protected [OF sample_order_ok, of "[''a'']" "''a''" 0 100 5] by auto
qed

text \<open>After \<open>Sweep\<close> and \<open>Apply\<close> the pins of the index are those whose TTL has not passed,
  unchanged: a permanent pin is never dropped.\<close>

lemma sweep_roots_exact:
  assumes "sweep_order_ok ord e"
  shows "gm_get (ix_roots (apply_result (sweep e ord now mx) (en_index e))) h =
    (case gm_get (ix_roots (en_index e)) h of None \<Rightarrow> None
     | Some root \<Rightarrow> if root_expired now root then None else Some root)"
  using orders(11) [OF assms]
  unfolding apply_result_get sweep_fields(3) [OF assms]
  by (auto simp: select_roots_def gm_get_def fmlookup_dom'_iff split: option.splits)

section \<open>Completeness\<close>

text \<open>C2: Without a quota and without version retention the sweep is exact: the entries left are
  those reachable from an unexpired pin and those in the grace period, and nothing else.\<close>

theorem sweep_exact:
  assumes "sweep_order_ok ord e" and "mx \<le> 0" and "en_keep e \<le> 0"
  shows "gm_get (ix_entries (apply_result (sweep e ord now mx) (en_index e))) h =
    (if h \<in> live (entries_of (en_index e)) (active_roots e now) \<or> in_grace e now h
     then gm_get (ix_entries (en_index e)) h else None)"
proof -
  have "ss_marked (sweep_marks e ord now) = protected e now (sweep_roots e ord now)"
    using assms(3) by (simp add: sweep_marks_keep keep_phase_def grace_marks_marked [OF assms(1)])
  then have "set (gr_evicted_keys (sweep e ord now mx))
      = fmdom' (entries_of (en_index e)) - protected e now (sweep_roots e ord now)"
    using sweep_evicted_all [OF assms(1,2), of now] by simp
  then show ?thesis
    unfolding apply_result_get protected_active [OF assms(1)]
    by (auto simp: gm_get_def fmlookup_dom'_iff)
qed

theorem sweep_exact_witness:
  "gm_get (ix_entries (apply_result (sweep (sample_engine [''a''] 0) (sample_order [''a'']) 100 0)
     (sample_index [''a'']))) ''b'' = None"
proof -
  have "active_roots (sample_engine [''a''] 0) 100 \<subseteq> {''a''}"
    by (auto simp: gm_get_def split: if_splits dest: map_of_SomeD)
  then have "''b'' \<notin> live sample_entries (active_roots (sample_engine [''a''] 0) 100)"
    using sample_live by fastforce
  then show ?thesis
    using sweep_exact [OF sample_order_ok, of "[''a'']" 0 0 100 "''b''"]
    by (simp add: in_grace_def uploaded_at_def sample_item_def time_sub_def max64_def)
qed

section \<open>Accounting\<close>

text \<open>The report is the truth about the index that \<open>Apply\<close> leaves: the retained count is its
  number of entries, the retained size the 64-bit sum of their sizes, and retained and evicted
  together give the original count and (modulo \<open>2 ^ 64\<close>) the original size.\<close>

lemma sweep_accounting:
  assumes "sweep_order_ok ord e"
  shows "gr_retained_count (sweep e ord now mx)
      = int (gm_len (ix_entries (apply_result (sweep e ord now mx) (en_index e))))
    \<and> gr_retained_size (sweep e ord now mx)
      = wrap64 (weight (entries_of (en_index e))
          (fmdom' (entries_of (apply_result (sweep e ord now mx) (en_index e)))))
    \<and> gr_retained_count (sweep e ord now mx) + gr_evicted_count (sweep e ord now mx)
      = gr_original_count (sweep e ord now mx)
    \<and> add64 (gr_retained_size (sweep e ord now mx)) (gr_evicted_size (sweep e ord now mx))
      = gr_original_size (sweep e ord now mx)"
proof -
  let ?E = "entries_of (en_index e)"
  let ?r = "sweep e ord now mx"
  let ?K = "set (gr_evicted_keys ?r)"
  note f = sweep_fields [OF assms, of now mx]
  have K: "?K \<subseteq> fmdom' ?E" using sweep_evicted_unmarked(2) [OF assms, of now mx] by blast
  have dom: "fmdom' (entries_of (apply_result ?r (en_index e))) = fmdom' ?E - ?K"
    by (rule apply_result_dom)
  have "card (fmdom' ?E - ?K) = card (fmdom' ?E) - card ?K" using K by (intro card_Diff_subset) auto
  moreover have "card ?K = length (gr_evicted_keys ?r)"
    using sweep_evicted_unmarked(1) [OF assms] by (rule distinct_card)
  moreover have "card ?K \<le> card (fmdom' ?E)" using K by (intro card_mono) auto
  ultimately have count: "gr_retained_count ?r = int (card (fmdom' ?E - ?K))"
    by (simp add: f of_nat_diff)
  obtain n where n: "gr_evicted_keys ?r = take n (lru_candidates e ord now)"
    "gr_retained_size ?r = wrap64 (weight ?E (fmdom' ?E - ?K))"
    "gr_evicted_size ?r = wrap64 (weight ?E ?K)"
    by (rule sweep_cut [OF assms, of now mx]) simp
  have "weight ?E (fmdom' ?E - ?K) + weight ?E ?K = weight ?E (fmdom' ?E)"
    unfolding weight_def using K by (metis finite_fmdom' sum.subset_diff)
  then have "add64 (gr_retained_size ?r) (gr_evicted_size ?r) = gr_original_size ?r"
    by (simp add: n(2,3) f add64_def)
  with count n(2) f dom show ?thesis by (simp add: gm_len_def gm_keys_def)
qed

section \<open>Eviction order and quota\<close>

text \<open>C22: Eviction is least recently used first: an entry that was evicted was used no later than
  any entry that stays without being protected.\<close>

theorem sweep_evicts_lru:
  assumes "sweep_order_ok ord e"
    and "h \<in> set (gr_evicted_keys (sweep e ord now mx))"
    and "g \<in> fmdom' (entries_of (apply_result (sweep e ord now mx) (en_index e)))"
    and "g \<notin> ss_marked (sweep_marks e ord now)"
  shows "last_used_at (entries_of (en_index e)) h \<le> last_used_at (entries_of (en_index e)) g"
proof -
  let ?E = "entries_of (en_index e)"
  let ?C = "lru_candidates e ord now"
  note c = lru_candidates_facts [OF assms(1), of now]
  obtain n where n: "gr_evicted_keys (sweep e ord now mx) = take n ?C"
    by (rule sweep_cut [OF assms(1), of now mx])
  have "g \<in> fmdom' ?E" "g \<notin> set (take n ?C)"
    using assms(3) unfolding n [symmetric] by (simp_all add: apply_result_dom)
  then have "g \<in> set (drop n ?C)"
    using assms(4) c(2) by (metis DiffI Un_iff append_take_drop_id set_append)
  moreover have "h \<in> set (take n ?C)" using assms(2) n by simp
  moreover have "sorted (map (last_used_at ?E) (take n ?C @ drop n ?C))" using c(3) by simp
  ultimately show ?thesis by (intro sorted_map_cut)
qed

text \<open>C21: The quota: when the sweep ends either the retained size is within the limit or everything
  unprotected is gone, and no key is evicted once the rest fits: before each eviction the size of
  what remained was above the limit.\<close>

theorem sweep_quota:
  assumes "sweep_order_ok ord e" and "0 < mx"
  shows "(gr_retained_size (sweep e ord now mx) \<le> mx
      \<or> set (gr_evicted_keys (sweep e ord now mx))
        = fmdom' (entries_of (en_index e)) - ss_marked (sweep_marks e ord now))
    \<and> (\<forall>i < length (gr_evicted_keys (sweep e ord now mx)).
      mx < wrap64 (weight (entries_of (en_index e))
        (fmdom' (entries_of (en_index e)) - set (take i (gr_evicted_keys (sweep e ord now mx))))))"
proof -
  let ?E = "entries_of (en_index e)"
  let ?C = "lru_candidates e ord now"
  obtain n where n: "n \<le> length ?C" "gr_evicted_keys (sweep e ord now mx) = take n ?C"
    "n = length ?C \<or> gr_retained_size (sweep e ord now mx) \<le> mx"
    "\<And>i. i < n \<Longrightarrow> mx < wrap64 (weight ?E (fmdom' ?E - set (take i ?C)))"
    using assms(2) by (rule_tac sweep_cut [OF assms(1), of now mx]) blast
  have "gr_retained_size (sweep e ord now mx) \<le> mx
      \<or> set (gr_evicted_keys (sweep e ord now mx)) = fmdom' ?E - ss_marked (sweep_marks e ord now)"
    unfolding n(2) lru_candidates_facts(2) [OF assms(1), of now, symmetric] using n(3) by force
  moreover have "mx < wrap64 (weight ?E (fmdom' ?E - set (take i (gr_evicted_keys (sweep e ord now mx)))))"
    if "i < length (gr_evicted_keys (sweep e ord now mx))" for i
    using that n(1,4) unfolding n(2) by (simp add: min_def split: if_splits)
  ultimately show ?thesis by blast
qed

text \<open>On the sample without pins and with a quota of 35 the sweep evicts \<open>c\<close>, the entry used
  longest ago, and keeps the other two.\<close>

lemma sample_marked: "ss_marked (sweep_marks (sample_engine [] 0) (sample_order []) 100) = {}"
  by (simp add: sweep_marks_def Let_def scan_closure_def keep_phase_def sweep_roots_def select_roots_def sample_order_def
      grace_step_def in_grace_def uploaded_at_def sample_item_def time_sub_def max64_def)

lemma sample_evicted: "gr_evicted_keys (sweep (sample_engine [] 0) (sample_order []) 100 35) = [''c'']"
  by (simp add: sweep_def sweep_marks_def Let_def scan_closure_def keep_phase_def sweep_roots_def select_roots_def
      sample_order_def grace_step_def in_grace_def uploaded_at_def last_used_at_def size_at_def
      sample_item_def time_sub_def max64_def min64_def add64_def sub64_def wrap64_id in64_def)

theorem sweep_evicts_lru_witness:
  "last_used_at sample_entries ''c'' \<le> last_used_at sample_entries ''a''"
  using sweep_evicts_lru [OF sample_order_ok0, of "''c''" 0 100 35 "''a''"]
  by (simp add: sample_evicted sample_marked apply_result_dom)

theorem sweep_quota_witness:
  "gr_retained_size (sweep (sample_engine [] 0) (sample_order []) 100 35) \<le> 35"
  using sweep_quota [OF sample_order_ok0, of 35 0 100]
  by (simp add: sample_evicted sample_marked)

end
