(* ===== verification/Gc_Retention.thy ===== *)
theory Gc_Retention
  imports Gc_Sweep
begin

text \<open>
  Version retention (\<open>SetKeepVersions\<close>, phase 3.5 of \<open>Sweep\<close>) and the package names it groups
  by: what a group larger than the limit keeps, and what happens to a smaller one.
\<close>

section \<open>Package names\<close>

text \<open>The name of a versioned package: a last part that starts with a digit and has a dot or
  four characters is the version, and what is before its dash, dashes and digits included, is the
  base name.\<close>

lemma base_package_name_version:
  assumes "starts_with_digit v" and "CHR ''-'' \<notin> set v" and "str_contains v ''.'' \<or> 4 \<le> length v"
  shows "base_package_name (n @ CHR ''-'' # v) = n"
proof -
  obtain parts where parts: "split_on (CHR ''-'') n = parts" "parts \<noteq> []" by simp
  have sp: "split_on (CHR ''-'') (n @ CHR ''-'' # v) = parts @ [v]"
    using assms(2) parts(1) by (simp add: split_on_append split_on_no_sep)
  obtain k where k: "length parts = Suc k" using parts(2) by (cases parts) auto
  have nth: "(parts @ [v]) ! Suc k = v" by (simp add: nth_append k)
  have "join ''-'' parts = n" using parts(1) join_split by metis
  then show ?thesis
    using assms nth k by (simp add: base_package_name_def sp Let_def)
qed

section \<open>Version retention\<close>

lemma group_after:
  fixes e :: engine and now :: time and b :: string and mx :: int
  assumes "sweep_order_ok ord e" and "0 < en_keep e"
  defines "G \<equiv> package_group e (protected e now (sweep_roots e ord now)) b"
  defines "K \<equiv> set (kept_versions e (protected e now (sweep_roots e ord now)) (so_group ord) b)"
  defines "A \<equiv> fmdom' (entries_of (apply_result (sweep e ord now mx) (en_index e)))"
  shows "K \<subseteq> A" and "mx \<le> 0 \<Longrightarrow> G \<inter> A = K"
proof -
  let ?M = "ss_marked (sweep_marks e ord now)"
  let ?X = "set (gr_evicted_keys (sweep e ord now mx))"
  have K: "?M \<inter> G = K" using marked_in_group [OF assms(1,2)] by (simp add: G_def K_def)
  have G: "G \<subseteq> fmdom' (entries_of (en_index e))" by (auto simp: G_def package_group_def)
  have A: "A = fmdom' (entries_of (en_index e)) - ?X" by (simp add: A_def apply_result_dom)
  show "K \<subseteq> A" using K G A sweep_evicted_unmarked(2) [OF assms(1), of now mx] by blast
  show "G \<inter> A = K" if "mx \<le> 0"
    using K G A sweep_evicted_all [OF assms(1) that, of now] by blast
qed

text \<open>On the sample at time 100, without pins, nothing is protected.\<close>

lemma sample_group:
  "package_group (sample_engine [] n)
     (protected (sample_engine [] n) 100 (sweep_roots (sample_engine [] n) (sample_order []) 100)) ''foo''
   = {''a'', ''b'', ''c''}"
proof -
  have "h \<notin> live sample_entries {}" for h
  proof
    assume "h \<in> live sample_entries {}" then show False by (induction rule: live.induct) auto
  qed
  then have "protected (sample_engine [] n) 100 [] = {}"
    by (auto simp: protected_def in_grace_def uploaded_at_def sample_item_def time_sub_def max64_def)
  moreover have "sweep_roots (sample_engine [] n) (sample_order []) 100 = []"
    by (simp add: sweep_roots_def select_roots_def sample_order_def)
  ultimately show ?thesis
    by (auto simp: package_group_def name_at_def sample_item_def)
qed

text \<open>Version retention: of a package with more than N unprotected versions the N most recently
  uploaded ones survive the sweep under every quota, and without a quota exactly those.\<close>

lemma keep_versions_newest:
  assumes "sweep_order_ok ord e" and "0 < en_keep e"
    and "en_keep e < int (card (package_group e (protected e now (sweep_roots e ord now)) b))"
  shows "\<exists>K. K \<subseteq> package_group e (protected e now (sweep_roots e ord now)) b
    \<and> card K = nat (en_keep e)
    \<and> (\<forall>h \<in> K. \<forall>g \<in> package_group e (protected e now (sweep_roots e ord now)) b - K.
         uploaded_at (entries_of (en_index e)) g \<le> uploaded_at (entries_of (en_index e)) h)
    \<and> K \<subseteq> fmdom' (entries_of (apply_result (sweep e ord now mx) (en_index e)))
    \<and> (mx \<le> 0 \<longrightarrow> package_group e (protected e now (sweep_roots e ord now)) b
         \<inter> fmdom' (entries_of (apply_result (sweep e ord now mx) (en_index e))) = K)"
  using kept_versions_newest [OF assms] group_after [OF assms(1,2)]
  by (intro exI conjI ballI impI) blast+

text \<open>A package with at most N unprotected versions gets no retention at all: without a quota the
  sweep evicts every one of them, although the option is described as keeping N versions of each
  package.\<close>

lemma keep_versions_small_group:
  assumes "sweep_order_ok ord e" and "0 < en_keep e" and "mx \<le> 0"
    and "int (card (package_group e (protected e now (sweep_roots e ord now)) b)) \<le> en_keep e"
  shows "package_group e (protected e now (sweep_roots e ord now)) b
    \<inter> fmdom' (entries_of (apply_result (sweep e ord now mx) (en_index e))) = {}"
proof -
  let ?P = "protected e now (sweep_roots e ord now)"
  have "kept_versions e ?P (so_group ord) b = []"
    unfolding kept_versions_def Let_def version_group_set(2) [OF assms(1)] using assms(4) by simp
  then show ?thesis using group_after(2) [OF assms(1,2,3), of now b] by simp
qed

section \<open>References of recent uploads\<close>







end
