(* ===== verification/Gc_Cascade.thy ===== *)
theory Gc_Cascade
  imports Gc_Sweep
begin

text \<open>
  \<open>CascadeEvict\<close> followed by \<open>Apply\<close> (\<open>pkg/gc/gc.go\<close>), which \<open>noci gc\<close> runs on
  explicit targets: it removes the targets and whatever depends on them, directly or not, and their pins.
\<close>

lemma cascade_keys:
  assumes "cascade_order_ok ord e ts"
  shows "set (gr_evicted_keys (cascade_evict e ord ts)) = dependents (entries_of (en_index e)) (set ts)"
    and "distinct (gr_evicted_keys (cascade_evict e ord ts))"
proof -
  let ?E = "entries_of (en_index e)"
  have o: "set (co_rev ord) = fmdom' ?E" "set (co_keys ord) = fmdom' ?E" "distinct (co_keys ord)"
    using assms by (simp_all add: cascade_order_ok_def enumerates_def Let_def)
  have "dependents ?E (set ts) \<subseteq> fmdom' ?E" by (auto elim: dependents.cases)
  then show "set (gr_evicted_keys (cascade_evict e ord ts)) = dependents ?E (set ts)"
    using o(2) by (auto simp: cascade_evict_def Let_def cascade_eq_dependents [OF o(1)])
  show "distinct (gr_evicted_keys (cascade_evict e ord ts))"
    using o(3) by (simp add: cascade_evict_def Let_def)
qed

lemma cascade_expired:
  assumes "cascade_order_ok ord e ts"
  shows "set (gr_expired_roots (cascade_evict e ord ts))
    = set ts \<union> {h \<in> dependents (entries_of (en_index e)) (set ts). fmlookup (roots_of (en_index e)) h \<noteq> None}"
proof -
  let ?E = "entries_of (en_index e)"
  have o: "set (co_rev ord) = fmdom' ?E" "set (co_roots ord) = set ts \<union> fmdom' ?E"
    using assms by (simp_all add: cascade_order_ok_def enumerates_def Let_def)
  have "dependents ?E (set ts) \<subseteq> fmdom' ?E" by (auto elim: dependents.cases)
  then show ?thesis
    using o(2) by (auto simp: cascade_evict_def Let_def cascade_eq_dependents [OF o(1)])
qed

lemma cascade_after_refs:
  "refs_of (entries_of (apply_result r idx)) h
    = (if h \<in> set (gr_evicted_keys r) then {} else refs_of (entries_of idx) h)"
  using apply_result_get(1) [of r idx h] by (simp add: refs_of_def gm_get_def)

text \<open>C3: Cascading eviction removes exactly the entries that reach one of the targets through
  References, the targets included, and leaves every other entry as it was.\<close>

theorem cascade_exact:
  assumes "cascade_order_ok ord e ts"
  shows "gm_get (ix_entries (apply_result (cascade_evict e ord ts) (en_index e))) h =
    (if h \<in> dependents (entries_of (en_index e)) (set ts) then None
     else gm_get (ix_entries (en_index e)) h)"
  by (simp add: apply_result_get cascade_keys [OF assms])

text \<open>Cascading eviction never leaves a dangling reference: no entry that stays refers to an
  evicted one, so an index in which every reference resolves stays so.\<close>

lemma cascade_no_dangling:
  assumes "cascade_order_ok ord e ts"
    and "k \<in> refs_of (entries_of (apply_result (cascade_evict e ord ts) (en_index e))) h"
    and "k \<in> fmdom' (entries_of (en_index e))"
  shows "k \<in> fmdom' (entries_of (apply_result (cascade_evict e ord ts) (en_index e)))"
proof -
  let ?E = "entries_of (en_index e)"
  have h: "h \<notin> dependents ?E (set ts)" "k \<in> refs_of ?E h"
    using assms(2) by (auto simp: cascade_after_refs cascade_keys [OF assms(1)] split: if_splits)
  then have "h \<in> fmdom' ?E" by (auto simp: refs_of_def nodes_eq split: option.splits)
  with h have "k \<notin> dependents ?E (set ts)" by (blast intro: dep_ref)
  with assms(3) show ?thesis by (simp add: apply_result_dom cascade_keys [OF assms(1)])
qed

text \<open>Cascading eviction drops the pins of the targets and of every entry it removes, and no
  other pin.\<close>

lemma cascade_roots_exact:
  assumes "cascade_order_ok ord e ts"
  shows "gm_get (ix_roots (apply_result (cascade_evict e ord ts) (en_index e))) h =
    (if h \<in> set ts \<or> h \<in> dependents (entries_of (en_index e)) (set ts) then None
     else gm_get (ix_roots (en_index e)) h)"
  unfolding apply_result_get cascade_expired [OF assms] by (auto simp: gm_get_def)

section \<open>A chain of two\<close>

definition chain_app :: string where "chain_app = replicate 32 CHR ''1''"
definition chain_lib :: string where "chain_lib = replicate 32 CHR ''2''"

definition chain_index :: cache_index where
  "chain_index = (new_index ''r'' ''o'' 0)\<lparr>
     ix_entries := Some (fmap_of_list
       [(chain_app, sample_item ''app-1.0'' 10 5 1 [store_prefix @ chain_lib @ ''-lib'']),
        (chain_lib, sample_item ''lib-1.0'' 20 5 1 [])]),
     ix_roots := Some (fmap_of_list [(chain_app, \<lparr>rt_pinned_at = 1, rt_ttl = 0\<rparr>)])\<rparr>"

definition chain_engine :: engine where
  "chain_engine = \<lparr>en_index = chain_index, en_grace = 10, en_keep = 0\<rparr>"

definition chain_order :: cascade_order where
  "chain_order = (let ks = [chain_app, chain_lib] in
     \<lparr>co_sum = ks, co_rev = ks, co_keys = ks, co_roots = ks\<rparr>)"

lemma chain_neq [simp]: "chain_app \<noteq> chain_lib" "chain_lib \<noteq> chain_app"
  by code_simp+

lemma chain_engine_index [simp]: "en_index chain_engine = chain_index"
  by (simp add: chain_engine_def)

lemma chain_lookup [simp]:
  "fmlookup (entries_of chain_index) chain_app
    = Some (sample_item ''app-1.0'' 10 5 1 [store_prefix @ chain_lib @ ''-lib''])"
  "fmlookup (entries_of chain_index) chain_lib = Some (sample_item ''lib-1.0'' 20 5 1 [])"
  "fmlookup (roots_of chain_index) chain_app = Some \<lparr>rt_pinned_at = 1, rt_ttl = 0\<rparr>"
  by (simp_all add: chain_index_def fmlookup_of_list)

lemma chain_dom [simp]: "fmdom' (entries_of chain_index) = {chain_app, chain_lib}"
  by (simp add: chain_index_def fmdom'_alt_def fset_of_list.rep_eq)

lemma chain_order_ok: "set ts \<subseteq> {chain_app, chain_lib} \<Longrightarrow> cascade_order_ok chain_order chain_engine ts"
  by (auto simp: cascade_order_ok_def chain_order_def Let_def enumerates_def)

lemma chain_refs: "refs_of (entries_of chain_index) chain_app = {chain_lib}"
proof -
  have "get_hash_from_path (store_prefix @ chain_lib @ CHR ''-'' # ''lib'') = chain_lib"
    by (rule get_hash_from_path_store) code_simp+
  moreover have "chain_lib \<noteq> []" by (simp add: chain_lib_def)
  ultimately show ?thesis by (simp add: refs_of_def ref_hashes_def sample_item_def)
qed

lemma chain_app_dependent: "chain_app \<in> dependents (entries_of chain_index) {chain_lib}"
  by (rule dep_ref [OF dep_target]) (simp_all add: chain_refs)

lemma chain_lib_independent: "chain_lib \<notin> dependents (entries_of chain_index) {chain_app}"
proof
  assume "chain_lib \<in> dependents (entries_of chain_index) {chain_app}"
  then show False
    by cases (auto simp: refs_of_def ref_hashes_def sample_item_def)
qed

theorem cascade_exact_witness:
  "gm_get (ix_entries (apply_result (cascade_evict chain_engine chain_order [chain_lib]) chain_index)) chain_app = None"
  using cascade_exact [OF chain_order_ok, of "[chain_lib]" chain_app] chain_app_dependent by simp

end
