(* ===== verification/Gc_Runner.thy ===== *)
theory Gc_Runner
  imports Gc_Retention Gc_Cascade
begin

text \<open>
  The workflow of \<open>pkg/gc/runner.go\<close>. The store is behind an interface; a run is described by
  the calls it makes on the store, in order, given the store's answers. The eight workers of
  \<open>physicalDelete\<close> finish in an arbitrary order, which is an argument. Logging is left out.
\<close>

section \<open>Run\<close>

record runner =
  rn_grace :: duration
  rn_keep :: int
  rn_physical :: bool
  rn_dry_run :: bool

datatype store_call = FetchIndex | PushIndex cache_index | DeleteManifest string

datatype run_error = FetchFailed string | PushFailed string

text \<open>What a run ends with: a result, an error, or the panic of \<open>NewEngine\<close> on a nil index.\<close>

datatype run_outcome = RunOk gc_result | RunErr run_error | RunPanic

definition new_runner :: "duration \<Rightarrow> int \<Rightarrow> bool \<Rightarrow> bool \<Rightarrow> runner" where
  "new_runner grace keep physical dry =
     \<lparr>rn_grace = grace, rn_keep = keep, rn_physical = physical, rn_dry_run = dry\<rparr>"

definition runner_engine :: "runner \<Rightarrow> cache_index \<Rightarrow> engine" where
  "runner_engine r idx = \<lparr>en_index = idx, en_grace = rn_grace r, en_keep = rn_keep r\<rparr>"

definition run_result ::
  "engine \<Rightarrow> sweep_order \<Rightarrow> cascade_order \<Rightarrow> time \<Rightarrow> int \<Rightarrow> string list \<Rightarrow> gc_result" where
  "run_result e so co now max_size targets =
     (if targets \<noteq> [] then cascade_evict e co targets else sweep e so now max_size)"

definition physical_delete :: "string list \<Rightarrow> store_call list" where
  "physical_delete keys = map DeleteManifest keys"

text \<open>
  \<open>fetched\<close> is the answer to \<open>FetchIndex\<close>: an error or an index, nil included; \<open>pushed\<close> the
  answer to \<open>PushIndex\<close>; \<open>finish\<close> the order in which the workers delete the keys they are given.
\<close>

definition run ::
  "runner \<Rightarrow> string + cache_index option \<Rightarrow> string option \<Rightarrow> (string list \<Rightarrow> string list)
    \<Rightarrow> sweep_order \<Rightarrow> cascade_order \<Rightarrow> time \<Rightarrow> int \<Rightarrow> string list
    \<Rightarrow> store_call list \<times> run_outcome" where
  "run r fetched pushed finish so co now max_size targets =
     (case fetched of
        Inl err \<Rightarrow> ([FetchIndex], RunErr (FetchFailed err))
      | Inr index \<Rightarrow>
          (case map_option (set_keep_versions (rn_keep r)) (new_engine index (rn_grace r)) of
             None \<Rightarrow> ([FetchIndex], RunPanic)
           | Some e \<Rightarrow>
               (let result = run_result e so co now max_size targets in
                if gr_evicted_count result = 0 then ([FetchIndex], RunOk result)
                else if rn_dry_run r then ([FetchIndex], RunOk result)
                else let calls = [FetchIndex, PushIndex (apply_result result (en_index e))]
                     in case pushed of
                          Some err \<Rightarrow> (calls, RunErr (PushFailed err))
                        | None \<Rightarrow>
                            (if rn_physical r \<and> gr_evicted_keys result \<noteq> []
                             then (calls @ physical_delete (finish (gr_evicted_keys result)), RunOk result)
                             else (calls, RunOk result)))))"

section \<open>What a run does to the store\<close>

lemma runner_engine_eq:
  "map_option (set_keep_versions (rn_keep r)) (new_engine index (rn_grace r))
    = map_option (runner_engine r) index"
  by (cases index) (simp_all add: new_engine_def set_keep_versions_def runner_engine_def)

lemma new_runner_sel [simp]:
  "rn_grace (new_runner g k p d) = g" "rn_keep (new_runner g k p d) = k"
  "rn_physical (new_runner g k p d) = p" "rn_dry_run (new_runner g k p d) = d"
  by (simp_all add: new_runner_def)

lemma runner_engine_index [simp]: "en_index (runner_engine r idx) = idx"
  by (simp add: runner_engine_def)

lemma run_cases:
  assumes "run r fetched pushed finish so co now mx ts = (calls, out)"
  obtains "calls = [FetchIndex]"
  | idx where "fetched = Inr (Some idx)" "\<not> rn_dry_run r"
      "calls = [FetchIndex, PushIndex (apply_result (run_result (runner_engine r idx) so co now mx ts) idx)]"
  | idx where "fetched = Inr (Some idx)" "\<not> rn_dry_run r" "rn_physical r" "pushed = None"
      "calls = [FetchIndex, PushIndex (apply_result (run_result (runner_engine r idx) so co now mx ts) idx)]
        @ physical_delete (finish (gr_evicted_keys (run_result (runner_engine r idx) so co now mx ts)))"
  using assms
  by (auto simp: run_def runner_engine_eq Let_def split: sum.splits option.splits if_splits)

lemma run_result_count: "gr_evicted_count (run_result e so co now mx ts) = int (length (gr_evicted_keys (run_result e so co now mx ts)))"
  by (simp add: run_result_def cascade_evict_def sweep_def Let_def split_beta)

lemma run_writes:
  assumes "\<not> rn_dry_run r" and "gr_evicted_keys (run_result (runner_engine r idx) so co now mx ts) \<noteq> []"
  shows "take 2 (fst (run r (Inr (Some idx)) pushed finish so co now mx ts))
    = [FetchIndex, PushIndex (apply_result (run_result (runner_engine r idx) so co now mx ts) idx)]"
  using assms by (simp add: run_def runner_engine_eq Let_def run_result_count split: option.splits)

lemma run_deletes:
  assumes "\<not> rn_dry_run r" and "rn_physical r"
    and "k \<in> set (gr_evicted_keys (run_result (runner_engine r idx) so co now mx ts))"
    and "\<And>ks. set (finish ks) = set ks"
  shows "DeleteManifest k \<in> set (fst (run r (Inr (Some idx)) None finish so co now mx ts))"
proof -
  have "gr_evicted_keys (run_result (runner_engine r idx) so co now mx ts) \<noteq> []" using assms(3) by auto
  with assms show ?thesis
    by (simp add: run_def runner_engine_eq Let_def run_result_count physical_delete_def)
qed

text \<open>A dry run never writes: the only call it makes on the store is the fetch, whatever the
  index holds and whatever the store answers.\<close>

lemma run_dry_reads_only:
  "rn_dry_run r \<Longrightarrow> fst (run r fetched pushed finish so co now mx ts) = [FetchIndex]"
  by (cases "run r fetched pushed finish so co now mx ts") (auto elim: run_cases)

text \<open>C4: A manifest is deleted only after the index without it is stored: each physical deletion
  follows a push the store accepted, of an index that no longer has the key.\<close>

theorem run_deletes_after_push:
  assumes "DeleteManifest k \<in> set (fst (run r fetched pushed finish so co now mx ts))"
    and "\<And>ks. set (finish ks) = set ks"
  shows "pushed = None \<and> (\<exists>idx.
      take 2 (fst (run r fetched pushed finish so co now mx ts)) = [FetchIndex, PushIndex idx]
      \<and> gm_get (ix_entries idx) k = None)"
proof -
  obtain calls out where eq: "run r fetched pushed finish so co now mx ts = (calls, out)" by fastforce
  with assms(1) have "DeleteManifest k \<in> set calls" by simp
  then show ?thesis
    unfolding eq fst_conv
    by (cases rule: run_cases [OF eq]) (auto simp: physical_delete_def assms(2) apply_result_get)
qed

theorem run_deletes_after_push_witness:
  "\<exists>idx. take 2 (fst (run (new_runner 10 0 True False) (Inr (Some chain_index)) None rev
       (sample_order []) chain_order 100 0 [chain_lib])) = [FetchIndex, PushIndex idx]
     \<and> gm_get (ix_entries idx) chain_app = None"
proof -
  let ?r = "new_runner 10 0 True False"
  have e: "runner_engine ?r chain_index = chain_engine"
    by (simp add: runner_engine_def new_runner_def chain_engine_def)
  have app: "chain_app \<in> set (gr_evicted_keys (cascade_evict chain_engine chain_order [chain_lib]))"
    using cascade_keys(1) [OF chain_order_ok, of "[chain_lib]"] chain_app_dependent by simp
  have "DeleteManifest chain_app \<in> set (fst (run ?r (Inr (Some chain_index)) None rev
       (sample_order []) chain_order 100 0 [chain_lib]))"
    by (rule run_deletes) (use app in \<open>auto simp: e run_result_def\<close>)
  from run_deletes_after_push [OF this] show ?thesis by simp
qed

text \<open>What a run stores keeps every live entry: in the index it pushes an entry reachable from an
  unexpired pin, or in the grace period, is what it was in the index it fetched.\<close>

lemma run_pushes_protected:
  assumes "PushIndex idx' \<in> set (fst (run r (Inr (Some idx)) pushed finish so co now mx []))"
    and "sweep_order_ok so (runner_engine r idx)"
    and "h \<in> live (entries_of idx) (active_roots (runner_engine r idx) now)
      \<or> (h \<in> fmdom' (entries_of idx) \<and> in_grace (runner_engine r idx) now h)"
  shows "gm_get (ix_entries idx') h = gm_get (ix_entries idx) h"
proof -
  let ?e = "runner_engine r idx"
  obtain calls out where eq: "run r (Inr (Some idx)) pushed finish so co now mx [] = (calls, out)" by fastforce
  with assms(1) have "PushIndex idx' \<in> set calls" by simp
  with eq have idx': "idx' = apply_result (sweep ?e so now mx) idx"
    by (cases rule: run_cases) (auto simp: physical_delete_def run_result_def)
  have "h \<in> protected ?e now (sweep_roots ?e so now)"
    using assms(3) by (auto simp: protected_active [OF assms(2)])
  then have "h \<notin> set (gr_evicted_keys (sweep ?e so now mx))"
    using sweep_marks_ok(2) [OF assms(2), of now] sweep_evicted_unmarked(2) [OF assms(2), of now mx]
    by blast
  then show ?thesis by (simp add: idx' apply_result_get)
qed

section \<open>Expired pins\<close>

text \<open>A run that finds nothing to evict stores nothing, so pins it found expired stay in the index:
  here the only pin of an index without entries has been expired for long.\<close>

lemma run_keeps_expired_roots:
  "\<exists>r idx now so co result. \<not> rn_dry_run r \<and> sweep_order_ok so (runner_engine r idx)
     \<and> run r (Inr (Some idx)) None id so co now 0 [] = ([FetchIndex], RunOk result)
     \<and> gr_expired_roots result \<noteq> []"
proof (intro exI conjI)
  let ?r = "new_runner 10 0 False False"
  let ?idx = "(new_index ''r'' ''o'' 0)\<lparr>ix_roots := Some (fmap_of_list [(''a'', \<lparr>rt_pinned_at = 0, rt_ttl = 1\<rparr>)])\<rparr>"
  let ?so = "\<lparr>so_sum = [], so_roots = [''a''], so_part = [], so_group = [], so_bases = [], so_cand = []\<rparr>"
  let ?now = "1000000000000 :: int"
  let ?res = "sweep (runner_engine ?r ?idx) ?so ?now 0"
  show "\<not> rn_dry_run ?r" by simp
  show "sweep_order_ok ?so (runner_engine ?r ?idx)"
    by (simp add: sweep_order_ok_def enumerates_def Let_def new_index_def gm_make_def)
  have "gr_evicted_count ?res = 0" "gr_expired_roots ?res = [''a'']"
    by (simp_all add: sweep_def sweep_marks_def Let_def scan_closure_def keep_phase_def sweep_roots_def select_roots_def
        runner_engine_def new_runner_def root_expired_def unix_def second_def add64_def wrap64_def)
  then show "run ?r (Inr (Some ?idx)) None id ?so chain_order ?now 0 [] = ([FetchIndex], RunOk ?res)"
    "gr_expired_roots ?res \<noteq> []"
    unfolding run_def runner_engine_eq Let_def by (simp_all add: run_result_def)
qed

end
