(* ===== verification/App_Commands.thy ===== *)
theory App_Commands
  imports Publisher Oci_Client Gc_Runner Config_Load
begin

text \<open>
  The commands that change the index (\<open>cmd/pin.go\<close>, \<open>unpin.go\<close>, \<open>gc.go\<close>), each from its flags to the
  requests it sends, with the target resolver (\<open>pkg/app/target_resolver.go\<close>). Log messages are left
  out; cobra has parsed the flags.
\<close>

section \<open>Results\<close>

datatype command_error =
    BadConfig config_error
  | BadMaxSize config_error
  | BadGracePeriod string
  | BadTtl config_error
  | TargetFailed string string
  | FetchIndexFailed string
  | PushIndexFailed string
  | ListTagsFailed string
  | AllRepairsFailed nat
  | GcFailed run_error

text \<open>What a command returns: a value, an error, or a panic.\<close>

datatype 'a command = Ok 'a | Err command_error | Crash

definition after :: "'a command \<times> world \<Rightarrow> ('a \<Rightarrow> world \<Rightarrow> 'b command \<times> world) \<Rightarrow> 'b command \<times> world" where
  "after m f = (case m of (Ok x, w) \<Rightarrow> f x w | (Err e, w) \<Rightarrow> (Err e, w) | (Crash, w) \<Rightarrow> (Crash, w))"

lemma after_simps [simp]:
  "after (Ok x, w) f = f x w" "after (Err e, w) f = (Err e, w)" "after (Crash, w) f = (Crash, w)"
  by (simp_all add: after_def)

lemma after_Ok: "after m f = (Ok y, w') \<Longrightarrow> \<exists>x w. m = (Ok x, w) \<and> f x w = (Ok y, w')"
  by (cases m; cases "fst m") (auto simp: after_def)

record env =
  ev_outside :: outside
  ev_runner :: nix_runner
  ev_net :: network
  ev_codecs :: codecs

section \<open>Targets\<close>

text \<open>The hashes of the paths that parse; the others are passed over. \<open>Crash\<close> is the slice of
  \<open>StorePath.Hash\<close>.\<close>

fun store_hashes :: "string list \<Rightarrow> string list command" where
  "store_hashes [] = Ok []"
| "store_hashes (p # ps) =
     (case parse_store_path p of
        Inl _ \<Rightarrow> store_hashes ps
      | Inr sp \<Rightarrow>
          (case store_path_hash sp of
             None \<Rightarrow> Crash
           | Some h \<Rightarrow> (case store_hashes ps of Ok hs \<Rightarrow> Ok (h # hs) | r \<Rightarrow> r)))"

definition resolve_arg :: "nix_runner \<Rightarrow> bool \<Rightarrow> string \<Rightarrow> string list command" where
  "resolve_arg nx allow_build arg =
     (if arg = [] then Ok []
      else case parse_nix_hash arg of
             Inr h \<Rightarrow> Ok [h]
           | Inl _ \<Rightarrow>
               (if has_prefix arg ''/nix/store'' then store_hashes [arg]
                else if allow_build
                then (case nx_build nx arg of Inl err \<Rightarrow> Err (TargetFailed arg err) | Inr ps \<Rightarrow> store_hashes ps)
                else (case nx_eval nx arg of Inl err \<Rightarrow> Err (TargetFailed arg err) | Inr p \<Rightarrow> store_hashes [p])))"

fun resolve_hashes :: "nix_runner \<Rightarrow> bool \<Rightarrow> string list \<Rightarrow> string list command" where
  "resolve_hashes nx allow_build [] = Ok []"
| "resolve_hashes nx allow_build (arg # args) =
     (case resolve_arg nx allow_build (trim_space arg) of
        Ok hs \<Rightarrow> (case resolve_hashes nx allow_build args of Ok rest \<Rightarrow> Ok (hs @ rest) | r \<Rightarrow> r)
      | r \<Rightarrow> r)"

section \<open>The client of a command\<close>

text \<open>\<open>NewClient\<close> in a world where other clients have been at work.\<close>

definition open_client :: "target \<Rightarrow> world \<Rightarrow> unit command \<times> world" where
  "open_client t w =
     (if tg_registry t = [] \<or> tg_repo t = [] then (Crash, w)
      else (Ok (), w\<lparr>w_transport := new_transport (tg_registry t) (tg_repo t) (tg_token t)\<rparr>))"

definition fetched :: "env \<Rightarrow> world \<Rightarrow> cache_index command \<times> world" where
  "fetched ev w =
     (case fetch_index (ev_net ev) (ev_codecs ev) w of
        (Inl err, w1) \<Rightarrow> (Err (FetchIndexFailed err), w1)
      | (Inr idx, w1) \<Rightarrow> (Ok idx, w1))"

definition stored :: "env \<Rightarrow> cache_index \<Rightarrow> world \<Rightarrow> cache_index command \<times> world" where
  "stored ev idx w =
     (case push_index (ev_net ev) (ev_codecs ev) idx w of
        (Failed err, w1) \<Rightarrow> (Err (PushIndexFailed err), w1)
      | (Panicked, w1) \<Rightarrow> (Crash, w1)
      | (Done idx', w1) \<Rightarrow> (Ok idx', w1))"

text \<open>The configuration, then the steps that need no registry, then the client and the index.\<close>

definition with_config :: "env \<Rightarrow> config_options \<Rightarrow> (config \<Rightarrow> world \<Rightarrow> 'a command \<times> world) \<Rightarrow> world \<Rightarrow> 'a command \<times> world" where
  "with_config ev opts f w =
     (case load (ev_outside ev) opts of Inl e \<Rightarrow> (Err (BadConfig e), w) | Inr cfg \<Rightarrow> f cfg w)"

definition with_index :: "env \<Rightarrow> target \<Rightarrow> (cache_index \<Rightarrow> world \<Rightarrow> 'a command \<times> world) \<Rightarrow> world \<Rightarrow> 'a command \<times> world" where
  "with_index ev t f w = after (open_client t w) (\<lambda>_ w1. after (fetched ev w1) f)"

section \<open>Pinning\<close>

fun pin_all :: "network \<Rightarrow> int \<Rightarrow> string list \<Rightarrow> cache_index \<Rightarrow> world \<Rightarrow> cache_index \<times> world" where
  "pin_all nt ttl [] idx w = (idx, w)"
| "pin_all nt ttl (h # hs) idx w =
     (let (now, w1) = read_clock nt w in pin_all nt ttl hs (pin_root h ttl now idx) w1)"

definition pin_index :: "env \<Rightarrow> int \<Rightarrow> string list \<Rightarrow> cache_index \<Rightarrow> world \<Rightarrow> cache_index command \<times> world" where
  "pin_index ev ttl hashes idx w =
     (case pin_all (ev_net ev) ttl hashes idx w of (idx', w1) \<Rightarrow> stored ev idx' w1)"

definition run_pin :: "env \<Rightarrow> config_options \<Rightarrow> string \<Rightarrow> string list \<Rightarrow> world \<Rightarrow> cache_index command \<times> world" where
  "run_pin ev opts ttl args =
     with_config ev opts (\<lambda>cfg w.
       case parse_ttl ttl of
         Inl e \<Rightarrow> (Err (BadTtl e), w)
       | Inr secs \<Rightarrow>
           after (resolve_hashes (ev_runner ev) True args, w) (\<lambda>hashes.
             with_index ev (cf_primary cfg) (pin_index ev secs hashes)))"

definition unpin_one :: "string \<Rightarrow> cache_index \<times> bool \<Rightarrow> cache_index \<times> bool" where
  "unpin_one h st =
     (case st of (idx, modified) \<Rightarrow>
        (if gm_get (ix_roots idx) h \<noteq> None then (idx\<lparr>ix_roots := gm_del (ix_roots idx) h\<rparr>, True)
         else (idx, modified)))"

text \<open>None: nothing was pinned, and nothing is stored.\<close>

definition unpin_index :: "env \<Rightarrow> string list \<Rightarrow> cache_index \<Rightarrow> world \<Rightarrow> cache_index option command \<times> world" where
  "unpin_index ev hashes idx w =
     (case fold unpin_one hashes (idx, False) of (idx', modified) \<Rightarrow>
        (if \<not> modified then (Ok None, w) else after (stored ev idx' w) (\<lambda>i w1. (Ok (Some i), w1))))"

definition run_unpin :: "env \<Rightarrow> config_options \<Rightarrow> string list \<Rightarrow> world \<Rightarrow> cache_index option command \<times> world" where
  "run_unpin ev opts args =
     with_config ev opts (\<lambda>cfg w.
       after (resolve_hashes (ev_runner ev) False args, w) (\<lambda>hashes.
         with_index ev (cf_primary cfg) (unpin_index ev hashes)))"

section \<open>Garbage collection\<close>

text \<open>The workers delete the keys in the order \<open>finish\<close> gives; their errors are only logged.\<close>

fun delete_manifests :: "network \<Rightarrow> codecs \<Rightarrow> string list \<Rightarrow> world \<Rightarrow> nat \<times> world" where
  "delete_manifests nt cd [] w = (0, w)"
| "delete_manifests nt cd (k # ks) w =
     (case delete_manifest nt cd k w of (r, w1) \<Rightarrow>
        (case delete_manifests nt cd ks w1 of (failures, w2) \<Rightarrow>
           (if r = None then failures else Suc failures, w2)))"

text \<open>\<open>Runner.Run\<close> on a client of the registry: the result, the index that was stored if one was. The
  clock is read for a sweep only.\<close>

definition gc_now :: "network \<Rightarrow> string list \<Rightarrow> world \<Rightarrow> time \<times> world" where
  "gc_now nt targets w = (if targets \<noteq> [] then (0, w) else read_clock nt w)"

definition gc_index ::
  "env \<Rightarrow> runner \<Rightarrow> (string list \<Rightarrow> string list) \<Rightarrow> sweep_order \<Rightarrow> cascade_order \<Rightarrow> int \<Rightarrow> string list
    \<Rightarrow> cache_index \<Rightarrow> world \<Rightarrow> (gc_result \<times> cache_index option) command \<times> world" where
  "gc_index ev r finish so co max_size targets idx w =
     (case gc_now (ev_net ev) targets w of (now, w1) \<Rightarrow>
        (let e = runner_engine r idx; result = run_result e so co now max_size targets
         in if gr_evicted_count result = 0 \<or> rn_dry_run r then (Ok (result, None), w1)
            else case push_index (ev_net ev) (ev_codecs ev) (apply_result result idx) w1 of
                   (Failed err, w2) \<Rightarrow> (Err (GcFailed (PushFailed err)), w2)
                 | (Panicked, w2) \<Rightarrow> (Crash, w2)
                 | (Done idx', w2) \<Rightarrow>
                     (if rn_physical r \<and> gr_evicted_keys result \<noteq> []
                      then case delete_manifests (ev_net ev) (ev_codecs ev) (finish (gr_evicted_keys result)) w2 of
                             (_, w3) \<Rightarrow> (Ok (result, Some idx'), w3)
                      else (Ok (result, Some idx'), w2))))"

definition gc_run ::
  "env \<Rightarrow> runner \<Rightarrow> (string list \<Rightarrow> string list) \<Rightarrow> sweep_order \<Rightarrow> cascade_order \<Rightarrow> int \<Rightarrow> string list
    \<Rightarrow> world \<Rightarrow> (gc_result \<times> cache_index option) command \<times> world" where
  "gc_run ev r finish so co max_size targets w =
     (case fetch_index (ev_net ev) (ev_codecs ev) w of
        (Inl err, w1) \<Rightarrow> (Err (GcFailed (FetchFailed err)), w1)
      | (Inr idx, w1) \<Rightarrow> gc_index ev r finish so co max_size targets idx w1)"

record gc_flags =
  gf_max_size :: string
  gf_grace :: string
  gf_physical :: bool
  gf_keep :: int
  gf_dry_run :: bool

definition run_gc ::
  "env \<Rightarrow> config_options \<Rightarrow> gc_flags \<Rightarrow> (string list \<Rightarrow> string list) \<Rightarrow> sweep_order \<Rightarrow> cascade_order \<Rightarrow> string list
    \<Rightarrow> world \<Rightarrow> (gc_result \<times> cache_index option) command \<times> world" where
  "run_gc ev opts fl finish so co args =
     with_config ev opts (\<lambda>cfg w.
       case parse_size (gf_max_size fl) of
         Inl e \<Rightarrow> (Err (BadMaxSize e), w)
       | Inr max_bytes \<Rightarrow>
           (case parse_duration (gf_grace fl) of
              None \<Rightarrow> (Err (BadGracePeriod (gf_grace fl)), w)
            | Some grace \<Rightarrow>
                after (resolve_hashes (ev_runner ev) False args, w) (\<lambda>hashes w1.
                  after (open_client (cf_primary cfg) w1) (\<lambda>_.
                    gc_run ev (new_runner grace (gf_keep fl) (gf_physical fl) (gf_dry_run fl))
                      finish so co max_bytes hashes))))"

end
