(* ===== verification/App_Index.thy ===== *)
theory App_Index
  imports App_Commands
begin

text \<open>
  The commands that check the index against the registry (\<open>cmd/repair.go\<close>, \<open>cmd/index_clean.go\<close>),
  with the worker pool (\<open>cmd/worker.go\<close>), and the search (\<open>cmd/search.go\<close>).
\<close>

section \<open>The worker pool\<close>

text \<open>When the context ends, \<open>runConcurrent\<close> stops handing out items: \<open>po_started\<close> is how many were
  handed out, \<open>po_finish\<close> the order in which they finish. The others keep a nil error.\<close>

record pool =
  po_started :: nat
  po_finish :: "string list \<Rightarrow> string list"

definition processed :: "pool \<Rightarrow> string list \<Rightarrow> string list" where
  "processed po items = po_finish po (take (po_started po) items)"

section \<open>Repair\<close>

definition repair_candidates :: "cache_index \<Rightarrow> string list \<Rightarrow> string list" where
  "repair_candidates idx tags =
     sort (filter (\<lambda>h. is_nix_hash h \<and> gm_get (ix_entries idx) h = None) (map to_lower tags))"

text \<open>The index after the repairs and how many failed; None is the panic of \<open>AddEntry\<close>.\<close>

fun repair_each :: "network \<Rightarrow> codecs \<Rightarrow> string list \<Rightarrow> cache_index \<Rightarrow> nat \<Rightarrow> world \<Rightarrow> (cache_index \<times> nat) option \<times> world" where
  "repair_each nt cd [] idx failed w = (Some (idx, failed), w)"
| "repair_each nt cd (h # hs) idx failed w =
     (case repair_index_entry nt cd h idx w of
        (Inl err, w1) \<Rightarrow> repair_each nt cd hs idx (Suc failed) w1
      | (Inr None, w1) \<Rightarrow> (None, w1)
      | (Inr (Some idx'), w1) \<Rightarrow> repair_each nt cd hs idx' failed w1)"

record repair_report =
  rr_missing :: "string list"
  rr_repaired :: nat
  rr_failed :: nat
  rr_index :: "cache_index option"

text \<open>The items that were not handed out have no error and count as repaired.\<close>

definition repair_tags ::
  "env \<Rightarrow> pool \<Rightarrow> bool \<Rightarrow> cache_index \<Rightarrow> string list \<Rightarrow> world \<Rightarrow> repair_report command \<times> world" where
  "repair_tags ev po dry_run idx tags w =
     (let missing = repair_candidates idx tags in
      if missing = [] \<or> dry_run
      then (Ok \<lparr>rr_missing = missing, rr_repaired = 0, rr_failed = 0, rr_index = None\<rparr>, w)
      else case repair_each (ev_net ev) (ev_codecs ev) (processed po missing) idx 0 w of
             (None, w1) \<Rightarrow> (Crash, w1)
           | (Some (idx1, failed), w1) \<Rightarrow>
               (if length missing = failed then (Err (AllRepairsFailed failed), w1)
                else after (stored ev idx1 w1) (\<lambda>idx2 w2.
                  (Ok \<lparr>rr_missing = missing, rr_repaired = length missing - failed, rr_failed = failed,
                       rr_index = Some idx2\<rparr>, w2))))"

text \<open>None is the listing of the tags not coming to an end.\<close>

definition repair_with ::
  "env \<Rightarrow> pool \<Rightarrow> bool \<Rightarrow> cache_index \<Rightarrow> world \<Rightarrow> (repair_report command \<times> world) option" where
  "repair_with ev po dry_run idx w =
     (case list_tags (ev_net ev) (ev_codecs ev) w of
        None \<Rightarrow> None
      | Some (Inl err, w1) \<Rightarrow> Some (Err (ListTagsFailed err), w1)
      | Some (Inr tags, w1) \<Rightarrow> Some (repair_tags ev po dry_run idx tags w1))"

definition run_repair ::
  "env \<Rightarrow> config_options \<Rightarrow> pool \<Rightarrow> bool \<Rightarrow> world \<Rightarrow> (repair_report command \<times> world) option" where
  "run_repair ev opts po dry_run w =
     (case with_config ev opts (\<lambda>cfg. with_index ev (cf_primary cfg) (\<lambda>idx w1. (Ok idx, w1))) w of
        (Ok idx, w1) \<Rightarrow> repair_with ev po dry_run idx w1
      | (Err e, w1) \<Rightarrow> Some (Err e, w1)
      | (Crash, w1) \<Rightarrow> Some (Crash, w1))"

section \<open>Cleaning\<close>

datatype clean_reason = FetchBroken string | NoLayer | NoName

definition check_entry :: "network \<Rightarrow> codecs \<Rightarrow> string \<Rightarrow> world \<Rightarrow> clean_reason option \<times> world" where
  "check_entry nt cd h w =
     (case fetch_manifest nt cd h w of
        (Inl err, w1) \<Rightarrow> (Some (FetchBroken err), w1)
      | (Inr m, w1) \<Rightarrow>
          (if mf_layers m = [] then (Some NoLayer, w1)
           else if mf_annotations m = None \<or> annotation m ''org.nix.name'' = [] then (Some NoName, w1)
           else (None, w1)))"

fun check_entries :: "network \<Rightarrow> codecs \<Rightarrow> string list \<Rightarrow> world \<Rightarrow> (string \<times> clean_reason) list \<times> world" where
  "check_entries nt cd [] w = ([], w)"
| "check_entries nt cd (h # hs) w =
     (case check_entry nt cd h w of (r, w1) \<Rightarrow>
        (case check_entries nt cd hs w1 of (rest, w2) \<Rightarrow>
           (case r of None \<Rightarrow> rest | Some reason \<Rightarrow> (h, reason) # rest, w2)))"

definition drop_entry :: "cache_index \<Rightarrow> string \<Rightarrow> cache_index" where
  "drop_entry idx h = idx\<lparr>ix_entries := gm_del (ix_entries idx) h, ix_roots := gm_del (ix_roots idx) h\<rparr>"

record clean_report =
  cl_corrupted :: "(string \<times> clean_reason) list"
  cl_index :: "cache_index option"
  cl_undeleted :: nat

text \<open>\<open>hashes\<close> is the order in which the program ranges over the entries.\<close>

definition clean_index ::
  "env \<Rightarrow> pool \<Rightarrow> bool \<Rightarrow> bool \<Rightarrow> string list \<Rightarrow> cache_index \<Rightarrow> world \<Rightarrow> clean_report command \<times> world" where
  "clean_index ev po dry_run delete_tags hashes idx w =
     (case check_entries (ev_net ev) (ev_codecs ev) (processed po hashes) w of (corrupted, w1) \<Rightarrow>
        (if corrupted = [] \<or> dry_run
         then (Ok \<lparr>cl_corrupted = corrupted, cl_index = None, cl_undeleted = 0\<rparr>, w1)
         else case read_clock (ev_net ev) w1 of (now, w2) \<Rightarrow>
           after (stored ev ((foldl drop_entry idx (map fst corrupted))\<lparr>ix_generated := now\<rparr>) w2) (\<lambda>idx' w3.
             case (if delete_tags then delete_manifests (ev_net ev) (ev_codecs ev) (map fst corrupted) w3 else (0, w3)) of
               (failures, w4) \<Rightarrow>
                 (Ok \<lparr>cl_corrupted = corrupted, cl_index = Some idx', cl_undeleted = failures\<rparr>, w4))))"

definition run_clean ::
  "env \<Rightarrow> config_options \<Rightarrow> pool \<Rightarrow> bool \<Rightarrow> bool \<Rightarrow> string list \<Rightarrow> world \<Rightarrow> clean_report command \<times> world" where
  "run_clean ev opts po dry_run delete_tags hashes =
     with_config ev opts (\<lambda>cfg. with_index ev (cf_primary cfg) (clean_index ev po dry_run delete_tags hashes))"

section \<open>Search\<close>

definition name_or_hash_contains :: "string \<Rightarrow> string \<times> index_item \<Rightarrow> bool" where
  "name_or_hash_contains query m \<longleftrightarrow>
     str_contains (to_lower (it_name (snd m))) query \<or> str_contains (to_lower (fst m)) query"

definition search_query :: "string list \<Rightarrow> string" where
  "search_query args = (case args of [] \<Rightarrow> [] | a # _ \<Rightarrow> to_lower (trim_space a))"

definition all_matches :: "cache_index \<Rightarrow> string list \<Rightarrow> (string \<times> index_item) list" where
  "all_matches idx keys = List.map_filter (\<lambda>h. map_option (Pair h) (gm_get (ix_entries idx) h)) keys"

text \<open>\<open>keys\<close> is the order in which the program ranges over the entries; the sort is stable on it, and
  as the order is arbitrary so are ties.\<close>

definition search_matches ::
  "nix_runner \<Rightarrow> string list \<Rightarrow> string list \<Rightarrow> cache_index \<Rightarrow> (string \<times> index_item) list command" where
  "search_matches nx args keys idx =
     (let query = search_query args in
      if query = [] then Ok (all_matches idx keys)
      else case resolve_hashes nx False args of
             Crash \<Rightarrow> Crash
           | Err e \<Rightarrow> Ok (filter (name_or_hash_contains query) (all_matches idx keys))
           | Ok hashes \<Rightarrow>
               (if hashes = [] then Ok (filter (name_or_hash_contains query) (all_matches idx keys))
                else Ok (all_matches idx (rev (remdups (rev hashes))))))"

definition by_name :: "(string \<times> index_item) list \<Rightarrow> (string \<times> index_item) list" where
  "by_name ms = sort_key (\<lambda>m. it_name (snd m)) ms"

definition search_index ::
  "env \<Rightarrow> string list \<Rightarrow> string list \<Rightarrow> cache_index \<Rightarrow> world \<Rightarrow> (string \<times> index_item) list command \<times> world" where
  "search_index ev args keys idx w =
     (case search_matches (ev_runner ev) args keys idx of
        Ok ms \<Rightarrow> (Ok (by_name ms), w) | Err e \<Rightarrow> (Err e, w) | Crash \<Rightarrow> (Crash, w))"

definition run_search ::
  "env \<Rightarrow> config_options \<Rightarrow> string list \<Rightarrow> string list \<Rightarrow> world \<Rightarrow> (string \<times> index_item) list command \<times> world" where
  "run_search ev opts args keys =
     with_config ev opts (\<lambda>cfg. with_index ev (cf_primary cfg) (search_index ev args keys))"

text \<open>A line of the printed list; \<open>stamp\<close> formats the local time. The name is padded to 32 runes, which
  are counted as the bytes that do not continue a rune.\<close>

definition rune_count :: "string \<Rightarrow> nat" where
  "rune_count s = length (filter (\<lambda>c. byte c < 128 \<or> 192 \<le> byte c) s)"

definition search_line :: "(time \<Rightarrow> string) \<Rightarrow> string \<times> index_item \<Rightarrow> string" where
  "search_line stamp m =
     ''  - '' @ it_name (snd m) @ replicate (32 - rune_count (it_name (snd m))) (CHR '' '') @ '' ('' @ fst m
     @ '') [Size: '' @ format_size (it_nar_size (snd m)) @ '', Added: '' @ stamp (it_added (snd m)) @ '']''"

end
