(* ===== verification/App_Push.thy ===== *)
theory App_Push
  imports App_Commands
begin

text \<open>
  \<open>cmd/push.go\<close>: the signing key, the inputs, and the publish to every registry with one export
  cache; and the settings \<open>cmd/proxy.go\<close> starts the proxy with. Standard input is an argument.
\<close>

section \<open>Inputs\<close>

datatype push_error =
    NoSigningKey
  | BadSigningKey sign_error
  | BuildFailed string string
  | NoInputs
  | BadCompression string
  | BadPushConfig config_error
  | PublishFailed string

record push_flags =
  pf_signing_key :: string
  pf_key_file :: string
  pf_compression :: string
  pf_level :: int
  pf_skip_upstream :: bool
  pf_jobs :: int

definition resolve_signer :: "outside \<Rightarrow> push_flags \<Rightarrow> push_error + signer" where
  "resolve_signer w fl =
     (let key = or_else (pf_signing_key fl) (os_getenv w ''NOCI_SIGNING_KEY'');
          key_file = or_else (pf_key_file fl) (os_getenv w ''NOCI_KEY_FILE'')
      in if key = [] \<and> key_file = [] then Inl NoSigningKey
         else case (if key \<noteq> [] then new_signer_from_key key else new_signer (os_read_file w key_file)) of
                Inl e \<Rightarrow> Inl (BadSigningKey e)
              | Inr s \<Rightarrow> Inr s)"

text \<open>A standard input that is a terminal or cannot be read is None. A line that is longer than the
  buffer of the scanner ends it.\<close>

definition scanner_limit :: nat where "scanner_limit = 64 * 1024"

definition scan_lines :: "string \<Rightarrow> string list" where
  "scan_lines s = takeWhile (\<lambda>l. length l < scanner_limit) (split_on (CHR 0x0A) s)"

definition read_stdin_paths :: "(string \<Rightarrow> string + string list) \<Rightarrow> string option \<Rightarrow> string list" where
  "read_stdin_paths parse stdin =
     (case stdin of None \<Rightarrow> []
      | Some data \<Rightarrow>
          (if data = [] then []
           else let trimmed = trim_space data
                in if has_prefix trimmed ''['' \<or> has_prefix trimmed ''{''
                   then (case parse trimmed of Inl _ \<Rightarrow> [] | Inr paths \<Rightarrow> paths)
                   else filter (\<lambda>l. l \<noteq> []) (map trim_space (scan_lines trimmed))))"

fun resolve_args :: "nix_runner \<Rightarrow> string list \<Rightarrow> push_error + string list" where
  "resolve_args nx [] = Inr []"
| "resolve_args nx (a # args) =
     (let arg = trim_space a in
      if arg = [] then resolve_args nx args
      else case (if has_prefix arg ''/nix/store'' then Inr [arg]
                 else case nx_build nx arg of Inl err \<Rightarrow> Inl (BuildFailed arg err) | Inr ps \<Rightarrow> Inr ps) of
             Inl e \<Rightarrow> Inl e
           | Inr ps \<Rightarrow> (case resolve_args nx args of Inl e \<Rightarrow> Inl e | Inr rest \<Rightarrow> Inr (ps @ rest)))"

definition resolve_inputs ::
  "nix_runner \<Rightarrow> (string \<Rightarrow> string + string list) \<Rightarrow> string option \<Rightarrow> string list \<Rightarrow> push_error + string list" where
  "resolve_inputs nx parse stdin args =
     (case resolve_args nx args of
        Inl e \<Rightarrow> Inl e
      | Inr ps \<Rightarrow>
          (let inputs = (if ps = [] then read_stdin_paths parse stdin else ps)
           in if inputs = [] then Inl NoInputs else Inr inputs))"

section \<open>Publishing\<close>

text \<open>The registries are worked on one after another, in the order in which their goroutines finish,
  with one export cache.\<close>

fun publish_all ::
  "env \<Rightarrow> (bytes \<Rightarrow> string \<Rightarrow> bytes) \<Rightarrow> (path_info list \<Rightarrow> path_info list) \<Rightarrow> (path_info list \<Rightarrow> path_info list)
    \<Rightarrow> publisher \<Rightarrow> string list \<Rightarrow> target list \<Rightarrow> (string, progress) fmap option \<times> world
    \<Rightarrow> cache_index option go_outcome list \<times> (string, progress) fmap option \<times> world" where
  "publish_all ev sign finish finish2 p inputs [] cw = ([], cw)"
| "publish_all ev sign finish finish2 p inputs (t # ts) cw =
     (let w = (snd cw)\<lparr>w_transport := new_transport (tg_registry t) (tg_repo t) (tg_token t)\<rparr>;
          (r, cw1) = publish_to_registry (ev_net ev) (ev_codecs ev) (ev_runner ev) sign finish finish2 p inputs (fst cw, w);
          (rs, cw2) = publish_all ev sign finish finish2 p inputs ts cw1
      in (r # rs, cw2))"

datatype push_result = Pushed | PushErr push_error | PushCrash

text \<open>The panics: a client without registry or repository, a publisher without clients, and those of
  the pipeline. The last component is what \<open>Cleanup\<close> removes, which a panic in a goroutine of its own
  skips.\<close>

definition run_push ::
  "env \<Rightarrow> (bytes \<Rightarrow> string \<Rightarrow> bytes) \<Rightarrow> (path_info list \<Rightarrow> path_info list) \<Rightarrow> (path_info list \<Rightarrow> path_info list)
    \<Rightarrow> (target list \<Rightarrow> target list) \<Rightarrow> (string \<Rightarrow> string + string list) \<Rightarrow> string option
    \<Rightarrow> config_options \<Rightarrow> push_flags \<Rightarrow> string list \<Rightarrow> world \<Rightarrow> push_result \<times> world \<times> string set" where
  "run_push ev sign finish finish2 finish3 parse stdin opts fl args w =
     (case load (ev_outside ev) opts of
        Inl e \<Rightarrow> (PushErr (BadPushConfig e), w, {})
      | Inr cfg \<Rightarrow>
          (case resolve_signer (ev_outside ev) fl of
             Inl e \<Rightarrow> (PushErr e, w, {})
           | Inr signer \<Rightarrow>
               (case resolve_inputs (ev_runner ev) parse stdin args of
                  Inl e \<Rightarrow> (PushErr e, w, {})
                | Inr inputs \<Rightarrow>
                    (let compression = to_lower (trim_space (pf_compression fl)) in
                     if compression \<noteq> ''zstd'' \<and> compression \<noteq> ''gzip''
                     then (PushErr (BadCompression (pf_compression fl)), w, {})
                     else if list_ex (\<lambda>t. tg_registry t = [] \<or> tg_repo t = []) (cf_registries cfg)
                     then (PushCrash, w, {})
                     else case new_publisher (length (cf_registries cfg)) (Some signer) (pf_skip_upstream fl)
                                 compression (pf_level fl) (pf_jobs fl) of
                            None \<Rightarrow> (PushCrash, w, {})
                          | Some p \<Rightarrow>
                              (case publish_all ev sign finish finish2 p inputs (finish3 (cf_registries cfg))
                                      (Some fmempty, w) of
                                 (outcomes, c, w1) \<Rightarrow>
                                   (let cleaned = (case c of Some m \<Rightarrow> cleanup_files m | None \<Rightarrow> {})
                                    in case publish_verdict outcomes of
                                         Done _ \<Rightarrow> (Pushed, w1, cleaned)
                                       | Failed err \<Rightarrow> (PushErr (PublishFailed err), w1, cleaned)
                                       | Panicked \<Rightarrow>
                                           (PushCrash, w1, if length (cf_registries cfg) = 1 then cleaned else {})))))))"

section \<open>The settings of the proxy\<close>

record proxy_flags =
  px_port :: int
  px_listen :: string
  px_upstreams :: "string list"
  px_no_upstream :: bool
  px_auth_key :: string
  px_rate :: "int \<times> nat"
  px_cache_dir :: string

definition proxy_auth_key :: "outside \<Rightarrow> proxy_flags \<Rightarrow> string" where
  "proxy_auth_key w fl = or_else (px_auth_key fl) (os_getenv w ''NOCI_AUTH_KEY'')"

definition effective_upstreams :: "proxy_flags \<Rightarrow> string list" where
  "effective_upstreams fl =
     (if px_no_upstream fl then [] else filter (\<lambda>u. u \<noteq> []) (map trim_space (px_upstreams fl)))"

definition proxy_addr :: "proxy_flags \<Rightarrow> string" where
  "proxy_addr fl = px_listen fl @ '':'' @ show_int (px_port fl)"

end
