(* ===== verification/Oci_Upload.thy ===== *)
theory Oci_Upload
  imports Oci_Blob
begin

text \<open>
  What an upload sends: the chunks of a chunked upload cover the file, a successful upload has been
  confirmed by the registry, and what happens when an upload session expires or a monolithic PUT
  fails.
\<close>

section \<open>Sessions and final requests\<close>

abbreviation base_url :: "world \<Rightarrow> string" where
  "base_url w \<equiv> ''https://'' @ tr_registry (w_transport w) @ ''/v2/'' @ tr_repo (w_transport w) @ ''/nix-cache''"

lemma sends_start_session: "start_session nt resolve kind w = (r, w') \<Longrightarrow> {''GET'', ''POST''} \<subseteq> ms \<Longrightarrow> sends ms w w'"
  unfolding start_session_def
  by (auto split: prod.splits sum.splits if_splits intro: sends_request)

text \<open>A loop that ends with an answer below 500 ends with the request it was given.\<close>

definition confirmed :: "network \<Rightarrow> world \<Rightarrow> oci_request \<Rightarrow> http_answer \<Rightarrow> bool" where
  "confirmed nt w rq resp \<longleftrightarrow> (\<exists>h. w_log w = h @ [rq] \<and> nt_answer nt h rq = Inr resp)"

text \<open>The same for the last request sent since a state.\<close>

definition answered_last :: "network \<Rightarrow> world \<Rightarrow> world \<Rightarrow> oci_request \<Rightarrow> http_answer \<Rightarrow> bool" where
  "answered_last nt w w' rq resp \<longleftrightarrow>
     (\<exists>new. w_log w' = w_log w @ new @ [rq] \<and> nt_answer nt (w_log w @ new) rq = Inr resp)"

lemma answered_confirmed: "answered_last nt w w' rq resp \<Longrightarrow> confirmed nt w' rq resp"
  unfolding answered_last_def confirmed_def by force

lemma answered_later: "sends ms w w1 \<Longrightarrow> answered_last nt w1 w' rq resp \<Longrightarrow> answered_last nt w w' rq resp"
  unfolding answered_last_def sends_def by force

lemma answered_exchange: "exchange nt rq w = (Inr resp, w') \<Longrightarrow> answered_last nt w w' rq resp"
  unfolding answered_last_def exchange_def by (auto intro: exI [of _ "[]"])

lemma commit_loop_log:
  assumes "commit_loop n nt url backoff lst w = (r, w')" and "\<not> below_500 lst"
  shows "sends {''GET'', ''PUT''} w w'
    \<and> (\<forall>resp. r = Inr (Inr resp) \<longrightarrow> ha_status resp < 500 \<longrightarrow>
        (\<exists>token. answered_last nt w w' (upload_request ''PUT'' url token [] None) resp))"
  using assms
proof (induction n arbitrary: backoff lst w)
  case (Suc n)
  obtain t w1 where t: "get_oci_token nt ''pull,push'' w = (t, w1)" by (cases "get_oci_token nt ''pull,push'' w")
  have w1: "sends {''GET'', ''PUT''} w w1" by (rule sends_get_token [OF t]) simp
  show ?case
  proof (cases "cancelled nt w = None \<and> (\<exists>token. t = Inr token)")
    case False
    with Suc.prems(1) t w1 show ?thesis by (auto split: option.splits sum.splits)
  next
    case True
    then obtain token where tok: "t = Inr token" by blast
    let ?rq = "upload_request ''PUT'' url token [] None"
    obtain a w2 where e: "exchange nt ?rq w1 = (a, w2)" by (cases "exchange nt ?rq w1")
    have w2: "sends {''GET'', ''PUT''} w w2"
      by (rule sends_trans [OF w1 sends_exchange [OF e]]) (simp add: upload_request_def)
    note loop = Suc.prems(1) [unfolded commit_loop.simps t tok]
    show ?thesis
    proof (cases "below_500 a")
      case True
      with loop e \<open>cancelled nt w = None \<and> _\<close> have "r = Inr a \<and> w' = w2" by auto
      then show ?thesis using w2 answered_later [OF w1 answered_exchange] e by blast
    next
      case False
      let ?b = "if n = 0 then backoff else mul64 backoff 2" and ?w = "if n = 0 then w2 else pause backoff w2"
      have "commit_loop n nt url ?b (closed_body a) ?w = (r, w')"
        using loop e \<open>cancelled nt w = None \<and> _\<close> False by simp
      from Suc.IH [OF this] False have ih: "sends {''GET'', ''PUT''} ?w w'
        \<and> (\<forall>resp. r = Inr (Inr resp) \<longrightarrow> ha_status resp < 500 \<longrightarrow>
            (\<exists>token. answered_last nt ?w w' (upload_request ''PUT'' url token [] None) resp))"
        by simp
      have "sends {''GET'', ''PUT''} w ?w" using w2 sends_trans [OF w2 sends_pause] by simp
      from sends_trans [OF this conjunct1 [OF ih]] answered_later [OF this] conjunct2 [OF ih] show ?thesis by blast
    qed
  qed
qed auto

text \<open>Only the first attempt of a monolithic upload reaches the registry.\<close>

lemma put_loop_closed:
  "put_loop n False nt url token content backoff lst w = (r, w') \<Longrightarrow> \<not> below_500 lst \<Longrightarrow> 0 < n
    \<Longrightarrow> (\<exists>err. r = Inl (''refresh token for monolithic upload: '' @ err)) \<or> (\<exists>err. r = Inr (Inl err))"
  by (induction n arbitrary: token backoff lst w)
    (auto simp: Let_def closed_body_def split: sum.splits prod.splits if_splits)

lemma sends_put_loop:
  "put_loop n first nt url token content backoff lst w = (r, w') \<Longrightarrow> sends {''GET'', ''PUT''} w w'"
proof (induction n arbitrary: first token backoff lst w)
  case (Suc n)
  obtain t w1 where t: "(if first then (Inr token, w) else get_oci_token nt ''pull,push'' w) = (t, w1)" by fastforce
  have w1: "sends {''GET'', ''PUT''} w w1"
    using t sends_get_token [of nt "''pull,push''" w t w1 "{''GET'', ''PUT''}"] by (auto split: if_splits)
  show ?case
  proof (cases t)
    case (Inl err)
    with Suc.prems t w1 show ?thesis by (auto split: sum.splits prod.splits)
  next
    case (Inr tok)
    obtain a w2 where e: "(if first then exchange nt (upload_request ''PUT'' url tok [] (Some content)) w1
        else (Inl ''file already closed'', w1)) = (a, w2)" by fastforce
    have w2: "sends {''GET'', ''PUT''} w w2"
      using e w1 sends_trans [OF w1 sends_exchange [of nt "upload_request ''PUT'' url tok [] (Some content)" w1 a w2]]
      by (auto simp: upload_request_def split: if_splits)
    have "(r = Inr a \<and> w' = w2) \<or> (\<exists>b l w3. (w3 = w2 \<or> (\<exists>d. w3 = pause d w2))
        \<and> put_loop n False nt url tok content b l w3 = (r, w'))"
      using Suc.prems unfolding put_loop.simps t Inr prod.case sum.case e Let_def
      by (cases "n = 0") (auto split: if_splits)
    then show ?thesis
    proof (elim disjE exE conjE)
      fix b l w3
      assume "put_loop n False nt url tok content b l w3 = (r, w')"
      from Suc.IH [OF this] have "sends {''GET'', ''PUT''} w3 w'" .
      moreover assume "w3 = w2"
      ultimately show ?thesis using w2 by (blast intro: sends_trans)
    next
      fix b l w3 d
      assume "put_loop n False nt url tok content b l w3 = (r, w')"
      from Suc.IH [OF this] have "sends {''GET'', ''PUT''} w3 w'" .
      moreover assume "w3 = pause d w2"
      ultimately show ?thesis using w2 sends_trans [OF w2 sends_pause] by (blast intro: sends_trans)
    qed (use w2 in simp)
  qed
qed simp

lemma put_loop_first:
  assumes "put_loop 4 True nt url token content backoff lst w = (Inr (Inr resp), w')"
  shows "ha_status resp < 500 \<and> answered_last nt w w' (upload_request ''PUT'' url token [] (Some content)) resp"
proof -
  let ?rq = "upload_request ''PUT'' url token [] (Some content)"
  obtain a w2 where e: "exchange nt ?rq w = (a, w2)" by (cases "exchange nt ?rq w")
  have n: "(4::nat) = Suc 3" by simp
  note loop = assms [unfolded n put_loop.simps if_True prod.case sum.case e Let_def]
  show ?thesis
  proof (cases "below_500 a")
    case True
    with loop have "a = Inr resp \<and> w' = w2" by auto
    with True have "ha_status resp < 500" by (metis below_500_simps(1))
    with \<open>a = Inr resp \<and> w' = w2\<close> e show ?thesis by (auto intro: answered_exchange)
  next
    case False
    with loop have "put_loop 3 False nt url token content (mul64 backoff 2) (closed_body a) (pause backoff w2) = (Inr (Inr resp), w')"
      by simp
    from put_loop_closed [OF this] False show ?thesis by simp
  qed
qed

section \<open>Chunks\<close>

text \<open>The PATCH requests the registry accepted, among the requests \<open>rqs\<close> sent after \<open>h\<close>.\<close>

definition is_accepted_patch :: "network \<Rightarrow> oci_request list \<Rightarrow> oci_request \<Rightarrow> bool" where
  "is_accepted_patch nt h rq \<longleftrightarrow> oq_method rq = ''PATCH''
     \<and> (case nt_answer nt h rq of Inr resp \<Rightarrow> patch_accepted (ha_status resp) | Inl _ \<Rightarrow> False)"

fun accepted_patches :: "network \<Rightarrow> oci_request list \<Rightarrow> oci_request list \<Rightarrow> oci_request list" where
  "accepted_patches nt h [] = []"
| "accepted_patches nt h (rq # rqs) =
     (if is_accepted_patch nt h rq then [rq] else []) @ accepted_patches nt (h @ [rq]) rqs"

text \<open>The range and the body of the requests for a list of chunks.\<close>

fun chunk_requests :: "nat \<Rightarrow> string list \<Rightarrow> (string \<times> string option) list" where
  "chunk_requests start [] = []"
| "chunk_requests start (c # cs) = (chunk_range start (length c), Some c) # chunk_requests (start + length c) cs"

definition accepts :: "network \<Rightarrow> (string \<times> string option) list \<Rightarrow> world \<Rightarrow> world \<Rightarrow> bool" where
  "accepts nt cs w w' \<longleftrightarrow> (\<exists>new. w_log w' = w_log w @ new
     \<and> map (\<lambda>rq. (oq_range rq, oq_body rq)) (accepted_patches nt (w_log w) new) = cs)"

lemma accepted_patches_append:
  "accepted_patches nt h (xs @ ys) = accepted_patches nt h xs @ accepted_patches nt (h @ xs) ys"
  by (induction xs arbitrary: h) auto

lemma accepted_patches_none: "\<forall>rq\<in>set rqs. oq_method rq \<noteq> ''PATCH'' \<Longrightarrow> accepted_patches nt h rqs = []"
  by (induction rqs arbitrary: h) (auto simp: is_accepted_patch_def)

lemma accepts_trans: "accepts nt cs w w' \<Longrightarrow> accepts nt ds w' w'' \<Longrightarrow> accepts nt (cs @ ds) w w''"
  unfolding accepts_def by (auto simp: accepted_patches_append)

lemma accepts_refl [simp]: "accepts nt [] w w"
  by (simp add: accepts_def)

lemma accepts_sends: "sends ms w w' \<Longrightarrow> ''PATCH'' \<notin> ms \<Longrightarrow> accepts nt [] w w'"
  unfolding sends_def accepts_def using accepted_patches_none by fastforce

lemma accepts_exchange:
  "exchange nt rq w = (a, w') \<Longrightarrow>
    accepts nt (if is_accepted_patch nt (w_log w) rq then [(oq_range rq, oq_body rq)] else []) w w'"
  by (auto simp: accepts_def exchange_def)

lemma patch_loop_accepts:
  assumes "patch_loop n nt url start chunk backoff e w = (Inr resp, w')"
  shows "accepts nt [(chunk_range start (length chunk), Some chunk)] w w'"
  using assms
proof (induction n arbitrary: backoff e w)
  case (Suc n)
  have nc: "cancelled nt w = None" using Suc.prems by (simp split: option.splits)
  obtain token w1 where t: "get_oci_token nt ''pull,push'' w = (Inr token, w1)"
    using Suc.prems nc by (cases "get_oci_token nt ''pull,push'' w") (auto split: sum.splits)
  let ?rq = "upload_request ''PATCH'' url token (chunk_range start (length chunk)) (Some chunk)"
  obtain a w2 where x: "exchange nt ?rq w1 = (a, w2)" by (cases "exchange nt ?rq w1")
  have w1: "accepts nt [] w w1" by (rule accepts_sends [OF sends_get_token [OF t, of "{''GET''}"]]) simp_all
  have ans: "a = nt_answer nt (w_log w1) ?rq" using exchange_log [OF x] by simp
  note loop = Suc.prems [unfolded patch_loop.simps nc t x option.case prod.case sum.case]
  show ?case
  proof (cases "\<exists>r. a = Inr r \<and> patch_accepted (ha_status r)")
    case True
    with loop have "w' = w2" by auto
    moreover have "is_accepted_patch nt (w_log w1) ?rq"
      using True ans by (auto simp: is_accepted_patch_def upload_request_def)
    ultimately show ?thesis
      using accepts_trans [OF w1 accepts_exchange [OF x]] by (simp add: upload_request_def)
  next
    case False
    then have "\<not> is_accepted_patch nt (w_log w1) ?rq"
      using ans by (auto simp: is_accepted_patch_def split: sum.splits)
    with accepts_trans [OF w1 accepts_exchange [OF x]] have w2: "accepts nt [] w w2" by simp
    have w3: "accepts nt [] w (if n = 0 then w2 else pause backoff w2)"
      using accepts_trans [OF w2 accepts_sends [OF sends_pause, of "{}"]] w2 by simp
    have "\<exists>b e. patch_loop n nt url start chunk b e (if n = 0 then w2 else pause backoff w2) = (Inr resp, w')"
      using loop False by (cases a) (auto split: if_splits)
    with Suc.IH accepts_trans [OF w3] show ?thesis by fastforce
  qed
qed simp

lemma chunk_requests_append:
  "chunk_requests start (cs @ ds) = chunk_requests start cs @ chunk_requests (start + length (concat cs)) ds"
  by (induction cs arbitrary: start) (auto simp: add.assoc)

lemma chunk_loop_accepts:
  assumes "chunk_loop nt resolve url start rest w = (Inr last_url, w')"
  shows "\<exists>chunks. concat chunks = rest \<and> list_all (\<lambda>c. c \<noteq> [] \<and> length c \<le> chunk_size) chunks
    \<and> accepts nt (chunk_requests start chunks) w w'"
  using assms
proof (induction nt resolve url start rest w rule: chunk_loop.induct)
  case (1 nt resolve url start rest w)
  show ?case
  proof (cases "rest = []")
    case True
    with 1(2) have "w' = w" by (simp add: chunk_loop.simps)
    with True show ?thesis by (intro exI [of _ "[]"]) simp
  next
    case False
    let ?c = "take chunk_size rest"
    obtain resp w1 where p: "patch_loop 4 nt url start ?c second [] w = (Inr resp, w1)"
      and l: "chunk_loop nt resolve (next_location resolve w1 resp url) (start + length ?c) (drop chunk_size rest) w1
        = (Inr last_url, w')"
      using 1(2) False by (subst (asm) chunk_loop.simps) (auto simp: Let_def split: prod.splits sum.splits)
    obtain chunks where ih: "concat chunks = drop chunk_size rest"
        "list_all (\<lambda>c. c \<noteq> [] \<and> length c \<le> chunk_size) chunks"
        "accepts nt (chunk_requests (start + length ?c) chunks) w1 w'"
      using 1(1) [OF False refl p [symmetric] refl l] by blast
    have "accepts nt (chunk_requests start (?c # chunks)) w w'"
      using accepts_trans [OF patch_loop_accepts [OF p] ih(3)] by simp
    moreover have "concat (?c # chunks) = rest" using ih(1) by simp
    moreover have "?c \<noteq> [] \<and> length ?c \<le> chunk_size" using False by (simp add: chunk_size_def)
    ultimately show ?thesis using ih(2) by (intro exI [of _ "?c # chunks"]) simp
  qed
qed

section \<open>Uploads\<close>

lemma sends_monolithic:
  assumes "upload_monolithic nt resolve fcontent hex w = (r, w')"
  shows "sends {''GET'', ''POST'', ''PUT''} w w'"
proof (cases fcontent)
  case (Inl err)
  with assms show ?thesis by (simp add: upload_monolithic_def)
next
  case (Inr content)
  obtain t w1 where t: "get_oci_token nt ''pull,push'' w = (t, w1)" by (cases "get_oci_token nt ''pull,push'' w")
  have w1: "sends {''GET'', ''POST'', ''PUT''} w w1" by (rule sends_get_token [OF t]) simp
  obtain u w2 where u: "start_session nt resolve ''blob'' w1 = (u, w2)" by (cases "start_session nt resolve ''blob'' w1")
  have w2: "sends {''GET'', ''POST'', ''PUT''} w w2"
    by (rule sends_trans [OF w1 sends_start_session [OF u]]) simp
  show ?thesis
  proof (cases "(\<exists>token. t = Inr token) \<and> (\<exists>url. u = Inr url)")
    case False
    with assms [unfolded upload_monolithic_def Let_def Inr sum.case t prod.case] w1 w2 u show ?thesis
      by (cases t; cases u) auto
  next
    case True
    then obtain token url where tu: "t = Inr token" "u = Inr url" by blast
    let ?url = "url @ ''?digest='' @ ''sha256:'' @ hex"
    obtain a w3 where p: "put_loop 4 True nt ?url token content second (Inl []) w2 = (a, w3)"
      by (cases "put_loop 4 True nt ?url token content second (Inl []) w2")
    have "sends {''GET'', ''POST'', ''PUT''} w w3"
      by (rule sends_trans [OF w2 sends_mono [OF sends_put_loop [OF p]]]) auto
    moreover have "w' = w3"
      using assms unfolding upload_monolithic_def Let_def Inr sum.case t u tu prod.case p
      by (auto split: sum.splits if_splits)
    ultimately show ?thesis by simp
  qed
qed

text \<open>With the size set to 0 every attempt is monolithic.\<close>

lemma sends_attempts_0:
  "upload_attempts n i nt resolve fcontent hex 0 err w = (r, w') \<Longrightarrow> sends {''GET'', ''POST'', ''PUT''} w w'"
proof (induction n arbitrary: i err w)
  case (Suc n)
  let ?w = "if 0 < i then pause (int i * 10 * second) w else w"
  have w0: "sends {''GET'', ''POST'', ''PUT''} w ?w" by simp
  obtain a w2 where m: "upload_monolithic nt resolve fcontent hex ?w = (a, w2)"
    by (cases "upload_monolithic nt resolve fcontent hex ?w")
  have w2: "sends {''GET'', ''POST'', ''PUT''} w w2" by (rule sends_trans [OF w0 sends_monolithic [OF m]])
  note loop = Suc.prems [unfolded upload_attempts.simps Let_def]
  show ?case
  proof (cases "\<exists>e. a = Failed e \<and> is_upload_session_expired e")
    case True
    then obtain e where "upload_attempts n (Suc i) nt resolve fcontent hex 0 e w2 = (r, w')"
      using loop m by auto
    from sends_trans [OF w2 Suc.IH [OF this]] show ?thesis .
  next
    case False
    with loop m have "w' = w2" by (auto split: go_outcome.splits if_splits)
    with w2 show ?thesis by simp
  qed
qed simp

lemma chunked_upload_ends:
  assumes "upload_chunked nt resolve (Inr content) hex w = (Done (digest, sz), w')"
  shows "\<exists>chunks put resp. concat chunks = content
    \<and> list_all (\<lambda>c. c \<noteq> [] \<and> length c \<le> chunk_size) chunks
    \<and> accepts nt (chunk_requests 0 chunks) w w'
    \<and> confirmed nt w' put resp \<and> patch_accepted (ha_status resp)
    \<and> oq_method put = ''PUT'' \<and> has_suffix (oq_url put) (''digest='' @ digest)
    \<and> digest = ''sha256:'' @ hex \<and> sz = int (length content)"
proof -
  obtain url w1 where s: "start_session nt resolve ''chunked'' w = (Inr url, w1)"
    using assms by (auto simp: upload_chunked_def Let_def split: prod.splits sum.splits)
  have w1: "accepts nt [] w w1"
    by (rule accepts_sends [OF sends_start_session [OF s, of "{''GET'', ''POST''}"]]) simp_all
  obtain last_url w2 where c: "chunk_loop nt resolve url 0 content w1 = (Inr last_url, w2)"
    using assms s by (auto simp: upload_chunked_def Let_def split: prod.splits sum.splits)
  obtain resp where
    p: "commit_loop 4 nt (commit_url last_url (''sha256:'' @ hex)) second (Inl []) w2 = (Inr (Inr resp), w')"
    and ok: "patch_accepted (ha_status resp)"
    and ds: "digest = ''sha256:'' @ hex" "sz = int (length content)"
    using assms unfolding upload_chunked_def Let_def s c prod.case sum.case
    by (auto simp: patch_accepted_def split: prod.splits sum.splits if_splits)
  obtain chunks where ch: "concat chunks = content" "list_all (\<lambda>c. c \<noteq> [] \<and> length c \<le> chunk_size) chunks"
      "accepts nt (chunk_requests 0 chunks) w1 w2"
    using chunk_loop_accepts [OF c] by blast
  have w3: "accepts nt [] w2 w'"
    using commit_loop_log [OF p] by (intro accepts_sends [of "{''GET'', ''PUT''}"]) simp_all
  have all: "accepts nt (chunk_requests 0 chunks) w w'"
    using accepts_trans [OF accepts_trans [OF w1 ch(3)] w3] by simp
  obtain token where cf: "confirmed nt w' (upload_request ''PUT'' (commit_url last_url (''sha256:'' @ hex)) token [] None) resp"
    using commit_loop_log [OF p] ok answered_confirmed by (fastforce simp: patch_accepted_def)
  have "has_suffix (commit_url last_url (''sha256:'' @ hex)) (''digest='' @ ''sha256:'' @ hex)"
    using has_suffix_append [of "last_url @ ''&''" "''digest='' @ ''sha256:'' @ hex"]
      has_suffix_append [of "last_url @ ''?''" "''digest='' @ ''sha256:'' @ hex"]
    by (simp add: commit_url_def)
  with all ch(1,2) cf ok ds show ?thesis
    unfolding ds
    by (intro exI [of _ chunks] exI [of _ "upload_request ''PUT'' (commit_url last_url (''sha256:'' @ hex)) token [] None"]
        exI [of _ resp] conjI) (simp_all add: upload_request_def)
qed

text \<open>C12: A chunked upload that succeeds has sent the whole file: the PATCH requests the registry accepted
  carry non-empty pieces of at most 4 MB that make up the file in order, each under the range it
  has in the file, and the last request commits the digest.\<close>

theorem chunked_upload_covers:
  assumes "upload_chunked nt resolve (Inr content) hex w = (Done (digest, sz), w')"
  shows "\<exists>chunks put resp. concat chunks = content
    \<and> list_all (\<lambda>c. c \<noteq> [] \<and> length c \<le> chunk_size) chunks
    \<and> accepts nt (chunk_requests 0 chunks) w w'
    \<and> confirmed nt w' put resp \<and> patch_accepted (ha_status resp)
    \<and> oq_method put = ''PUT'' \<and> has_suffix (oq_url put) (''digest='' @ digest)
    \<and> digest = ''sha256:'' @ hex \<and> sz = int (length content)"
  by (rule chunked_upload_ends [OF assms])

text \<open>When the session of a chunked upload expires, the retries forget how large the file is: no chunk
  is sent any more, and a file above the threshold goes out as the body of one PUT.\<close>

lemma expired_session_sends_no_chunks:
  assumes "chunked_threshold < length content"
    and "upload_chunked nt resolve (Inr content) hex w = (Failed err, w2)" and "is_upload_session_expired err"
  shows "\<exists>new. w_log (snd (upload_attempts 3 0 nt resolve (Inr content) hex (length content) [] w)) = w_log w2 @ new
    \<and> (\<forall>rq\<in>set new. oq_method rq \<noteq> ''PATCH'')"
proof -
  have n: "(3::nat) = Suc 2" by simp
  obtain r w' where a: "upload_attempts 2 (Suc 0) nt resolve (Inr content) hex 0 err w2 = (r, w')"
    by (cases "upload_attempts 2 (Suc 0) nt resolve (Inr content) hex 0 err w2")
  have "upload_attempts 3 0 nt resolve (Inr content) hex (length content) [] w = (r, w')"
    unfolding n upload_attempts.simps Let_def using assms a by simp
  with sends_attempts_0 [OF a] show ?thesis by (fastforce simp: sends_def)
qed

text \<open>C30: A monolithic upload does not survive a first PUT that fails: the retry cannot read the closed
  file again, and the error is lost, so that the upload panics unless a token cannot be refreshed.\<close>

theorem failed_put_panics:
  assumes "get_oci_token nt ''pull,push'' w = (Inr token, w1)"
    and "start_session nt resolve ''blob'' w1 = (Inr url, w2)"
    and "\<not> below_500 (nt_answer nt (w_log w2)
      (upload_request ''PUT'' (url @ ''?digest=sha256:'' @ hex) token [] (Some content)))"
  shows "fst (upload_monolithic nt resolve (Inr content) hex w) = Panicked
    \<or> (\<exists>err. fst (upload_monolithic nt resolve (Inr content) hex w) = Failed (''refresh token for monolithic upload: '' @ err))"
proof -
  let ?rq = "upload_request ''PUT'' (url @ ''?digest=sha256:'' @ hex) token [] (Some content)"
  have n: "(4::nat) = Suc 3" by simp
  obtain a w3 where x: "exchange nt ?rq w2 = (a, w3)" by (cases "exchange nt ?rq w2")
  have na: "\<not> below_500 a" using exchange_log [OF x] assms(3) by simp
  let ?url = "url @ ''?digest='' @ ''sha256:'' @ hex"
  obtain r w4 where l: "put_loop 3 False nt ?url token content (mul64 second 2) (closed_body a) (pause second w3) = (r, w4)"
    by (cases "put_loop 3 False nt ?url token content (mul64 second 2) (closed_body a) (pause second w3)")
  have "put_loop 4 True nt ?url token content second (Inl []) w2 = (r, w4)"
    unfolding n put_loop.simps using x l na by simp
  then show ?thesis
    using put_loop_closed [OF l] na assms(1,2) by (auto simp: upload_monolithic_def)
qed

lemma monolithic_done:
  assumes "upload_monolithic nt resolve (Inr content) hex w = (Done (digest, sz), w')"
  shows "digest = ''sha256:'' @ hex \<and> sz = int (length content)
    \<and> (\<exists>url token resp. confirmed nt w' (upload_request ''PUT'' (url @ ''?digest=sha256:'' @ hex) token [] (Some content)) resp
        \<and> ha_status resp \<in> {201, 202})"
proof -
  note up = assms [unfolded upload_monolithic_def Let_def sum.case]
  obtain token w1 where t: "get_oci_token nt ''pull,push'' w = (Inr token, w1)"
    using up by (cases "get_oci_token nt ''pull,push'' w"; cases "fst (get_oci_token nt ''pull,push'' w)") auto
  obtain url w2 where u: "start_session nt resolve ''blob'' w1 = (Inr url, w2)"
    using up unfolding t prod.case sum.case
    by (cases "start_session nt resolve ''blob'' w1"; cases "fst (start_session nt resolve ''blob'' w1)") auto
  let ?url = "url @ ''?digest='' @ ''sha256:'' @ hex"
  obtain r w3 where p: "put_loop 4 True nt ?url token content second (Inl []) w2 = (r, w3)"
    by (cases "put_loop 4 True nt ?url token content second (Inl []) w2")
  obtain resp where r: "r = Inr (Inr resp)" "w3 = w'" and ok: "ha_status resp \<in> {201, 202}"
    and ds: "digest = ''sha256:'' @ hex" "sz = int (length content)"
    using up unfolding t u p prod.case sum.case
    by (auto split: sum.splits if_splits)
  from put_loop_first [OF p [unfolded r]] ok ds answered_confirmed show ?thesis by fastforce
qed

lemma attempts_done:
  assumes "upload_attempts n i nt resolve (Inr content) hex sz err w = (Done (digest, len), w')"
  shows "digest = ''sha256:'' @ hex \<and> len = int (length content)
    \<and> (\<exists>put resp. confirmed nt w' put resp \<and> patch_accepted (ha_status resp)
        \<and> oq_method put = ''PUT'' \<and> has_suffix (oq_url put) (''digest='' @ digest))"
  using assms
proof (induction n arbitrary: i sz err w)
  case (Suc n)
  let ?w = "if 0 < i then pause (int i * 10 * second) w else w"
  let ?up = "if chunked_threshold < sz then upload_chunked nt resolve (Inr content) hex ?w
    else upload_monolithic nt resolve (Inr content) hex ?w"
  obtain a w2 where a: "?up = (a, w2)" by (cases ?up)
  note loop = Suc.prems [unfolded upload_attempts.simps Let_def a prod.case]
  show ?case
  proof (cases a)
    case (Done d)
    with loop have d: "a = Done (digest, len)" "w2 = w'" by simp_all
    show ?thesis
    proof (cases "chunked_threshold < sz")
      case True
      with a d have "upload_chunked nt resolve (Inr content) hex ?w = (Done (digest, len), w')" by simp
      from chunked_upload_ends [OF this] show ?thesis by blast
    next
      case False
      with a d have "upload_monolithic nt resolve (Inr content) hex ?w = (Done (digest, len), w')" by simp
      from monolithic_done [OF this] obtain url token resp where m: "digest = ''sha256:'' @ hex" "len = int (length content)"
        "confirmed nt w' (upload_request ''PUT'' (url @ ''?digest=sha256:'' @ hex) token [] (Some content)) resp"
        "ha_status resp \<in> {201, 202}" by blast
      have "has_suffix (url @ ''?digest=sha256:'' @ hex) (''digest='' @ ''sha256:'' @ hex)"
        using has_suffix_append [of "url @ ''?''" "''digest='' @ ''sha256:'' @ hex"] by simp
      with m show ?thesis
        unfolding m(1) by (intro conjI exI) (auto simp: upload_request_def patch_accepted_def)
    qed
  qed (use loop Suc.IH in \<open>auto split: if_splits\<close>)
qed simp

lemma upload_confirmed:
  assumes "upload_blob nt resolve (Inr content) hex w = (Done (digest, sz), w')"
  shows "digest = ''sha256:'' @ hex \<and> sz = int (length content)
    \<and> (\<exists>rq resp. confirmed nt w' rq resp
        \<and> (oq_method rq = ''HEAD'' \<and> ha_status resp = 200 \<and> has_suffix (oq_url rq) (''/blobs/'' @ digest)
           \<or> oq_method rq = ''PUT'' \<and> patch_accepted (ha_status resp) \<and> has_suffix (oq_url rq) (''digest='' @ digest)))"
proof -
  let ?path = "''/blobs/'' @ ''sha256:'' @ hex"
  obtain a w1 where h: "transport_request nt ''HEAD'' ?path None [] w = (a, w1)"
    by (cases "transport_request nt ''HEAD'' ?path None [] w")
  note up = assms [unfolded upload_blob_def Let_def sum.case h prod.case]
  show ?thesis
  proof (cases "\<exists>resp. a = Inr resp \<and> ha_status resp = 200")
    case True
    then obtain resp where r: "a = Inr resp" "ha_status resp = 200" by blast
    have "final_answer resp" using r(2) by (simp add: final_answer_def)
    from transport_request_last [OF h [unfolded r] this] obtain rq
      where rq: "confirmed nt w1 rq resp" "oq_method rq = ''HEAD''"
        and url: "oq_url rq = (''https://'' @ tr_registry (w_transport w) @ ''/v2/'' @ tr_repo (w_transport w) @ ''/nix-cache'') @ ?path"
      unfolding confirmed_def by auto
    have "has_suffix (oq_url rq) ?path" unfolding url by (rule has_suffix_append)
    moreover have "digest = ''sha256:'' @ hex \<and> sz = int (length content) \<and> w' = w1" using up r by auto
    ultimately show ?thesis using rq r(2) by auto
  next
    case False
    then have "upload_attempts 3 0 nt resolve (Inr content) hex (length content) [] w1 = (Done (digest, sz), w')"
      using up by (cases a) auto
    from attempts_done [OF this] show ?thesis by blast
  qed
qed

text \<open>C11: An upload reports success only when the registry has confirmed the blob: the last request is a
  HEAD answered 200, or a PUT that commits the digest, answered with success; the digest is that
  of the file and the size its length.\<close>

theorem upload_blob_confirmed:
  assumes "upload_blob nt resolve (Inr content) hex w = (Done (digest, sz), w')"
  shows "digest = ''sha256:'' @ hex \<and> sz = int (length content)
    \<and> (\<exists>rq resp. confirmed nt w' rq resp
        \<and> (oq_method rq = ''HEAD'' \<and> ha_status resp = 200 \<and> has_suffix (oq_url rq) (''/blobs/'' @ digest)
           \<or> oq_method rq = ''PUT'' \<and> patch_accepted (ha_status resp) \<and> has_suffix (oq_url rq) (''digest='' @ digest)))"
  by (rule upload_confirmed [OF assms])

lemma sends_patch_loop:
  "patch_loop n nt url start chunk backoff e w = (r, w') \<Longrightarrow> sends {''GET'', ''PATCH''} w w'"
proof (induction n arbitrary: backoff e w)
  case (Suc n)
  obtain t w1 where t: "get_oci_token nt ''pull,push'' w = (t, w1)" by (cases "get_oci_token nt ''pull,push'' w")
  have w1: "sends {''GET'', ''PATCH''} w w1" by (rule sends_get_token [OF t]) simp
  show ?case
  proof (cases "cancelled nt w = None \<and> (\<exists>token. t = Inr token)")
    case False
    with Suc.prems t w1 show ?thesis by (auto split: option.splits sum.splits)
  next
    case True
    then obtain token where tok: "t = Inr token" and nc: "cancelled nt w = None" by blast
    let ?rq = "upload_request ''PATCH'' url token (chunk_range start (length chunk)) (Some chunk)"
    obtain a w2 where x: "exchange nt ?rq w1 = (a, w2)" by (cases "exchange nt ?rq w1")
    have w2: "sends {''GET'', ''PATCH''} w w2"
      by (rule sends_trans [OF w1 sends_exchange [OF x]]) (simp add: upload_request_def)
    have w3: "sends {''GET'', ''PATCH''} w (if n = 0 then w2 else pause backoff w2)"
      using w2 sends_trans [OF w2 sends_pause] by simp
    note loop = Suc.prems [unfolded patch_loop.simps nc t tok x option.case prod.case sum.case]
    have "w' = w2 \<or> (\<exists>b e. patch_loop n nt url start chunk b e (if n = 0 then w2 else pause backoff w2) = (r, w'))"
      using loop by (cases a) (auto split: if_splits)
    then show ?thesis using w2 Suc.IH sends_trans [OF w3] by blast
  qed
qed simp

lemma sends_chunk_loop:
  "chunk_loop nt resolve url start rest w = (r, w') \<Longrightarrow> sends {''GET'', ''PATCH''} w w'"
proof (induction nt resolve url start rest w rule: chunk_loop.induct)
  case (1 nt resolve url start rest w)
  show ?case
  proof (cases "rest = []")
    case True
    with 1(2) show ?thesis by (simp add: chunk_loop.simps)
  next
    case False
    let ?c = "take chunk_size rest"
    obtain a w1 where p: "patch_loop 4 nt url start ?c second [] w = (a, w1)"
      by (cases "patch_loop 4 nt url start ?c second [] w")
    note loop = 1(2) [unfolded chunk_loop.simps [of nt resolve url start rest w] if_not_P [OF False] Let_def p prod.case]
    show ?thesis
    proof (cases a)
      case (Inl e)
      with loop sends_patch_loop [OF p] show ?thesis by simp
    next
      case (Inr resp)
      from sends_trans [OF sends_patch_loop [OF p] 1(1) [OF False refl p [symmetric] Inr loop [unfolded Inr sum.case]]]
      show ?thesis .
    qed
  qed
qed

abbreviation "upload_methods \<equiv> {''GET'', ''HEAD'', ''POST'', ''PATCH'', ''PUT''}"

lemma sends_chunked:
  assumes "upload_chunked nt resolve fcontent hex w = (r, w')"
  shows "sends upload_methods w w'"
proof -
  obtain u w1 where s: "start_session nt resolve ''chunked'' w = (u, w1)" by (cases "start_session nt resolve ''chunked'' w")
  have w1: "sends upload_methods w w1" by (rule sends_start_session [OF s]) simp
  show ?thesis
  proof (cases "(\<exists>url. u = Inr url) \<and> (\<exists>content. fcontent = Inr content)")
    case False
    with assms [unfolded upload_chunked_def Let_def s prod.case] w1 show ?thesis by (cases u; cases fcontent) auto
  next
    case True
    then obtain url content where u: "u = Inr url" and f: "fcontent = Inr content" by blast
    note up = assms [unfolded upload_chunked_def Let_def s u f prod.case sum.case]
    obtain l w2 where c: "chunk_loop nt resolve url 0 content w1 = (l, w2)" by (cases "chunk_loop nt resolve url 0 content w1")
    have w2: "sends upload_methods w w2" by (rule sends_trans [OF w1 sends_mono [OF sends_chunk_loop [OF c]]]) simp
    show ?thesis
    proof (cases l)
      case (Inl e)
      with up c w2 show ?thesis by simp
    next
      case (Inr last_url)
      obtain a w3 where p: "commit_loop 4 nt (commit_url last_url (''sha256:'' @ hex)) second (Inl []) w2 = (a, w3)"
        by (cases "commit_loop 4 nt (commit_url last_url (''sha256:'' @ hex)) second (Inl []) w2")
      have "sends {''GET'', ''PUT''} w2 w3" using commit_loop_log [OF p] by simp
      from sends_trans [OF w2 sends_mono [OF this]] have "sends upload_methods w w3" by simp
      moreover have "w' = w3" using up unfolding c Inr prod.case sum.case p by (auto split: sum.splits if_splits)
      ultimately show ?thesis by simp
    qed
  qed
qed

lemma sends_attempts:
  "upload_attempts n i nt resolve fcontent hex sz err w = (r, w') \<Longrightarrow> sends upload_methods w w'"
proof (induction n arbitrary: i sz err w)
  case (Suc n)
  let ?w = "if 0 < i then pause (int i * 10 * second) w else w"
  let ?up = "if chunked_threshold < sz then upload_chunked nt resolve fcontent hex ?w
    else upload_monolithic nt resolve fcontent hex ?w"
  have w0: "sends upload_methods w ?w" by simp
  obtain a w2 where a: "?up = (a, w2)" by (cases ?up)
  have "sends upload_methods ?w w2"
    using a sends_chunked [of nt resolve fcontent hex ?w a w2]
      sends_mono [OF sends_monolithic, of nt resolve fcontent hex ?w a w2 upload_methods] by (simp split: if_splits)
  from sends_trans [OF w0 this] have w2: "sends upload_methods w w2" .
  note loop = Suc.prems [unfolded upload_attempts.simps Let_def a prod.case]
  show ?case
  proof (cases "\<exists>e. a = Failed e \<and> is_upload_session_expired e")
    case True
    then obtain e where "upload_attempts n (Suc i) nt resolve fcontent hex 0 e w2 = (r, w')" using loop by auto
    from sends_trans [OF w2 Suc.IH [OF this]] show ?thesis .
  next
    case False
    with loop have "w' = w2" by (auto split: go_outcome.splits if_splits)
    with w2 show ?thesis by simp
  qed
qed simp

lemma sends_upload_blob:
  assumes "upload_blob nt resolve fcontent hex w = (r, w')"
  shows "sends upload_methods w w'"
proof (cases fcontent)
  case (Inl err)
  with assms show ?thesis by (simp add: upload_blob_def)
next
  case (Inr content)
  let ?path = "''/blobs/'' @ ''sha256:'' @ hex"
  obtain a w1 where h: "transport_request nt ''HEAD'' ?path None [] w = (a, w1)"
    by (cases "transport_request nt ''HEAD'' ?path None [] w")
  have w1: "sends upload_methods w w1" by (rule sends_request [OF h]) simp
  have "w' = w1 \<or> upload_attempts 3 0 nt resolve (Inr content) hex (length content) [] w1 = (r, w')"
    using assms [unfolded upload_blob_def Let_def Inr sum.case h prod.case] by (auto split: if_splits)
  then show ?thesis using w1 sends_trans [OF w1 sends_attempts] by blast
qed

section \<open>A registry that accepts everything\<close>

definition reply :: "int \<Rightarrow> (string \<times> string) list \<Rightarrow> string \<Rightarrow> answer" where
  "reply status hs body =
     Inr \<lparr>ha_status = status, ha_header = (\<lambda>k. case map_of hs k of Some v \<Rightarrow> v | None \<Rightarrow> []), ha_body = body\<rparr>"

definition steady :: "(oci_request list \<Rightarrow> oci_request \<Rightarrow> answer) \<Rightarrow> network" where
  "steady answer = \<lparr>nt_answer = answer, nt_clock = (\<lambda>_. 1), nt_cancelled = (\<lambda>_. None), nt_token = Inr\<rparr>"

definition accepting :: "int \<Rightarrow> int \<Rightarrow> network" where
  "accepting post put = steady (\<lambda>h rq.
     if oq_method rq = ''GET'' then reply 200 [] ''t''
     else if oq_method rq = ''POST'' then reply post [(''Location'', ''/up'')] []
     else if oq_method rq = ''PATCH'' then reply 202 [] []
     else if oq_method rq = ''PUT'' then reply put [] []
     else reply 404 [] [])"

definition idle :: world where
  "idle = \<lparr>w_log = [], w_ticks = 0, w_sleeps = [], w_transport = new_transport ''r'' ''o'' []\<rparr>"

abbreviation "as_is \<equiv> \<lambda>registry loc. Inr loc"

lemma attempts_4:
  "retry_loop 4 = retry_loop (Suc (Suc (Suc (Suc 0))))" "put_loop 4 = put_loop (Suc (Suc (Suc (Suc 0))))"
  "patch_loop 4 = patch_loop (Suc (Suc (Suc (Suc 0))))" "commit_loop 4 = commit_loop (Suc (Suc (Suc (Suc 0))))"
  "upload_attempts 3 = upload_attempts (Suc (Suc (Suc 0)))"
  by (simp_all add: eval_nat_numeral)

lemmas client_defs = attempts_4 exchange_def cancelled_def read_clock_def pause_def get_oci_token_def fetch_token_def
  cached_token_def store_token_def token_request_def do_request_def do_with_retry_def transport_request_def
  registry_request_def upload_request_def actions_for_def final_answer_def start_session_def
  default_token_cache_ttl_def time_sub_def minute_def second_def min64_def max64_def Let_def

lemmas accepting_defs = client_defs accepting_def steady_def reply_def idle_def new_transport_def

lemma accepting_chunked:
  "fst (upload_chunked (accepting 202 201) as_is (Inr ''abc'') ''00'' idle) = Done (''sha256:00'', 3)"
  by (simp add: accepting_defs upload_chunked_def chunk_loop.simps chunk_size_def next_location_def patch_accepted_def)

theorem chunked_upload_covers_witness:
  "\<exists>chunks. concat chunks = ''abc''
    \<and> accepts (accepting 202 201) (chunk_requests 0 chunks) idle (snd (upload_chunked (accepting 202 201) as_is (Inr ''abc'') ''00'' idle))"
proof -
  obtain w' where "upload_chunked (accepting 202 201) as_is (Inr ''abc'') ''00'' idle = (Done (''sha256:00'', 3), w')"
    using accepting_chunked by (metis prod.collapse)
  with chunked_upload_covers [OF this] show ?thesis by auto
qed

text \<open>A file one byte above the threshold, and a registry whose sessions have expired.\<close>

definition large_file :: string where "large_file = replicate (Suc chunked_threshold) CHR ''a''"

lemma show_404: "show_nat 404 = ''404''"
  by code_simp

lemma accepting_expired:
  "fst (upload_chunked (accepting 404 201) as_is (Inr large_file) ''00'' idle)
    = Failed ''failed to initiate chunked upload (HTTP 404): ''"
  by (simp add: accepting_defs upload_chunked_def show_int_def show_404)

theorem failed_put_panics_witness:
  "fst (upload_monolithic (accepting 202 503) as_is (Inr ''abc'') ''00'' idle) = Panicked
    \<or> (\<exists>err. fst (upload_monolithic (accepting 202 503) as_is (Inr ''abc'') ''00'' idle)
        = Failed (''refresh token for monolithic upload: '' @ err))"
proof -
  obtain w1 where t: "get_oci_token (accepting 202 503) ''pull,push'' idle = (Inr ''t'', w1)"
    by (cases "get_oci_token (accepting 202 503) ''pull,push'' idle") (auto simp: accepting_defs)
  then obtain w2 where s: "start_session (accepting 202 503) as_is ''blob'' w1 = (Inr ''/up'', w2)"
    by (cases "start_session (accepting 202 503) as_is ''blob'' w1") (auto simp: accepting_defs)
  show ?thesis
    by (rule failed_put_panics [OF t s]) (simp add: accepting_def steady_def reply_def upload_request_def)
qed

lemma accepting_upload:
  "fst (upload_blob (accepting 202 201) as_is (Inr ''abc'') ''00'' idle) = Done (''sha256:00'', 3)"
  by (simp add: accepting_defs upload_blob_def upload_monolithic_def chunked_threshold_def)

theorem upload_blob_confirmed_witness:
  "\<exists>w' rq resp. upload_blob (accepting 202 201) as_is (Inr ''abc'') ''00'' idle = (Done (''sha256:00'', 3), w')
    \<and> confirmed (accepting 202 201) w' rq resp"
proof -
  obtain w' where u: "upload_blob (accepting 202 201) as_is (Inr ''abc'') ''00'' idle = (Done (''sha256:00'', 3), w')"
    using accepting_upload by (metis prod.collapse)
  with upload_blob_confirmed [OF u] show ?thesis by blast
qed

section \<open>Retries\<close>

text \<open>C23: A request is sent at most four times, in the same words. Every answer but the last one was a
  failure of the exchange, a server error or 429, and the context was alive before each attempt. The
  pauses between the attempts start at one second and double, and an answer 429 or 503 with a positive
  \<open>Retry-After\<close> sets the pause that follows it, from which the doubling goes on. The result is the
  first final answer; or the error of the context, when it ended before four attempts; or the fourth
  answer, with its body closed.\<close>

theorem retries_first_final:
  assumes "do_with_retry nt rq w = (a, w')"
  shows "\<exists>as ps. w' = w\<lparr>w_log := w_log w @ replicate (length as) rq, w_sleeps := w_sleeps w @ ps\<rparr>
    \<and> length as \<le> 4 \<and> as = map (attempt_answer nt rq w) [0..<length as]
    \<and> (\<forall>i<length as. nt_cancelled nt (length (w_log w) + i) = None)
    \<and> (as \<noteq> [] \<and> list_all (\<lambda>x. \<not> settles x) (butlast as) \<and> settles (last as) \<and> a = last as
         \<and> ps = retry_pauses (butlast as) second
     \<or> length as < 4 \<and> list_all (\<lambda>x. \<not> settles x) as \<and> ps = retry_pauses as second
         \<and> (\<exists>err. nt_cancelled nt (length (w_log w) + length as) = Some err \<and> a = Inl err)
     \<or> length as = 4 \<and> list_all (\<lambda>x. \<not> settles x) as \<and> ps = retry_pauses (butlast as) second
         \<and> a = closed_body (last as))"
proof -
  from retry_loop_retried [OF assms [unfolded do_with_retry_def]] obtain as ps where
    r: "retried 4 nt rq second (Inl []) w as a ps"
    "w' = w\<lparr>w_log := w_log w @ replicate (length as) rq, w_sleeps := w_sleeps w @ ps\<rparr>" by blast
  show ?thesis
    by (rule exI [of _ as], rule exI [of _ ps]) (use r in \<open>auto simp: retried_def\<close>)
qed

text \<open>A registry that asks to wait for seven seconds, fails once, and then answers.\<close>

definition busy :: network where
  "busy = steady (\<lambda>h rq.
     if length h = 0 then reply 429 [(''Retry-After'', ''7'')] []
     else if length h = 1 then reply 503 [] [] else reply 200 [] ''t'')"

theorem retries_first_final_witness:
  "\<exists>w' as ps. do_with_retry busy (token_request (new_transport ''r'' ''o'' []) ''pull'') idle = (reply 200 [] ''t'', w')
    \<and> w_sleeps w' = [7 * second, 14 * second] \<and> length as = 3 \<and> settles (last as)
    \<and> ps = retry_pauses (butlast as) second
    \<and> w' = idle\<lparr>w_log := w_log idle @ replicate (length as) (token_request (new_transport ''r'' ''o'' []) ''pull''),
              w_sleeps := w_sleeps idle @ ps\<rparr>"
proof -
  let ?rq = "token_request (new_transport ''r'' ''o'' []) ''pull''"
  have p: "parse_int64 ''7'' = Some 7" "parse_int64 [] = None" by code_simp+
  have d: "do_with_retry busy ?rq idle = (reply 200 [] ''t'', idle\<lparr>w_log := [?rq, ?rq, ?rq], w_sleeps := [7 * second, 14 * second]\<rparr>)"
    by (simp add: busy_def accepting_defs next_backoff_def p mul64_def wrap64_def)
  have s: "settles (reply 200 [] ''t'')" by (simp add: settles_def reply_def final_answer_def)
  have l: "idle\<lparr>w_log := [?rq, ?rq, ?rq], w_sleeps := [7 * second, 14 * second]\<rparr> = idle\<lparr>w_log := w_log idle @ replicate n ?rq,
      w_sleeps := w_sleeps idle @ ps\<rparr> \<Longrightarrow> n = 3" for n ps
    by (auto simp: idle_def dest: arg_cong [where f = length])
  from retries_first_final [OF d] show ?thesis
  proof (elim exE conjE, goal_cases)
    case (1 as ps)
    have n: "length as = 3" by (rule l [OF 1(1)])
    moreover have "nt_cancelled busy i = None" for i by (simp add: busy_def steady_def)
    ultimately have e: "settles (last as)" "ps = retry_pauses (butlast as) second" using 1(5) by auto
    show ?thesis
      by (rule exI [of _ "idle\<lparr>w_log := [?rq, ?rq, ?rq], w_sleeps := [7 * second, 14 * second]\<rparr>"],
          rule exI [of _ as], rule exI [of _ ps], intro conjI, rule d, simp, rule n, rule e(1), rule e(2), rule 1(1))
  qed
qed

end
