(* ===== verification/Oci_Session.thy ===== *)
theory Oci_Session
  imports Oci_Upload
begin

text \<open>
  Where an upload writes. An upload session of a repository is a location the registry gave in answer
  to a POST to this repository, or to a PATCH of such a session; an upload that succeeds ends with a
  HEAD on this repository or with the commit of one of its sessions.
\<close>

section \<open>Sessions\<close>

inductive session :: "network \<Rightarrow> resolver \<Rightarrow> string \<Rightarrow> string \<Rightarrow> oci_request list \<Rightarrow> string \<Rightarrow> bool"
  for nt :: network and resolve :: resolver and registry :: string and base :: string where
  session_opened: "oq_method rq = ''POST'' \<Longrightarrow> oq_url rq = base @ ''/blobs/uploads/'' \<Longrightarrow> nt_answer nt h rq = Inr resp
    \<Longrightarrow> ha_status resp \<in> {201, 202} \<Longrightarrow> ha_header resp ''Location'' \<noteq> []
    \<Longrightarrow> resolve registry (ha_header resp ''Location'') = Inr url
    \<Longrightarrow> session nt resolve registry base (h @ rq # h') url"
| session_moved: "session nt resolve registry base h u \<Longrightarrow> oq_method rq = ''PATCH'' \<Longrightarrow> oq_url rq = u
    \<Longrightarrow> nt_answer nt h rq = Inr resp \<Longrightarrow> patch_accepted (ha_status resp) \<Longrightarrow> ha_header resp ''Location'' \<noteq> []
    \<Longrightarrow> resolve registry (ha_header resp ''Location'') = Inr url
    \<Longrightarrow> session nt resolve registry base (h @ rq # h') url"

lemma session_later: "session nt resolve registry base h u \<Longrightarrow> session nt resolve registry base (h @ h') u"
proof (induction rule: session.cases)
  case (session_opened rq h resp url h'')
  from session.session_opened [where resolve = resolve and registry = registry, OF session_opened(3-8), of "h'' @ h'"] session_opened(1,2) show ?case by simp
next
  case (session_moved h u rq resp url h'')
  from session.session_moved [where resolve = resolve and registry = registry, OF session_moved(3-9), of "h'' @ h'"] session_moved(1,2) show ?case by simp
qed

text \<open>The answer that shows that the repository has a blob: it was found under its digest, or it was
  committed to a session of the repository.\<close>

definition stores :: "network \<Rightarrow> resolver \<Rightarrow> string \<Rightarrow> string \<Rightarrow> oci_request list \<Rightarrow> oci_request \<Rightarrow> http_answer \<Rightarrow> string \<Rightarrow> bool" where
  "stores nt resolve registry base h rq resp hex \<longleftrightarrow>
     oq_method rq = ''HEAD'' \<and> ha_status resp = 200 \<and> oq_url rq = base @ ''/blobs/sha256:'' @ hex
     \<or> oq_method rq = ''PUT'' \<and> patch_accepted (ha_status resp)
       \<and> (\<exists>u. session nt resolve registry base h u
             \<and> (oq_url rq = u @ ''?digest=sha256:'' @ hex \<or> oq_url rq = u @ ''&digest=sha256:'' @ hex))"

text \<open>The repository a state talks to, and what it stored between two states.\<close>

abbreviation registry_of :: "world \<Rightarrow> string" where "registry_of w \<equiv> tr_registry (w_transport w)"

abbreviation session_in :: "network \<Rightarrow> resolver \<Rightarrow> world \<Rightarrow> string \<Rightarrow> bool" where
  "session_in nt resolve w u \<equiv> session nt resolve (registry_of w) (base_url w) (w_log w) u"

lemma sends_session: "sends ms w w' \<Longrightarrow> session_in nt resolve w u \<Longrightarrow> session_in nt resolve w' u"
  unfolding sends_def by (auto intro: session_later)

section \<open>The steps of an upload\<close>

lemma start_session_opens:
  assumes "start_session nt resolve kind w = (Inr url, w')"
  shows "session_in nt resolve w' url"
proof -
  obtain resp where t: "transport_request nt ''POST'' ''/blobs/uploads/'' None [] w = (Inr resp, w')"
    and ok: "ha_status resp \<in> {201, 202}" "ha_header resp ''Location'' \<noteq> []"
      "resolve (registry_of w') (ha_header resp ''Location'') = Inr url"
    using assms unfolding start_session_def
    by (auto split: prod.splits sum.splits if_splits)
  have fin: "final_answer resp" using ok(1) by (auto simp: final_answer_def)
  have tr: "registry_of w' = registry_of w" "tr_repo (w_transport w') = tr_repo (w_transport w)"
    using sends_request [OF t, of "{''GET'', ''POST''}"] by (auto simp: sends_def)
  from transport_request_last [OF t fin] obtain new rq
    where rq: "w_log w' = w_log w @ new @ [rq]" "nt_answer nt (w_log w @ new) rq = Inr resp"
      "oq_method rq = ''POST''" "oq_url rq = base_url w @ ''/blobs/uploads/''" by auto
  from session_opened [where resolve = resolve and registry = "registry_of w", OF rq(3,4,2) ok(1,2) ok(3) [unfolded tr], of "[]"] show ?thesis
    unfolding tr rq(1) by simp
qed

lemma patch_loop_last:
  assumes "patch_loop n nt url start chunk backoff e w = (Inr resp, w')"
  shows "patch_accepted (ha_status resp)
    \<and> (\<exists>token. answered_last nt w w' (upload_request ''PATCH'' url token (chunk_range start (length chunk)) (Some chunk)) resp)"
  using assms
proof (induction n arbitrary: backoff e w)
  case (Suc n)
  have nc: "cancelled nt w = None" using Suc.prems by (simp split: option.splits)
  obtain token w1 where t: "get_oci_token nt ''pull,push'' w = (Inr token, w1)"
    using Suc.prems nc by (cases "get_oci_token nt ''pull,push'' w") (auto split: sum.splits)
  let ?rq = "upload_request ''PATCH'' url token (chunk_range start (length chunk)) (Some chunk)"
  obtain a w2 where x: "exchange nt ?rq w1 = (a, w2)" by (cases "exchange nt ?rq w1")
  have s1: "sends {''GET'', ''PATCH''} w w1" by (rule sends_get_token [OF t]) simp
  have s2: "sends {''GET'', ''PATCH''} w w2"
    by (rule sends_trans [OF s1 sends_exchange [OF x]]) (simp add: upload_request_def)
  note loop = Suc.prems [unfolded patch_loop.simps nc t x option.case prod.case sum.case]
  show ?case
  proof (cases "\<exists>r. a = Inr r \<and> patch_accepted (ha_status r)")
    case True
    with loop have "a = Inr resp \<and> w' = w2 \<and> patch_accepted (ha_status resp)" by auto
    then show ?thesis using answered_later [OF s1 answered_exchange] x by blast
  next
    case False
    let ?w = "if n = 0 then w2 else pause backoff w2"
    have "\<exists>b e. patch_loop n nt url start chunk b e ?w = (Inr resp, w')"
      using loop False by (cases a) (auto split: if_splits)
    with Suc.IH have ih: "patch_accepted (ha_status resp) \<and> (\<exists>token. answered_last nt ?w w'
        (upload_request ''PATCH'' url token (chunk_range start (length chunk)) (Some chunk)) resp)" by blast
    have "sends {''GET'', ''PATCH''} w ?w" using s2 sends_trans [OF s2 sends_pause] by simp
    with ih answered_later show ?thesis by blast
  qed
qed simp

lemma next_location_session:
  assumes "session_in nt resolve w url" and "patch_loop n nt url start chunk backoff e w = (Inr resp, w1)"
  shows "session_in nt resolve w1 (next_location resolve w1 resp url)"
proof -
  have s: "sends {''GET'', ''PATCH''} w w1" by (rule sends_patch_loop [OF assms(2)])
  then have tr: "registry_of w1 = registry_of w" "tr_repo (w_transport w1) = tr_repo (w_transport w)"
    by (simp_all add: sends_def)
  obtain token new where a: "patch_accepted (ha_status resp)"
    and rq: "w_log w1 = w_log w @ new @ [upload_request ''PATCH'' url token (chunk_range start (length chunk)) (Some chunk)]"
      "nt_answer nt (w_log w @ new) (upload_request ''PATCH'' url token (chunk_range start (length chunk)) (Some chunk)) = Inr resp"
    using patch_loop_last [OF assms(2)] by (auto simp: answered_last_def)
  have "session_in nt resolve w1 u"
    if "ha_header resp ''Location'' \<noteq> []" "resolve (registry_of w) (ha_header resp ''Location'') = Inr u" for u
    using session_moved [where resolve = resolve, OF session_later [OF assms(1), of new] _ _ rq(2) a that, of "[]"]
    unfolding tr rq(1) by (simp add: upload_request_def)
  then show ?thesis
    using sends_session [OF s assms(1)] tr(1) by (auto simp: next_location_def Let_def split: sum.split)
qed

lemma chunk_loop_session:
  assumes "chunk_loop nt resolve url start rest w = (Inr last_url, w')" and "session_in nt resolve w url"
  shows "session_in nt resolve w' last_url"
  using assms
proof (induction nt resolve url start rest w rule: chunk_loop.induct)
  case (1 nt resolve url start rest w)
  show ?case
  proof (cases "rest = []")
    case True
    with 1(2,3) show ?thesis by (simp add: chunk_loop.simps)
  next
    case False
    let ?c = "take chunk_size rest"
    obtain resp w1 where p: "patch_loop 4 nt url start ?c second [] w = (Inr resp, w1)"
      and l: "chunk_loop nt resolve (next_location resolve w1 resp url) (start + length ?c) (drop chunk_size rest) w1
        = (Inr last_url, w')"
      using 1(2) False by (subst (asm) chunk_loop.simps) (auto simp: Let_def split: prod.splits sum.splits)
    show ?thesis by (rule 1(1) [OF False refl p [symmetric] refl l next_location_session [OF 1(3) p]])
  qed
qed

section \<open>The end of an upload\<close>

definition stored_last :: "network \<Rightarrow> resolver \<Rightarrow> world \<Rightarrow> world \<Rightarrow> string \<Rightarrow> bool" where
  "stored_last nt resolve w w' hex \<longleftrightarrow>
     (\<exists>h rq resp. w_log w' = h @ [rq] \<and> nt_answer nt h rq = Inr resp
        \<and> stores nt resolve (registry_of w) (base_url w) h rq resp hex)"

lemma stored_later: "sends ms w w1 \<Longrightarrow> stored_last nt resolve w1 w' hex \<Longrightarrow> stored_last nt resolve w w' hex"
  by (simp add: sends_def stored_last_def)

lemma commit_stored:
  assumes "session_in nt resolve w url" and "answered_last nt w w' rq resp" and "patch_accepted (ha_status resp)"
    and "oq_method rq = ''PUT''" and "oq_url rq = url @ ''?digest=sha256:'' @ hex \<or> oq_url rq = url @ ''&digest=sha256:'' @ hex"
  shows "stored_last nt resolve w w' hex"
proof -
  obtain new where n: "w_log w' = (w_log w @ new) @ [rq]" "nt_answer nt (w_log w @ new) rq = Inr resp"
    using assms(2) by (auto simp: answered_last_def)
  have "stores nt resolve (registry_of w) (base_url w) (w_log w @ new) rq resp hex"
    unfolding stores_def using assms(3-5) session_later [OF assms(1)] by blast
  with n show ?thesis unfolding stored_last_def by blast
qed

lemma chunked_stored:
  assumes "upload_chunked nt resolve (Inr content) hex w = (Done d, w')"
  shows "stored_last nt resolve w w' hex"
proof -
  obtain url w1 where s: "start_session nt resolve ''chunked'' w = (Inr url, w1)"
    using assms by (auto simp: upload_chunked_def Let_def split: prod.splits sum.splits)
  obtain last_url w2 where c: "chunk_loop nt resolve url 0 content w1 = (Inr last_url, w2)"
    using assms s by (auto simp: upload_chunked_def Let_def split: prod.splits sum.splits)
  obtain resp where
    p: "commit_loop 4 nt (commit_url last_url (''sha256:'' @ hex)) second (Inl []) w2 = (Inr (Inr resp), w')"
    and ok: "patch_accepted (ha_status resp)"
    using assms unfolding upload_chunked_def Let_def s c prod.case sum.case
    by (auto simp: patch_accepted_def split: prod.splits sum.splits if_splits)
  have sess: "session_in nt resolve w2 last_url" by (rule chunk_loop_session [OF c start_session_opens [OF s]])
  obtain token where cf: "answered_last nt w2 w' (upload_request ''PUT'' (commit_url last_url (''sha256:'' @ hex)) token [] None) resp"
    using commit_loop_log [OF p] ok by (auto simp: patch_accepted_def)
  have "stored_last nt resolve w2 w' hex"
    by (rule commit_stored [OF sess cf ok]) (auto simp: upload_request_def commit_url_def)
  moreover have "sends upload_methods w w2"
    by (rule sends_trans [OF sends_start_session [OF s] sends_mono [OF sends_chunk_loop [OF c]]]) simp_all
  ultimately show ?thesis by (blast intro: stored_later)
qed

lemma monolithic_stored:
  assumes "upload_monolithic nt resolve (Inr content) hex w = (Done d, w')"
  shows "stored_last nt resolve w w' hex"
proof -
  note up = assms [unfolded upload_monolithic_def Let_def sum.case]
  obtain token w1 where t: "get_oci_token nt ''pull,push'' w = (Inr token, w1)"
    using up by (cases "get_oci_token nt ''pull,push'' w"; cases "fst (get_oci_token nt ''pull,push'' w)") auto
  obtain url w2 where u: "start_session nt resolve ''blob'' w1 = (Inr url, w2)"
    using up unfolding t prod.case sum.case
    by (cases "start_session nt resolve ''blob'' w1"; cases "fst (start_session nt resolve ''blob'' w1)") auto
  let ?url = "url @ ''?digest='' @ ''sha256:'' @ hex"
  obtain r w3 where p: "put_loop 4 True nt ?url token content second (Inl []) w2 = (r, w3)"
    by (cases "put_loop 4 True nt ?url token content second (Inl []) w2")
  obtain resp where r: "r = Inr (Inr resp)" "w3 = w'" and ok: "patch_accepted (ha_status resp)"
    using up unfolding t u p prod.case sum.case
    by (auto simp: patch_accepted_def split: sum.splits if_splits)
  have "stored_last nt resolve w2 w' hex"
    by (rule commit_stored [OF start_session_opens [OF u] conjunct2 [OF put_loop_first [OF p [unfolded r]]] ok])
      (simp_all add: upload_request_def)
  moreover have "sends upload_methods w w2"
    by (rule sends_trans [OF sends_get_token [OF t] sends_start_session [OF u]]) simp_all
  ultimately show ?thesis by (blast intro: stored_later)
qed

lemma attempts_stored:
  "upload_attempts n i nt resolve (Inr content) hex sz err w = (Done d, w') \<Longrightarrow> stored_last nt resolve w w' hex"
proof (induction n arbitrary: i sz err w)
  case (Suc n)
  let ?w = "if 0 < i then pause (int i * 10 * second) w else w"
  let ?up = "if chunked_threshold < sz then upload_chunked nt resolve (Inr content) hex ?w
    else upload_monolithic nt resolve (Inr content) hex ?w"
  have w0: "sends upload_methods w ?w" by simp
  obtain a w2 where a: "?up = (a, w2)" by (cases ?up)
  have s: "sends upload_methods ?w w2"
    using a sends_chunked [of nt resolve "Inr content" hex ?w a w2]
      sends_mono [OF sends_monolithic, of nt resolve "Inr content" hex ?w a w2 upload_methods] by (simp split: if_splits)
  note loop = Suc.prems [unfolded upload_attempts.simps Let_def a prod.case]
  have "stored_last nt resolve ?w w' hex"
  proof (cases a)
    case (Done d')
    with loop a have up: "?up = (Done d, w')" by simp
    show ?thesis
    proof (cases "chunked_threshold < sz")
      case True
      show ?thesis by (rule chunked_stored [OF up [unfolded if_P [OF True]]])
    next
      case False
      show ?thesis by (rule monolithic_stored [OF up [unfolded if_not_P [OF False]]])
    qed
  next
    case (Failed e)
    with loop Suc.IH have "stored_last nt resolve w2 w' hex" by (auto split: if_splits)
    with s show ?thesis by (rule stored_later)
  qed (use loop in simp)
  with w0 show ?case by (rule stored_later)
qed simp

text \<open>An upload that reports success ends with an answer that shows that this repository has the blob.\<close>

lemma upload_stored:
  assumes "upload_blob nt resolve (Inr content) hex w = (Done d, w')"
  shows "stored_last nt resolve w w' hex"
proof -
  let ?path = "''/blobs/'' @ ''sha256:'' @ hex"
  obtain a w1 where h: "transport_request nt ''HEAD'' ?path None [] w = (a, w1)"
    by (cases "transport_request nt ''HEAD'' ?path None [] w")
  note up = assms [unfolded upload_blob_def Let_def sum.case h prod.case]
  show ?thesis
  proof (cases "\<exists>resp. a = Inr resp \<and> ha_status resp = 200")
    case True
    then obtain resp where r: "a = Inr resp" "ha_status resp = 200" by blast
    have fin: "final_answer resp" using r(2) by (simp add: final_answer_def)
    have w': "w' = w1" using up r by simp
    from transport_request_last [OF h [unfolded r] fin] obtain new rq where rq:
      "w_log w1 = (w_log w @ new) @ [rq]" "nt_answer nt (w_log w @ new) rq = Inr resp" "oq_method rq = ''HEAD''"
      "oq_url rq = base_url w @ ?path" by auto
    have "stores nt resolve (registry_of w) (base_url w) (w_log w @ new) rq resp hex"
      unfolding stores_def using rq(3,4) r(2) by simp
    with rq(1,2) show ?thesis unfolding stored_last_def w' by blast
  next
    case False
    then have a: "upload_attempts 3 0 nt resolve (Inr content) hex (length content) [] w1 = (Done d, w')"
      using up by (cases a) auto
    have "sends upload_methods w w1" by (rule sends_request [OF h]) simp
    from stored_later [OF this attempts_stored [OF a]] show ?thesis .
  qed
qed

end
