(* ===== verification/Oci_Codec.thy ===== *)
theory Oci_Codec
  imports Oci_Manifest
begin

text \<open>
  A concrete instance of the codecs that the program takes from its libraries: a reader and a writer
  for every index, manifest and list of tags, inverse to each other. It stands for \<open>encoding/json\<close>
  where a theorem is applied: a value is written as a string that says where it ends, a map as the
  list of its sorted keys, and the writer leaves out what \<open>omitempty\<close> leaves out.
\<close>

section \<open>Readers and writers\<close>

type_synonym 'a reader = "string \<Rightarrow> ('a \<times> string) option"

text \<open>A reader takes off the front exactly what the writer has put there.\<close>

locale wire =
  fixes put :: "'a \<Rightarrow> string"
    and get :: "'a reader"
  assumes get_put: "get (put x @ s) = Some (x, s)"
begin

lemma put_inj: "put x = put y \<Longrightarrow> x = y"
  using get_put [of x "[]"] get_put [of y "[]"] by simp

end

definition and_then :: "'a reader \<Rightarrow> ('a \<Rightarrow> 'b reader) \<Rightarrow> 'b reader" where
  "and_then g f s = (case g s of None \<Rightarrow> None | Some (x, s') \<Rightarrow> f x s')"

definition giving :: "'a \<Rightarrow> 'a reader" where "giving x s = Some (x, s)"

lemma and_then_put: "wire p g \<Longrightarrow> and_then g f (p x @ s) = f x s"
  by (simp add: and_then_def wire.get_put)

section \<open>Numbers and strings\<close>

definition put_nat :: "nat \<Rightarrow> string" where "put_nat n = show_nat n @ '';''"

definition get_nat :: "nat reader" where
  "get_nat s = (case dropWhile is_digit s of
     c # rest \<Rightarrow> if c = CHR '';'' then Some (digits_value (takeWhile is_digit s), rest) else None
   | [] \<Rightarrow> None)"

lemma wire_nat: "wire put_nat get_nat"
proof
  fix n s
  have d: "\<forall>c\<in>set (show_nat n). is_digit c" using show_nat_digits by blast
  have e: "\<not> is_digit CHR '';''" by code_simp
  have "takeWhile is_digit (show_nat n @ '';'' @ s) = show_nat n" "dropWhile is_digit (show_nat n @ '';'' @ s) = '';'' @ s"
    using d e by (simp_all add: takeWhile_append2 dropWhile_append2)
  then show "get_nat (put_nat n @ s) = Some (n, s)"
    by (simp add: get_nat_def put_nat_def digits_value_show_nat)
qed

definition put_int :: "int \<Rightarrow> string" where
  "put_int i = (if i < 0 then ''-'' @ put_nat (nat (- i)) else ''+'' @ put_nat (nat i))"

definition get_int :: "int reader" where
  "get_int s = (case s of [] \<Rightarrow> None
     | c # rest \<Rightarrow> and_then get_nat (\<lambda>n. giving (if c = CHR ''-'' then - int n else int n)) rest)"

lemma wire_int: "wire put_int get_int"
  by unfold_locales (simp add: put_int_def get_int_def and_then_put [OF wire_nat] giving_def)

definition put_string :: "string \<Rightarrow> string" where "put_string x = put_nat (length x) @ x"

definition get_string :: "string reader" where
  "get_string = and_then get_nat (\<lambda>n s. if n \<le> length s then Some (take n s, drop n s) else None)"

lemma wire_string: "wire put_string get_string"
  by unfold_locales (simp add: put_string_def get_string_def and_then_put [OF wire_nat])

section \<open>Lists and maps\<close>

fun get_times :: "'a reader \<Rightarrow> nat \<Rightarrow> 'a list reader" where
  "get_times g 0 = giving []"
| "get_times g (Suc n) = and_then g (\<lambda>x. and_then (get_times g n) (\<lambda>xs. giving (x # xs)))"

definition put_list :: "('a \<Rightarrow> string) \<Rightarrow> 'a list \<Rightarrow> string" where
  "put_list p xs = put_nat (length xs) @ concat (map p xs)"

definition get_list :: "'a reader \<Rightarrow> 'a list reader" where
  "get_list g = and_then get_nat (get_times g)"

lemma wire_list:
  assumes "wire p g"
  shows "wire (put_list p) (get_list g)"
proof
  fix xs s
  have "get_times g (length xs) (concat (map p xs) @ s) = Some (xs, s)"
  proof (induction xs)
    case (Cons x xs)
    then show ?case by (simp add: and_then_put [OF assms]) (simp add: and_then_def giving_def)
  qed (simp add: giving_def)
  then show "get_list g (put_list p xs @ s) = Some (xs, s)"
    by (simp add: put_list_def get_list_def and_then_put [OF wire_nat])
qed

definition put_pair :: "('a \<Rightarrow> string) \<Rightarrow> ('b \<Rightarrow> string) \<Rightarrow> 'a \<times> 'b \<Rightarrow> string" where
  "put_pair p q x = p (fst x) @ q (snd x)"

definition get_pair :: "'a reader \<Rightarrow> 'b reader \<Rightarrow> ('a \<times> 'b) reader" where
  "get_pair g h = and_then g (\<lambda>x. and_then h (\<lambda>y. giving (x, y)))"

lemma wire_pair: "wire p g \<Longrightarrow> wire q h \<Longrightarrow> wire (put_pair p q) (get_pair g h)"
  by unfold_locales (simp add: put_pair_def get_pair_def and_then_put giving_def)

text \<open>A map that may be nil: a list with at most one map.\<close>

definition put_map :: "('v \<Rightarrow> string) \<Rightarrow> 'v gomap \<Rightarrow> string" where
  "put_map p m = put_list (put_list (put_pair put_string p)) (case m of None \<Rightarrow> [] | Some f \<Rightarrow> [sorted_list_of_fmap f])"

definition get_map :: "'v reader \<Rightarrow> 'v gomap reader" where
  "get_map g = and_then (get_list (get_list (get_pair get_string g)))
     (\<lambda>ms. giving (case ms of [] \<Rightarrow> None | kvs # _ \<Rightarrow> Some (fmap_of_list kvs)))"

lemma fmap_of_sorted: "fmap_of_list (sorted_list_of_fmap m) = m"
  by (rule fmap_ext) (simp add: fmlookup_of_list)

lemma wire_map: "wire p g \<Longrightarrow> wire (put_map p) (get_map g)"
  by unfold_locales
    (simp add: put_map_def get_map_def and_then_put [OF wire_list [OF wire_list [OF wire_pair [OF wire_string]]]]
      giving_def fmap_of_sorted split: option.split)

lemmas wire_basic = and_then_put [OF wire_nat] and_then_put [OF wire_int] and_then_put [OF wire_string]

section \<open>The program's records\<close>

definition put_root :: "gc_root \<Rightarrow> string" where
  "put_root r = put_int (rt_pinned_at r) @ put_int (rt_ttl r)"

definition get_root :: "gc_root reader" where
  "get_root = and_then get_int (\<lambda>at. and_then get_int (\<lambda>ttl. giving \<lparr>rt_pinned_at = at, rt_ttl = ttl\<rparr>))"

lemma wire_root: "wire put_root get_root"
  by unfold_locales (simp add: put_root_def get_root_def wire_basic giving_def)

definition put_item :: "index_item \<Rightarrow> string" where
  "put_item e = put_string (it_name e) @ put_string (it_narinfo e) @ put_string (it_nar_digest e)
     @ put_int (it_nar_size e) @ put_int (it_added e) @ put_int (it_last_used e) @ put_int (it_uploaded_at e)
     @ put_list put_string (it_references e) @ put_string (it_source e)"

definition get_item :: "index_item reader" where
  "get_item = and_then get_string (\<lambda>nm. and_then get_string (\<lambda>ni. and_then get_string (\<lambda>dg.
     and_then get_int (\<lambda>sz. and_then get_int (\<lambda>ad. and_then get_int (\<lambda>lu. and_then get_int (\<lambda>up.
     and_then (get_list get_string) (\<lambda>rs. and_then get_string (\<lambda>so. giving
       \<lparr>it_name = nm, it_narinfo = ni, it_nar_digest = dg, it_nar_size = sz, it_added = ad, it_last_used = lu,
        it_uploaded_at = up, it_references = rs, it_source = so\<rparr>)))))))))"

lemma wire_item: "wire put_item get_item"
  by unfold_locales
    (simp add: put_item_def get_item_def wire_basic and_then_put [OF wire_list [OF wire_string]] giving_def)

definition put_index :: "cache_index \<Rightarrow> string" where
  "put_index i = put_int (ix_version i) @ put_string (ix_repo i) @ put_string (ix_registry i) @ put_string (ix_image i)
     @ put_int (ix_generated i) @ put_string (ix_public_key i) @ put_list put_string (ix_gc_roots_v1 i)
     @ put_map put_root (ix_roots i) @ put_map put_item (ix_entries i) @ put_string (ix_source i)"

definition get_index :: "cache_index reader" where
  "get_index = and_then get_int (\<lambda>vs. and_then get_string (\<lambda>re. and_then get_string (\<lambda>rg. and_then get_string (\<lambda>im.
     and_then get_int (\<lambda>gn. and_then get_string (\<lambda>pk. and_then (get_list get_string) (\<lambda>r1.
     and_then (get_map get_root) (\<lambda>rs. and_then (get_map get_item) (\<lambda>es. and_then get_string (\<lambda>so. giving
       \<lparr>ix_version = vs, ix_repo = re, ix_registry = rg, ix_image = im, ix_generated = gn, ix_public_key = pk,
        ix_gc_roots_v1 = r1, ix_roots = rs, ix_entries = es, ix_source = so\<rparr>))))))))))"

lemma wire_index: "wire put_index get_index"
  by unfold_locales
    (simp add: put_index_def get_index_def wire_basic and_then_put [OF wire_list [OF wire_string]]
      and_then_put [OF wire_map [OF wire_root]] and_then_put [OF wire_map [OF wire_item]] giving_def)

definition put_descriptor :: "descriptor \<Rightarrow> string" where
  "put_descriptor d = put_string (ds_media d) @ put_string (ds_digest d) @ put_int (ds_size d)"

definition get_descriptor :: "descriptor reader" where
  "get_descriptor = and_then get_string (\<lambda>md. and_then get_string (\<lambda>dg. and_then get_int (\<lambda>sz. giving
     \<lparr>ds_media = md, ds_digest = dg, ds_size = sz\<rparr>)))"

lemma wire_descriptor: "wire put_descriptor get_descriptor"
  by unfold_locales (simp add: put_descriptor_def get_descriptor_def wire_basic giving_def)

definition put_manifest :: "oci_manifest \<Rightarrow> string" where
  "put_manifest m = put_int (mf_schema m) @ put_string (mf_media m) @ put_string (mf_artifact m)
     @ put_descriptor (mf_config m) @ put_list put_descriptor (mf_layers m) @ put_map put_string (mf_annotations m)"

definition get_manifest :: "oci_manifest reader" where
  "get_manifest = and_then get_int (\<lambda>sc. and_then get_string (\<lambda>md. and_then get_string (\<lambda>ar. and_then get_descriptor (\<lambda>cf.
     and_then (get_list get_descriptor) (\<lambda>ls. and_then (get_map get_string) (\<lambda>an. giving
       \<lparr>mf_schema = sc, mf_media = md, mf_artifact = ar, mf_config = cf, mf_layers = ls, mf_annotations = an\<rparr>))))))"

lemma wire_manifest: "wire put_manifest get_manifest"
  by unfold_locales
    (simp add: put_manifest_def get_manifest_def wire_basic and_then_put [OF wire_descriptor]
      and_then_put [OF wire_list [OF wire_descriptor]] and_then_put [OF wire_map [OF wire_string]] giving_def)

section \<open>The codecs\<close>

text \<open>A document is a value and nothing after it.\<close>

definition whole :: "'a reader \<Rightarrow> string \<Rightarrow> string + 'a" where
  "whole g s = (case g s of Some (x, []) \<Rightarrow> Inr x | _ \<Rightarrow> Inl ''invalid document'')"

lemma whole_put: "wire p g \<Longrightarrow> whole g (p x) = Inr x"
  using wire.get_put [of p g x "[]"] by (simp add: whole_def)

definition unframe :: "string \<Rightarrow> string + string" where
  "unframe d = (if has_prefix d zstd_magic then Inr (drop (length zstd_magic) d) else Inl ''invalid frame'')"

text \<open>A content is its own digest, and a frame holds its content as it is.\<close>

definition wire_codecs :: codecs where
  "wire_codecs =
     \<lparr>cd_put_manifest = put_manifest, cd_get_manifest = whole get_manifest,
      cd_put_index = (\<lambda>i. put_index (json_image i)), cd_get_index = whole get_index,
      cd_get_tags = whole (get_list get_string), cd_zstd = (\<lambda>x. zstd_magic @ x), cd_unzstd = unframe,
      cd_gunzip = (\<lambda>_. Inl ''invalid frame''), cd_sha256 = id, cd_rfc3339 = put_int, cd_url_parts = (\<lambda>_. None),
      cd_resolve = (\<lambda>_ loc. Inr loc)\<rparr>"

interpretation root_wire: wire put_root get_root by (rule wire_root)
interpretation item_wire: wire put_item get_item by (rule wire_item)
interpretation index_wire: wire put_index get_index by (rule wire_index)
interpretation manifest_wire: wire put_manifest get_manifest by (rule wire_manifest)

lemma wire_codecs_index: "cd_get_index wire_codecs (cd_put_index wire_codecs i) = Inr (json_image i)"
  by (simp add: wire_codecs_def whole_put [OF wire_index])

lemma wire_codecs_manifest: "cd_get_manifest wire_codecs (cd_put_manifest wire_codecs m) = Inr m"
  by (simp add: wire_codecs_def whole_put [OF wire_manifest])

lemma wire_codecs_zstd:
  "has_prefix (cd_zstd wire_codecs x) zstd_magic" "cd_unzstd wire_codecs (cd_zstd wire_codecs x) = Inr x"
  by (simp_all add: wire_codecs_def unframe_def)

end
