(* ===== verification/Oci_Store.thy ===== *)
theory Oci_Store
  imports Oci_Session Oci_Codec Oci_Client
begin

text \<open>
  What the registry client guarantees: an index that was pushed is fetched again, an index that is
  fetched is ready for its readers, and the errors that are taken for a missing index. The laws of
  the registry are those of the OCI distribution specification: a tag is what was put last, a blob
  is found under the digest of its content.
\<close>

section \<open>Requests that are answered\<close>

lemma transport_request_ok:
  assumes "get_oci_token nt (actions_for mthd) w = (Inr token, w1)"
    and "nt_cancelled nt (length (w_log w1)) = None"
    and "nt_answer nt (w_log w1) (registry_request (w_transport w1) mthd path token body ctype True) = Inr resp"
    and "final_answer resp"
  shows "transport_request nt mthd path body ctype w
    = (Inr resp, w1\<lparr>w_log := w_log w1 @ [registry_request (w_transport w1) mthd path token body ctype True]\<rparr>)"
  using assms
  by (simp add: transport_request_def do_request_def do_with_retry_def attempts_4 cancelled_def exchange_def)

lemma registry_request_sel [simp]:
  "oq_method (registry_request t mthd path token body ctype follow) = mthd"
  "oq_url (registry_request t mthd path token body ctype follow)
    = ''https://'' @ tr_registry t @ ''/v2/'' @ tr_repo t @ ''/nix-cache'' @ path"
  "oq_body (registry_request t mthd path token body ctype follow) = body"
  by (simp_all add: registry_request_def)

section \<open>The laws of a registry\<close>

definition reads :: "oci_request list \<Rightarrow> bool" where
  "reads h \<longleftrightarrow> list_all (\<lambda>rq. oq_method rq \<in> {''GET'', ''HEAD''}) h"

text \<open>A tag answers with the manifest that was accepted last.\<close>

definition keeps_tags :: "network \<Rightarrow> string \<Rightarrow> bool" where
  "keeps_tags nt base \<longleftrightarrow> (\<forall>h h' put get tag body resp.
     oq_method put = ''PUT'' \<longrightarrow> oq_url put = base @ ''/manifests/'' @ tag \<longrightarrow> oq_body put = Some body
     \<longrightarrow> nt_answer nt h put = Inr resp \<longrightarrow> ha_status resp \<in> {200, 201} \<longrightarrow> reads h'
     \<longrightarrow> oq_method get = ''GET'' \<longrightarrow> oq_url get = base @ ''/manifests/'' @ tag
     \<longrightarrow> (\<exists>found. nt_answer nt (h @ put # h') get = Inr found \<and> ha_status found = 200 \<and> ha_body found = body))"

text \<open>A blob that was found in this repository, or was committed to an upload session of it, can be
  downloaded from it until something is deleted, and its content has the digest it is named by.\<close>

definition keeps_blobs :: "network \<Rightarrow> codecs \<Rightarrow> string \<Rightarrow> string \<Rightarrow> bool" where
  "keeps_blobs nt cd registry base \<longleftrightarrow> (\<forall>h h' rq get hex resp.
     nt_answer nt h rq = Inr resp \<longrightarrow> stores nt (cd_resolve cd) registry base h rq resp hex
     \<longrightarrow> list_all (\<lambda>r. oq_method r \<noteq> ''DELETE'') h'
     \<longrightarrow> oq_method get = ''GET'' \<longrightarrow> oq_url get = base @ ''/blobs/sha256:'' @ hex
     \<longrightarrow> (\<exists>found. nt_answer nt (h @ rq # h') get = Inr found \<and> ha_status found = 200
            \<and> cd_sha256 cd (ha_body found) = hex))"

section \<open>Pushing and fetching\<close>

lemma sends_reads: "sends {''GET''} w w' \<Longrightarrow> \<exists>h'. w_log w' = w_log w @ h' \<and> reads h'"
  by (auto simp: sends_def reads_def list_all_iff)

lemma push_manifest_done:
  assumes "push_manifest nt cd tag m w = (None, w')"
  shows "\<exists>new put resp. w_log w' = w_log w @ new @ [put] \<and> nt_answer nt (w_log w @ new) put = Inr resp
    \<and> ha_status resp \<in> {200, 201} \<and> list_all (\<lambda>r. oq_method r \<noteq> ''DELETE'') (new @ [put])
    \<and> oq_method put = ''PUT'' \<and> oq_url put = base_url w @ ''/manifests/'' @ tag
    \<and> oq_body put = Some (cd_put_manifest cd m) \<and> base_url w' = base_url w"
proof -
  obtain resp where r: "transport_request nt ''PUT'' (''/manifests/'' @ tag) (Some (cd_put_manifest cd m)) media_manifest w = (Inr resp, w')"
    and ok: "ha_status resp \<in> {200, 201}"
    using assms by (auto simp: push_manifest_def split: prod.splits sum.splits if_splits)
  have "final_answer resp" using ok by (auto simp: final_answer_def)
  from transport_request_last [OF r this] obtain new put where p:
    "w_log w' = w_log w @ new @ [put]" "nt_answer nt (w_log w @ new) put = Inr resp"
    "list_all (\<lambda>r. oq_method r \<in> {''GET'', ''PUT''}) new" "oq_method put = ''PUT''"
    "oq_body put = Some (cd_put_manifest cd m)" "oq_url put = base_url w @ ''/manifests/'' @ tag" by auto
  have "list_all (\<lambda>r. oq_method r \<noteq> ''DELETE'') new"
    using p(3) by (rule list.pred_mono_strong) auto
  with p(4) have del: "list_all (\<lambda>r. oq_method r \<noteq> ''DELETE'') (new @ [put])" by simp
  have "sends {''GET'', ''PUT''} w w'" by (rule sends_request [OF r]) simp
  then have "base_url w' = base_url w" by (simp add: sends_def)
  with p ok del show ?thesis by blast
qed

lemma push_index_done:
  assumes "push_index nt cd idx w = (Done idx', w')"
  shows "\<exists>now2 h rq resp h2 put resp2. (let c = cd_zstd cd (cd_put_index cd idx'); hex = cd_sha256 cd c in
    nt_answer nt h rq = Inr resp
    \<and> stores nt (cd_resolve cd) (registry_of w) (base_url w) h rq resp hex
    \<and> w_log w' = (h @ rq # h2) @ [put] \<and> list_all (\<lambda>r. oq_method r \<noteq> ''DELETE'') (h2 @ [put])
    \<and> nt_answer nt (h @ rq # h2) put = Inr resp2 \<and> ha_status resp2 \<in> {200, 201}
    \<and> oq_method put = ''PUT'' \<and> oq_url put = base_url w @ ''/manifests/noci-index''
    \<and> oq_body put = Some (cd_put_manifest cd (index_manifest (''sha256:'' @ hex) (int (length c)) (cd_rfc3339 cd now2)))
    \<and> base_url w' = base_url w)"
proof -
  obtain now w1 where t: "read_clock nt w = (now, w1)" by (cases "read_clock nt w")
  let ?idx = "idx\<lparr>ix_generated := now\<rparr>"
  let ?c = "cd_zstd cd (cd_put_index cd ?idx)"
  let ?hex = "cd_sha256 cd ?c"
  note push = assms [unfolded push_index_def t prod.case Let_def]
  obtain digest sz w2 where u: "upload_blob nt (cd_resolve cd) (Inr ?c) ?hex w1 = (Done (digest, sz), w2)"
    using push by (cases "upload_blob nt (cd_resolve cd) (Inr ?c) ?hex w1"; cases "fst (upload_blob nt (cd_resolve cd) (Inr ?c) ?hex w1)") auto
  obtain now2 w3 where t2: "read_clock nt w2 = (now2, w3)" by (cases "read_clock nt w2")
  let ?m = "index_manifest digest (int (length ?c)) (cd_rfc3339 cd now2)"
  have m: "push_manifest nt cd ''noci-index'' ?m w3 = (None, w')" and idx': "idx' = ?idx"
    using push [unfolded u go_outcome.case prod.case t2] by (auto split: prod.splits option.splits)
  note log = t [unfolded read_clock_def] t2 [unfolded read_clock_def]
  have d: "digest = ''sha256:'' @ ?hex" using upload_confirmed [OF u] by blast
  have w1: "w_transport w1 = w_transport w" using log by auto
  obtain h rq resp where c: "w_log w2 = h @ [rq]" "nt_answer nt h rq = Inr resp"
    "stores nt (cd_resolve cd) (registry_of w) (base_url w) h rq resp ?hex"
    using upload_stored [OF u] unfolding stored_last_def w1 by blast
  have b: "base_url w3 = base_url w"
    using sends_upload_blob [OF u] log by (auto simp: sends_def)
  obtain new put resp2 where p: "w_log w' = w_log w3 @ new @ [put]" "nt_answer nt (w_log w3 @ new) put = Inr resp2"
    "ha_status resp2 \<in> {200, 201}" "list_all (\<lambda>r. oq_method r \<noteq> ''DELETE'') (new @ [put])"
    "oq_method put = ''PUT''" "oq_url put = base_url w3 @ ''/manifests/noci-index''"
    "oq_body put = Some (cd_put_manifest cd ?m)" "base_url w' = base_url w3"
    using push_manifest_done [OF m] by auto
  have w3: "w_log w3 = h @ [rq]" using c(1) log by auto
  show ?thesis
    unfolding Let_def idx'
  proof (intro exI conjI)
    show "nt_answer nt h rq = Inr resp" by (rule c(2))
    show "stores nt (cd_resolve cd) (registry_of w) (base_url w) h rq resp ?hex" by (rule c(3))
    show "w_log w' = (h @ rq # new) @ [put]" using p(1) w3 by simp
    show "nt_answer nt (h @ rq # new) put = Inr resp2" using p(2) w3 by simp
    show "oq_url put = base_url w @ ''/manifests/noci-index''" using p(6) unfolding b .
    show "oq_body put = Some (cd_put_manifest cd (index_manifest (''sha256:'' @ ?hex) (int (length ?c)) (cd_rfc3339 cd now2)))"
      using p(7) unfolding d .
    show "base_url w' = base_url w" using p(8) b by simp
  qed (use p in simp_all)
qed

text \<open>What the codecs and the digest are relied on to do for one index: its JSON is read back, up to what
  \<open>omitempty\<close> leaves out; its compressed form is decompressed; nothing else the network answers has the
  digest of that form; and the JSON of its manifest is read back.\<close>

definition carries :: "network \<Rightarrow> codecs \<Rightarrow> cache_index \<Rightarrow> bool" where
  "carries nt cd idx \<longleftrightarrow> (let c = cd_zstd cd (cd_put_index cd idx) in
     cd_get_index cd (cd_put_index cd idx) = Inr (json_image idx)
     \<and> has_prefix c zstd_magic \<and> cd_unzstd cd c = Inr (cd_put_index cd idx)
     \<and> (\<forall>h rq found. nt_answer nt h rq = Inr found \<longrightarrow> cd_sha256 cd (ha_body found) = cd_sha256 cd c \<longrightarrow> ha_body found = c)
     \<and> (\<forall>t. let m = index_manifest (''sha256:'' @ cd_sha256 cd c) (int (length c)) (cd_rfc3339 cd t)
          in cd_get_manifest cd (cd_put_manifest cd m) = Inr m))"

lemma wire_carries: "carries nt wire_codecs idx"
proof -
  have "cd_sha256 wire_codecs = id" by (simp add: wire_codecs_def)
  then show ?thesis
    by (simp add: carries_def wire_codecs_index wire_codecs_zstd wire_codecs_manifest Let_def)
qed

text \<open>A read of the registry whose law gives its answer.\<close>

lemma get_answered:
  assumes token: "\<And>v. \<exists>token v'. get_oci_token nt ''pull'' v = (Inr token, v')"
    and cancel: "\<And>i. nt_cancelled nt i = None"
    and ans: "\<And>h1 rq. reads h1 \<Longrightarrow> oq_method rq = ''GET'' \<Longrightarrow> oq_url rq = base_url w @ path \<Longrightarrow>
      \<exists>found. nt_answer nt (w_log w @ h1) rq = Inr found \<and> ha_status found = 200 \<and> P (ha_body found)"
  shows "\<exists>found w' h1. transport_request nt ''GET'' path None ctype w = (Inr found, w') \<and> ha_status found = 200
    \<and> P (ha_body found) \<and> w_log w' = w_log w @ h1 \<and> reads h1 \<and> base_url w' = base_url w"
proof -
  obtain token w1 where t: "get_oci_token nt (actions_for ''GET'') w = (Inr token, w1)"
    using token [of w] by (auto simp: actions_for_def)
  have s: "sends {''GET''} w w1" by (rule sends_get_token [OF t]) simp
  then obtain h1 where h1: "w_log w1 = w_log w @ h1" "reads h1" using sends_reads by blast
  have b: "base_url w1 = base_url w" using s by (simp add: sends_def)
  let ?rq = "registry_request (w_transport w1) ''GET'' path token None ctype True"
  have "oq_url ?rq = base_url w @ path" using b by simp
  then obtain found where f: "nt_answer nt (w_log w1) ?rq = Inr found" "ha_status found = 200" "P (ha_body found)"
    using ans [OF h1(2), of ?rq] h1(1) by auto
  have "final_answer found" using f(2) by (simp add: final_answer_def)
  from transport_request_ok [OF t cancel f(1) this]
  have tr: "transport_request nt ''GET'' path None ctype w = (Inr found, w1\<lparr>w_log := w_log w1 @ [?rq]\<rparr>)" .
  have "reads (h1 @ [?rq])" using h1(2) by (simp add: reads_def)
  then show ?thesis
    using tr f b h1(1)
    by (intro exI [of _ found] exI [of _ "w1\<lparr>w_log := w_log w1 @ [?rq]\<rparr>"] exI [of _ "h1 @ [?rq]"]) simp
qed

lemma reads_no_delete: "reads h \<Longrightarrow> list_all (\<lambda>r. oq_method r \<noteq> ''DELETE'') h"
  unfolding reads_def by (erule list.pred_mono_strong) auto

lemma pushed_index_fetched:
  assumes push: "push_index nt cd idx w = (Done idx', w')"
    and later: "w_log w'' = w_log w' @ h'" "reads h'" "base_url w'' = base_url w"
    and tags: "keeps_tags nt (base_url w)" and blobs: "keeps_blobs nt cd (registry_of w) (base_url w)"
    and codec: "carries nt cd idx'"
    and token: "\<And>v. \<exists>token v'. get_oci_token nt ''pull'' v = (Inr token, v')"
    and cancel: "\<And>i. nt_cancelled nt i = None"
  shows "\<exists>clk. fst (fetch_index nt cd w'') = Inr (upgrade clk idx')"
proof -
  let ?c = "cd_zstd cd (cd_put_index cd idx')"
  let ?hex = "cd_sha256 cd ?c"
  obtain now2 h rq resp h2 put resp2 where
    rq: "nt_answer nt h rq = Inr resp"
      "stores nt (cd_resolve cd) (registry_of w) (base_url w) h rq resp ?hex"
    and log: "w_log w' = (h @ rq # h2) @ [put]" "list_all (\<lambda>r. oq_method r \<noteq> ''DELETE'') (h2 @ [put])"
    and put: "nt_answer nt (h @ rq # h2) put = Inr resp2" "ha_status resp2 \<in> {200, 201}" "oq_method put = ''PUT''"
      "oq_url put = base_url w @ ''/manifests/noci-index''"
      "oq_body put = Some (cd_put_manifest cd (index_manifest (''sha256:'' @ ?hex) (int (length ?c)) (cd_rfc3339 cd now2)))"
    using push_index_done [OF push] unfolding Let_def by blast
  let ?m = "index_manifest (''sha256:'' @ ?hex) (int (length ?c)) (cd_rfc3339 cd now2)"
  have "\<exists>found w1 h1. transport_request nt ''GET'' ''/manifests/noci-index'' None media_manifest w'' = (Inr found, w1)
    \<and> ha_status found = 200 \<and> ha_body found = cd_put_manifest cd ?m
    \<and> w_log w1 = w_log w'' @ h1 \<and> reads h1 \<and> base_url w1 = base_url w''"
  proof (rule get_answered [OF token cancel])
    fix h1 and get :: oci_request
    assume g: "reads h1" "oq_method get = ''GET''" "oq_url get = base_url w'' @ ''/manifests/noci-index''"
    have "reads (h' @ h1)" using later(2) g(1) by (simp add: reads_def)
    have urls: "oq_url put = base_url w @ ''/manifests/'' @ ''noci-index''"
      "oq_url get = base_url w @ ''/manifests/'' @ ''noci-index''"
      using put(4) g(3) later(3) by simp_all
    from tags [unfolded keeps_tags_def, rule_format, OF put(3) urls(1) put(5,1,2) \<open>reads (h' @ h1)\<close> g(2) urls(2)]
    show "\<exists>found. nt_answer nt (w_log w'' @ h1) get = Inr found \<and> ha_status found = 200 \<and> ha_body found = cd_put_manifest cd ?m"
      unfolding later log by simp
  qed
  then obtain found w1 h1 where r1: "transport_request nt ''GET'' ''/manifests/noci-index'' None media_manifest w'' = (Inr found, w1)"
    "ha_status found = 200" "ha_body found = cd_put_manifest cd ?m" "w_log w1 = w_log w'' @ h1" "reads h1" "base_url w1 = base_url w''"
    by blast
  have m: "fetch_manifest nt cd ''noci-index'' w'' = (Inr ?m, w1)"
    using r1(1-3) codec by (simp add: fetch_manifest_def carries_def Let_def)
  have "\<exists>found2 w2 h3. transport_request nt ''GET'' (''/blobs/'' @ ''sha256:'' @ ?hex) None [] w1 = (Inr found2, w2)
    \<and> ha_status found2 = 200 \<and> ha_body found2 = ?c
    \<and> w_log w2 = w_log w1 @ h3 \<and> reads h3 \<and> base_url w2 = base_url w1"
  proof (rule get_answered [OF token cancel])
    fix h3 and get :: oci_request
    assume g: "reads h3" "oq_method get = ''GET''" "oq_url get = base_url w1 @ ''/blobs/'' @ ''sha256:'' @ ?hex"
    have nd: "list_all (\<lambda>r. oq_method r \<noteq> ''DELETE'') ((h2 @ [put]) @ h' @ h1 @ h3)"
      using log(2) later(2) r1(5) g(1) by (simp add: reads_no_delete)
    have url: "oq_url get = base_url w @ ''/blobs/sha256:'' @ ?hex" using g(3) r1(6) later(3) by simp
    have "\<exists>found2. nt_answer nt (w_log w1 @ h3) get = Inr found2 \<and> ha_status found2 = 200 \<and> cd_sha256 cd (ha_body found2) = ?hex"
      using blobs [unfolded keeps_blobs_def, rule_format, OF rq nd g(2) url] unfolding r1(4) later log by simp
    then show "\<exists>found2. nt_answer nt (w_log w1 @ h3) get = Inr found2 \<and> ha_status found2 = 200 \<and> ha_body found2 = ?c"
      using codec by (auto simp: carries_def Let_def)
  qed
  then obtain found2 w2 where r2: "transport_request nt ''GET'' (''/blobs/'' @ ''sha256:'' @ ?hex) None [] w1 = (Inr found2, w2)"
    "ha_status found2 = 200" "ha_body found2 = ?c" by blast
  then have d: "download_blob nt (''sha256:'' @ ?hex) w1 = (Inr ?c, w2)" by (simp add: download_blob_def)
  have "decompress cd ?c = Inr (cd_put_index cd idx')"
    using codec by (simp add: decompress_def carries_def Let_def)
  then have "\<exists>clk. fst (decode_index nt cd ?c w2) = Inr (upgrade clk idx')"
    using codec by (auto simp: decode_index_def carries_def upgrade_now_def upgrade_json_image Let_def)
  then show ?thesis
    by (simp add: fetch_index_def m index_manifest_def d [simplified])
qed

text \<open>C5: An index that was pushed comes back: when a push has succeeded and nothing was written since, a
  fetch by any client of the repository gives the pushed index, upgraded, provided that the registry
  keeps tags and blobs and gives out tokens, that the context lives, and that the codecs read back what
  they wrote (for JSON: up to an empty map of pins, which is left out and comes back through the upgrade).\<close>

theorem push_then_fetch:
  assumes push: "push_index nt cd idx w = (Done idx', w')"
    and later: "w_log w'' = w_log w' @ h'" "reads h'" "base_url w'' = base_url w"
    and tags: "keeps_tags nt (base_url w)" and blobs: "keeps_blobs nt cd (registry_of w) (base_url w)"
    and codec: "carries nt cd idx'"
    and token: "\<And>v. \<exists>token v'. get_oci_token nt ''pull'' v = (Inr token, v')"
    and cancel: "\<And>i. nt_cancelled nt i = None"
  shows "\<exists>clk. fst (fetch_index nt cd w'') = Inr (upgrade clk idx')"
  by (rule pushed_index_fetched [OF assms])

text \<open>A registry that keeps everything, where a content is its own digest; an index without entries, and
  codecs that know one index only.\<close>

definition keeper :: "string \<Rightarrow> network" where
  "keeper base = steady (\<lambda>h rq.
     if oq_method rq = ''POST'' then reply 202 [(''Location'', ''/up'')] []
     else if oq_method rq = ''PUT'' then reply 201 [] []
     else if oq_method rq = ''HEAD'' then reply 404 [] []
     else if has_prefix (oq_url rq) (base @ ''/blobs/sha256:'')
     then reply 200 [] (trim_prefix (oq_url rq) (base @ ''/blobs/sha256:''))
     else case find (\<lambda>r. oq_method r = ''PUT'' \<and> oq_url r = oq_url rq) (rev h) of
            Some r \<Rightarrow> reply 200 [] (case oq_body r of Some b \<Rightarrow> b | None \<Rightarrow> [])
          | None \<Rightarrow> reply 200 [] ''t'')"

definition pushed_index :: cache_index where
  "pushed_index = (new_index ''r'' ''o'' 0)\<lparr>ix_generated := 1\<rparr>"

definition one_index_codec :: "cache_index \<Rightarrow> codecs" where
  "one_index_codec i = \<lparr>cd_put_manifest = (\<lambda>m. ''m''),
     cd_get_manifest = (\<lambda>b. Inr (index_manifest (''sha256:'' @ zstd_magic @ ''i'') 5 [])),
     cd_put_index = (\<lambda>_. ''i''), cd_get_index = (\<lambda>_. Inr i), cd_get_tags = (\<lambda>_. Inr []),
     cd_zstd = (\<lambda>x. zstd_magic @ x), cd_unzstd = (\<lambda>d. Inr (drop 4 d)), cd_gunzip = Inr, cd_sha256 = id,
     cd_rfc3339 = (\<lambda>_. []), cd_url_parts = (\<lambda>_. None), cd_resolve = as_is\<rparr>"

lemma has_prefix_base: "has_prefix (a @ b) (a @ c) = has_prefix b c"
  by (induction a) simp_all

lemma keeper_tags: "keeps_tags (keeper base) base"
proof -
  have none: "find (\<lambda>r. oq_method r = ''PUT'' \<and> P r) (rev h') = None" if "reads h'" for h' P
    using that by (auto simp: reads_def list_all_iff find_None_iff)
  have split: "find Q (xs @ ys) = (case find Q xs of None \<Rightarrow> find Q ys | Some x \<Rightarrow> Some x)" for Q xs and ys :: "'b list"
    by (induction xs) auto
  show ?thesis
    unfolding keeps_tags_def
    by (auto simp: keeper_def steady_def reply_def has_prefix_base split none)
qed

lemma keeper_blobs: "cd_sha256 cd = id \<Longrightarrow> keeps_blobs (keeper base) cd registry base"
proof -
  assume id: "cd_sha256 cd = id"
  have "trim_prefix ((base @ ''/blobs/sha256:'') @ hex) (base @ ''/blobs/sha256:'') = hex"
    "has_prefix ((base @ ''/blobs/sha256:'') @ hex) (base @ ''/blobs/sha256:'')" for hex
    by (rule trim_prefix_append, rule has_prefix_append)
  with id show ?thesis unfolding keeps_blobs_def by (auto simp: keeper_def steady_def reply_def)
qed

lemma keeper_token: "\<exists>token v'. get_oci_token (keeper base) ''pull'' v = (Inr token, v')"
proof -
  have fetched: "\<exists>token v'. fetch_token (keeper base) ''pull'' u = (Inr token, v')" for u
  proof -
    have "\<exists>body. nt_answer (keeper base) (w_log u) (token_request (w_transport u) ''pull'') = reply 200 [] body"
      by (auto simp: keeper_def steady_def token_request_def split: option.split)
    then obtain body where b: "nt_answer (keeper base) (w_log u) (token_request (w_transport u) ''pull'') = reply 200 [] body" ..
    have "nt_token (keeper base) body = Inr body" by (simp add: keeper_def steady_def)
    with b show ?thesis by (simp add: fetch_token_def exchange_def reply_def read_clock_def)
  qed
  then show ?thesis
    using fetched [of v] fetched [of "snd (read_clock (keeper base) v)"]
    by (cases "read_clock (keeper base) v") (simp add: get_oci_token_def Let_def split: prod.split)
qed

lemma keeper_push:
  assumes "cd_resolve cd = as_is" and "length (cd_zstd cd (cd_put_index cd (idx\<lparr>ix_generated := 1\<rparr>))) \<le> chunked_threshold"
  shows "fst (push_index (keeper (base_url idle)) cd idx idle) = Done (idx\<lparr>ix_generated := 1\<rparr>)"
  using assms
  by (simp add: accepting_defs keeper_def push_index_def push_manifest_def upload_blob_def upload_monolithic_def)

text \<open>An index with one path and no pin.\<close>

definition one_path :: cache_index where
  "one_path = (new_index ''r'' ''o'' 0)\<lparr>ix_entries := Some (fmap_of_list [(''k'', new_item ''x'' ''StorePath: x'' ''00'' 5 [] 1)])\<rparr>"

lemma one_path_small:
  "length (cd_zstd wire_codecs (cd_put_index wire_codecs (one_path\<lparr>ix_generated := 1\<rparr>))) \<le> chunked_threshold"
proof -
  have "length (put_index (one_path\<lparr>ix_roots := None, ix_generated := 1\<rparr>)) \<le> 500"
    by code_simp
  moreover have "json_image (one_path\<lparr>ix_generated := 1\<rparr>) = one_path\<lparr>ix_roots := None, ix_generated := 1\<rparr>"
    by (simp add: json_image_def one_path_def new_index_def gm_make_def gm_keys_def)
  ultimately show ?thesis by (simp add: wire_codecs_def zstd_magic_def chunked_threshold_def)
qed

theorem push_then_fetch_witness:
  "\<exists>w' clk idx'. push_index (keeper (base_url idle)) wire_codecs one_path idle = (Done idx', w')
    \<and> gm_get (ix_entries idx') ''k'' \<noteq> None
    \<and> fst (fetch_index (keeper (base_url idle)) wire_codecs w') = Inr (upgrade clk idx')"
proof -
  let ?nt = "keeper (base_url idle)" and ?i = "one_path\<lparr>ix_generated := 1\<rparr>"
  obtain w' where p: "push_index ?nt wire_codecs one_path idle = (Done ?i, w')"
    using keeper_push [OF _ one_path_small] by (metis codecs.select_convs(12) prod.collapse wire_codecs_def)
  have log: "w_log w' = w_log w' @ []" and none: "reads []" by (simp_all add: reads_def)
  have b: "base_url w' = base_url idle" using push_index_done [OF p] by (auto simp: Let_def)
  have bl: "keeps_blobs ?nt wire_codecs (registry_of idle) (base_url idle)"
    by (rule keeper_blobs) (simp add: wire_codecs_def)
  have c: "nt_cancelled ?nt i = None" for i by (simp add: keeper_def steady_def)
  from push_then_fetch [OF p log none b keeper_tags bl wire_carries keeper_token c]
  have "\<exists>clk. fst (fetch_index ?nt wire_codecs w') = Inr (upgrade clk ?i)" .
  moreover have "gm_get (ix_entries ?i) ''k'' \<noteq> None" by (simp add: one_path_def)
  ultimately show ?thesis using p by blast
qed

section \<open>Fetched indexes are upgraded\<close>

definition upgraded :: "cache_index \<Rightarrow> bool" where
  "upgraded idx \<longleftrightarrow> (\<forall>clk. upgrade clk idx = idx)"

lemma upgraded_upgrade: "upgraded (upgrade clk idx)"
  by (simp add: upgraded_def upgrade_idem)

lemma upgraded_new: "upgraded (new_index registry repo now)"
  by (simp add: upgraded_def upgrade_def new_index_def gm_make_def Let_def fmap_ext)

lemma upgraded_fields: "upgraded idx \<Longrightarrow>
    2 \<le> ix_version idx \<and> ix_gc_roots_v1 idx = [] \<and> ix_roots idx \<noteq> None
    \<and> map_option (fmmap backfill_item) (ix_entries idx) = ix_entries idx"
proof -
  assume "upgraded idx"
  then have u: "upgrade (\<lambda>_. 0) idx = idx" by (simp add: upgraded_def)
  have "ix_entries (upgrade (\<lambda>_. 0) idx) = map_option (fmmap backfill_item) (ix_entries idx)"
    by (simp add: upgrade_def Let_def)
  with u upgrade_ready [of "\<lambda>_. 0" idx] show ?thesis by (simp add: index_ready_def)
qed

lemma upgradedI:
  assumes "2 \<le> ix_version idx" and "ix_gc_roots_v1 idx = []" and "ix_roots idx \<noteq> None"
    and "map_option (fmmap backfill_item) (ix_entries idx) = ix_entries idx"
  shows "upgraded idx"
  using assms by (auto simp: upgraded_def upgrade_def Let_def)

lemma fetch_index_upgraded:
  assumes "fetch_index nt cd w = (Inr idx, w')"
  shows "upgraded idx"
  using assms
  by (auto simp: fetch_index_def fresh_index_def decode_index_def upgrade_now_def Let_def read_clock_def
      upgraded_upgrade upgraded_new split: prod.splits sum.splits if_splits list.splits)

lemma sends_fetch_manifest: "fetch_manifest nt cd tag w = (r, w') \<Longrightarrow> ''GET'' \<in> ms \<Longrightarrow> sends ms w w'"
  by (auto simp: fetch_manifest_def split: prod.splits sum.splits if_splits intro: sends_request)

lemma sends_download: "download_blob nt digest w = (r, w') \<Longrightarrow> ''GET'' \<in> ms \<Longrightarrow> sends ms w w'"
  by (auto simp: download_blob_def split: prod.splits sum.splits if_splits intro: sends_request)

lemma sends_manifest_exists:
  "manifest_exists nt tag w = (r, w') \<Longrightarrow> {''GET'', ''HEAD''} \<subseteq> ms \<Longrightarrow> sends ms w w'"
  by (auto simp: manifest_exists_def split: prod.splits sum.splits if_splits intro: sends_request)

lemma sends_push_manifest:
  "push_manifest nt cd tag m w = (r, w') \<Longrightarrow> {''GET'', ''PUT''} \<subseteq> ms \<Longrightarrow> sends ms w w'"
  by (auto simp: push_manifest_def split: prod.splits sum.splits if_splits intro: sends_request)

lemma sends_delete_manifest:
  assumes "delete_manifest nt cd tag w = (r, w')" and "{''GET'', ''PUT'', ''DELETE''} \<subseteq> ms"
  shows "sends ms w w'"
proof -
  obtain a w1 where t: "transport_request nt ''DELETE'' (''/manifests/'' @ tag) None [] w = (a, w1)" by fastforce
  have "sends ms w w1" by (rule sends_request [OF t]) (use assms(2) in simp)
  moreover have "sends ms w1 w'"
    using assms unfolding delete_manifest_def t
    by (auto simp: fallback_untag_def split: sum.splits if_splits intro: sends_push_manifest)
  ultimately show ?thesis by (rule sends_trans)
qed

lemma sends_push_index:
  assumes "push_index nt cd idx w = (r, w')" and "upload_methods \<union> {''GET'', ''PUT''} \<subseteq> ms"
  shows "sends ms w w'"
proof -
  obtain now w1 where t: "read_clock nt w = (now, w1)" by fastforce
  let ?c = "cd_zstd cd (cd_put_index cd (idx\<lparr>ix_generated := now\<rparr>))"
  obtain u w2 where u: "upload_blob nt (cd_resolve cd) (Inr ?c) (cd_sha256 cd ?c) w1 = (u, w2)" by fastforce
  have "sends ms w1 w2" by (rule sends_mono [OF sends_upload_blob [OF u]]) (use assms(2) in simp)
  with sends_read_clock [OF t] have s: "sends ms w w2" by (rule sends_trans)
  show ?thesis
  proof (cases u)
    case (Done d)
    obtain now2 w3 where t2: "read_clock nt w2 = (now2, w3)" by fastforce
    obtain m w4 where m: "push_manifest nt cd ''noci-index''
        (index_manifest (fst d) (int (length ?c)) (cd_rfc3339 cd now2)) w3 = (m, w4)" by fastforce
    have "sends ms w3 w4" by (rule sends_push_manifest [OF m]) (use assms(2) in simp)
    moreover have "w4 = w'"
      using assms(1) unfolding push_index_def t prod.case Let_def u Done go_outcome.case
      by (cases d) (use t2 m in \<open>auto split: option.splits\<close>)
    ultimately have "sends ms w3 w'" by simp
    with sends_read_clock [OF t2] have "sends ms w2 w'" by (rule sends_trans)
    with s show ?thesis by (rule sends_trans)
  qed (use assms(1) s in \<open>auto simp: push_index_def t Let_def u\<close>)
qed

lemma push_index_entries:
  "push_index nt cd idx w = (Done idx', w') \<Longrightarrow> ix_entries idx' = ix_entries idx \<and> ix_roots idx' = ix_roots idx"
  by (auto simp: push_index_def Let_def split: prod.splits go_outcome.splits option.splits)

lemma sends_fetch_index:
  assumes "fetch_index nt cd w = (r, w')" and "''GET'' \<in> ms"
  shows "sends ms w w'"
proof -
  obtain m w1 where m: "fetch_manifest nt cd ''noci-index'' w = (m, w1)" by fastforce
  have s1: "sends ms w w1" by (rule sends_fetch_manifest [OF m assms(2)])
  have fresh: "sends ms v (snd (fresh_index nt v))" for v
    by (simp add: fresh_index_def read_clock_def sends_def)
  have dec: "sends ms v (snd (decode_index nt cd data v))" for v data
    by (auto simp: decode_index_def upgrade_now_def sends_def split: sum.splits)
  have "sends ms w1 w'"
    using assms(1) fresh [of w1] dec sends_download [OF _ assms(2)]
    by (auto simp: fetch_index_def m Let_def split: sum.splits if_splits list.splits prod.splits)
      (metis sends_trans snd_conv)
  with s1 show ?thesis by (rule sends_trans)
qed

section \<open>A missing index\<close>

text \<open>C31: A token endpoint that answers 404 is taken for a registry without an index: the fetch returns
  a new, empty index instead of the error, whatever index the registry holds.\<close>

theorem token_404_gives_empty_index:
  assumes "tr_pull_token (w_transport w) = []"
    and "nt_answer nt (w_log w) (token_request (w_transport w) ''pull'') = Inr resp" and "ha_status resp = 404"
  shows "\<exists>now w'. fetch_index nt cd w
    = (Inr (new_index (tr_registry (w_transport w)) (tr_repo (w_transport w)) now), w')"
proof -
  let ?err = "''fetch token for pull failed: HTTP 404, '' @ ha_body resp"
  have "show_int (ha_status resp) = ''404''" using assms(3) by (simp add: show_int_def show_404)
  then have "get_oci_token nt ''pull'' w = (Inl ?err, w\<lparr>w_log := w_log w @ [token_request (w_transport w) ''pull'']\<rparr>)"
    using assms by (simp add: get_oci_token_def cached_token_def fetch_token_def exchange_def)
  then have "fetch_manifest nt cd ''noci-index'' w = (Inl ?err, w\<lparr>w_log := w_log w @ [token_request (w_transport w) ''pull'']\<rparr>)"
    by (simp add: fetch_manifest_def transport_request_def do_request_def actions_for_def)
  moreover have "str_contains ?err ''HTTP 404''"
    unfolding str_contains_iff by (intro exI [of _ "''fetch token for pull failed: ''"] exI [of _ "'', '' @ ha_body resp"]) simp
  ultimately show ?thesis by (auto simp: fetch_index_def fresh_index_def read_clock_def)
qed

definition no_token_endpoint :: network where
  "no_token_endpoint = steady (\<lambda>h rq. reply 404 [] [])"

theorem token_404_gives_empty_index_witness:
  "\<exists>now w'. fetch_index no_token_endpoint (one_index_codec pushed_index) idle = (Inr (new_index ''r'' ''o'' now), w')"
  using token_404_gives_empty_index [of idle no_token_endpoint "\<lparr>ha_status = 404, ha_header = (\<lambda>_. []), ha_body = []\<rparr>"]
  by (simp add: idle_def new_transport_def no_token_endpoint_def steady_def reply_def)

section \<open>Tags\<close>

text \<open>What it means to follow the pages to an end: the tags of all of them, or the first error.\<close>

inductive tag_pages :: "network \<Rightarrow> codecs \<Rightarrow> string \<Rightarrow> world \<Rightarrow> string + string list \<Rightarrow> world \<Rightarrow> bool"
  for nt :: network and cd :: codecs where
  pages_fail: "tags_page nt cd path w = (Inl err, w1) \<Longrightarrow> tag_pages nt cd path w (Inl err) w1"
| pages_last: "tags_page nt cd path w = (Inr (tags, None), w1) \<Longrightarrow> tag_pages nt cd path w (Inr tags) w1"
| pages_more: "tags_page nt cd path w = (Inr (tags, Some next_path), w1) \<Longrightarrow> tag_pages nt cd next_path w1 r w2
    \<Longrightarrow> tag_pages nt cd path w (map_sum id (append tags) r) w2"

inductive_cases tag_pagesE: "tag_pages nt cd path w r w'"

lemma tags_from_pages:
  "tag_pages nt cd path w r w' \<Longrightarrow> tags_from nt cd path acc w = Some (map_sum id (append acc) r, w')"
proof (induction arbitrary: acc rule: tag_pages.induct)
  case (pages_more path w tags next_path w1 r w2)
  then show ?case by (subst tags_from.simps) (cases r; simp)
qed (subst tags_from.simps; simp)+

lemma pages_tags_from:
  assumes "tags_from nt cd path acc w = Some res"
  shows "\<exists>r. fst res = map_sum id (append acc) r \<and> tag_pages nt cd path w r (snd res)"
proof (rule tags_from.raw_induct [where P = "\<lambda>nt cd path acc w res.
    \<exists>r. fst res = map_sum id (append acc) r \<and> tag_pages nt cd path w r (snd res)", OF _ assms])
  fix rec nt cd path acc w res
  assume ih: "\<And>nt cd path acc w res. rec nt cd path acc w = Some res \<Longrightarrow>
      \<exists>r. fst res = map_sum id (append acc) r \<and> tag_pages nt cd path w r (snd res)"
    and body: "(case tags_page nt cd path w of (Inl err, w1) \<Rightarrow> Some (Inl err, w1)
      | (Inr (tags, None), w1) \<Rightarrow> Some (Inr (acc @ tags), w1)
      | (Inr (tags, Some next_path), w1) \<Rightarrow> rec nt cd next_path (acc @ tags) w1) = Some res"
  obtain p w1 where p: "tags_page nt cd path w = (p, w1)" by (cases "tags_page nt cd path w")
  show "\<exists>r. fst res = map_sum id (append acc) r \<and> tag_pages nt cd path w r (snd res)"
  proof (cases p)
    case (Inl err)
    with body p have "res = (Inl err, w1)" by simp
    moreover have "tag_pages nt cd path w (Inl err) w1" using p Inl by (auto intro: pages_fail)
    ultimately show ?thesis by (intro exI [of _ "Inl err"]) simp
  next
    case (Inr tn)
    obtain tags nx where tn: "tn = (tags, nx)" by (cases tn)
    show ?thesis
    proof (cases nx)
      case None
      with body p Inr tn have "res = (Inr (acc @ tags), w1)" by simp
      moreover have "tag_pages nt cd path w (Inr tags) w1" using p Inr tn None by (auto intro: pages_last)
      ultimately show ?thesis by (intro exI [of _ "Inr tags"]) simp
    next
      case (Some next_path)
      with body p Inr tn have "rec nt cd next_path (acc @ tags) w1 = Some res" by simp
      from ih [OF this] obtain r where r: "fst res = map_sum id (append (acc @ tags)) r"
        "tag_pages nt cd next_path w1 r (snd res)" by blast
      have "tag_pages nt cd path w (map_sum id (append tags) r) (snd res)"
        using p Inr tn Some r(2) by (auto intro: pages_more)
      moreover have "fst res = map_sum id (append acc) (map_sum id (append tags) r)"
        using r(1) by (cases r) simp_all
      ultimately show ?thesis by blast
    qed
  qed
qed

text \<open>C28: \<open>ListTags\<close> returns exactly when the pages come to an end, and then with the tags of all pages in
  order, or with the first error.\<close>

theorem list_tags_follows_pages:
  "list_tags nt cd w = Some (r, w') \<longleftrightarrow> tag_pages nt cd ''/tags/list'' w r w'"
proof
  assume "list_tags nt cd w = Some (r, w')"
  then obtain r' where "fst (r, w') = map_sum id (append []) r'" "tag_pages nt cd ''/tags/list'' w r' w'"
    unfolding list_tags_def by (metis pages_tags_from snd_conv)
  moreover have "map_sum id (append []) r' = r'" by (cases r') simp_all
  ultimately show "tag_pages nt cd ''/tags/list'' w r w'" by simp
next
  assume "tag_pages nt cd ''/tags/list'' w r w'"
  from tags_from_pages [OF this, of "[]"] show "list_tags nt cd w = Some (r, w')"
    unfolding list_tags_def by (cases r) simp_all
qed

text \<open>A registry whose every page names a next one keeps \<open>ListTags\<close> in its loop for ever.\<close>

lemma list_tags_may_loop:
  assumes "\<And>path v. \<exists>tags next_path v'. tags_page nt cd path v = (Inr (tags, Some next_path), v')"
  shows "list_tags nt cd w = None"
proof -
  have "\<not> tag_pages nt cd path v r v'" for path v r v'
  proof
    assume "tag_pages nt cd path v r v'"
    then show False
    proof (induction rule: tag_pages.induct)
      case (pages_fail path w err w1)
      with assms [of path w] show ?case by simp
    next
      case (pages_last path w tags w1)
      with assms [of path w] show ?case by simp
    qed
  qed
  then show ?thesis using pages_tags_from [of nt cd "''/tags/list''" "[]" w]
    by (cases "list_tags nt cd w") (auto simp: list_tags_def)
qed

section \<open>Deletion of a manifest\<close>

text \<open>A deletion that reports success was accepted by the registry, or the tag had gone already, or
  the tag was overwritten with the evicted manifest.\<close>

lemma delete_manifest_done:
  assumes "delete_manifest nt cd tag w = (None, w')"
  shows "(\<exists>rq resp. confirmed nt w' rq resp \<and> oq_method rq = ''DELETE'' \<and> ha_status resp \<in> {200, 202, 404})
    \<or> (\<exists>rq resp. confirmed nt w' rq resp \<and> oq_method rq = ''PUT'' \<and> ha_status resp \<in> {200, 201}
        \<and> oq_body rq = Some (cd_put_manifest cd evicted_manifest))"
proof -
  obtain a w1 where d: "transport_request nt ''DELETE'' (''/manifests/'' @ tag) None [] w = (a, w1)"
    by (cases "transport_request nt ''DELETE'' (''/manifests/'' @ tag) None [] w")
  note del = assms [unfolded delete_manifest_def d prod.case]
  obtain resp where a: "a = Inr resp" using del by (cases a) simp_all
  show ?thesis
  proof (cases "ha_status resp \<in> {200, 202, 404}")
    case True
    then have "final_answer resp" by (auto simp: final_answer_def)
    from transport_request_last [OF d [unfolded a] this] True del a show ?thesis
      by (auto simp: confirmed_def)
  next
    case False
    with del a have "push_manifest nt cd tag evicted_manifest w1 = (None, w')"
      by (simp add: fallback_untag_def split: if_splits)
    from push_manifest_done [OF this] show ?thesis by (auto simp: confirmed_def)
  qed
qed

end
