(* ===== verification/Oci_Archive.thy ===== *)
theory Oci_Archive
  imports Oci_Store
begin

text \<open>
  A concrete registry that the theorems about several operations are applied to. It has every blob,
  accepts every manifest, answers every HEAD with the same digest, and starts with an index of its own:
  one until the first HEAD on the manifest of the index, another afterwards, which is how the client
  sees another writer get in between.
\<close>

section \<open>The registry\<close>

definition index_url :: "string \<Rightarrow> string" where "index_url base = base @ ''/manifests/noci-index''"

definition head_seen :: "string \<Rightarrow> oci_request list \<Rightarrow> bool" where
  "head_seen base h \<longleftrightarrow> list_ex (\<lambda>r. oq_method r = ''HEAD'' \<and> oq_url r = index_url base) h"

definition put_seen :: "string \<Rightarrow> oci_request list \<Rightarrow> bool" where
  "put_seen url h \<longleftrightarrow> list_ex (\<lambda>r. oq_method r = ''PUT'' \<and> oq_url r = url) h"

definition archive :: "string \<Rightarrow> string \<Rightarrow> (bool \<Rightarrow> string) \<Rightarrow> network" where
  "archive base dg seed = steady (\<lambda>h rq.
     if oq_method rq = ''HEAD'' then reply 200 [(''Docker-Content-Digest'', dg)] []
     else if oq_method rq \<noteq> ''GET'' then reply 201 [] []
     else if has_prefix (oq_url rq) (base @ ''/blobs/sha256:'')
     then reply 200 [] (trim_prefix (oq_url rq) (base @ ''/blobs/sha256:''))
     else case find (\<lambda>r. oq_method r = ''PUT'' \<and> oq_url r = oq_url rq) (rev h) of
            Some r \<Rightarrow> reply 200 [] (case oq_body r of Some b \<Rightarrow> b | None \<Rightarrow> [])
          | None \<Rightarrow> reply 200 [] (if oq_url rq = index_url base then seed (head_seen base h) else ''t''))"

text \<open>The manifest of an index, as the registry starts with it.\<close>

definition seed_manifest :: "cache_index \<Rightarrow> string" where
  "seed_manifest idx = cd_put_manifest wire_codecs
     (index_manifest (''sha256:'' @ cd_zstd wire_codecs (cd_put_index wire_codecs idx)) 1 [])"

section \<open>Its laws\<close>

lemma archive_tags: "keeps_tags (archive base dg seed) base"
proof -
  have none: "find (\<lambda>r. oq_method r = ''PUT'' \<and> P r) (rev h') = None" if "reads h'" for h' P
    using that by (auto simp: reads_def list_all_iff find_None_iff)
  have split: "find Q (xs @ ys) = (case find Q xs of None \<Rightarrow> find Q ys | Some x \<Rightarrow> Some x)" for Q xs and ys :: "'b list"
    by (induction xs) auto
  show ?thesis
    unfolding keeps_tags_def by (auto simp: archive_def steady_def reply_def has_prefix_base split none)
qed

lemma archive_blob_answer:
  "oq_method rq = ''GET'' \<Longrightarrow> oq_url rq = base @ ''/blobs/sha256:'' @ hex
    \<Longrightarrow> nt_answer (archive base dg seed) h rq = reply 200 [] hex"
  using has_prefix_append [of "base @ ''/blobs/sha256:''" hex] trim_prefix_append [of "base @ ''/blobs/sha256:''" hex]
  by (simp add: archive_def steady_def)

lemma archive_blobs: "cd_sha256 cd = id \<Longrightarrow> keeps_blobs (archive base dg seed) cd registry base"
  unfolding keeps_blobs_def by (auto simp: archive_blob_answer) (simp add: reply_def)

lemma archive_answer: "\<exists>hs body. nt_answer (archive base dg seed) h rq
    = reply (if oq_method rq \<in> {''GET'', ''HEAD''} then 200 else 201) hs body
    \<and> (oq_method rq = ''HEAD'' \<longrightarrow> hs = [(''Docker-Content-Digest'', dg)])"
  by (auto simp: archive_def steady_def split: option.split)

lemma archive_sel [simp]:
  "nt_token (archive base dg seed) = Inr" "nt_cancelled (archive base dg seed) i = None"
  "nt_clock (archive base dg seed) i = 1"
  by (simp_all add: archive_def steady_def)

lemma archive_token: "\<exists>token w'. get_oci_token (archive base dg seed) actions w = (Inr token, w')"
proof -
  have f: "\<exists>token v'. fetch_token (archive base dg seed) actions v = (Inr token, v')" for v
  proof -
    obtain hs body where "nt_answer (archive base dg seed) (w_log v) (token_request (w_transport v) actions) = reply 200 hs body"
      using archive_answer [of base dg seed "w_log v" "token_request (w_transport v) actions"] by (auto simp: token_request_def)
    then show ?thesis by (simp add: fetch_token_def exchange_def reply_def read_clock_def)
  qed
  show ?thesis
    by (cases "read_clock (archive base dg seed) w") (use f in \<open>auto simp: get_oci_token_def Let_def split: prod.split\<close>)
qed

section \<open>Requests\<close>

text \<open>What a request answered at once adds to the log: requests for a token, and itself.\<close>

definition asked :: "string \<Rightarrow> string \<Rightarrow> world \<Rightarrow> world \<Rightarrow> bool" where
  "asked mthd path w w' \<longleftrightarrow> base_url w' = base_url w
     \<and> (\<exists>new rq. w_log w' = w_log w @ new @ [rq] \<and> list_all (\<lambda>r. oq_method r = ''GET'') new
          \<and> oq_method rq = mthd \<and> oq_url rq = base_url w @ path)"

lemma asked_base: "asked mthd path w w' \<Longrightarrow> base_url w' = base_url w"
  by (simp add: asked_def)

lemma asked_other:
  assumes "asked mthd path w w'"
  shows "mthd \<noteq> ''PUT'' \<Longrightarrow> put_seen url (w_log w') = put_seen url (w_log w)"
    and "mthd \<noteq> ''HEAD'' \<Longrightarrow> head_seen base (w_log w') = head_seen base (w_log w)"
    and "head_seen base (w_log w) \<Longrightarrow> head_seen base (w_log w')"
  using assms by (fastforce simp: asked_def put_seen_def head_seen_def list_ex_iff list_all_iff)+

lemma archive_request:
  "\<exists>resp w' h1. transport_request (archive base dg seed) mthd path body ctype w = (Inr resp, w')
    \<and> ha_status resp = (if mthd \<in> {''GET'', ''HEAD''} then 200 else 201) \<and> asked mthd path w w'
    \<and> (mthd = ''HEAD'' \<longrightarrow> ha_header resp ''Docker-Content-Digest'' = dg)
    \<and> (\<exists>rq. nt_answer (archive base dg seed) (w_log w @ h1) rq = Inr resp
          \<and> oq_method rq = mthd \<and> oq_url rq = base_url w @ path)
    \<and> list_all (\<lambda>r. oq_method r = ''GET'') h1"
proof -
  let ?nt = "archive base dg seed"
  obtain token w1 where t: "get_oci_token ?nt (actions_for mthd) w = (Inr token, w1)" using archive_token by blast
  have "sends {''GET''} w w1" by (rule sends_get_token [OF t]) simp
  then obtain h1 where h1: "w_log w1 = w_log w @ h1" "list_all (\<lambda>r. oq_method r = ''GET'') h1" and b: "base_url w1 = base_url w"
    by (auto simp: sends_def list_all_iff)
  let ?rq = "registry_request (w_transport w1) mthd path token body ctype True"
  obtain hs content where a: "nt_answer ?nt (w_log w1) ?rq = reply (if mthd \<in> {''GET'', ''HEAD''} then 200 else 201) hs content"
    "mthd = ''HEAD'' \<longrightarrow> hs = [(''Docker-Content-Digest'', dg)]"
    using archive_answer [of base dg seed "w_log w1" ?rq] by auto
  then obtain resp where r: "nt_answer ?nt (w_log w1) ?rq = Inr resp"
    "ha_status resp = (if mthd \<in> {''GET'', ''HEAD''} then 200 else 201)"
    "mthd = ''HEAD'' \<longrightarrow> ha_header resp ''Docker-Content-Digest'' = dg" by (auto simp: reply_def)
  have fin: "final_answer resp" using r(2) by (simp add: final_answer_def)
  let ?w = "w1\<lparr>w_log := w_log w1 @ [?rq]\<rparr>"
  have u: "oq_method ?rq = mthd" "oq_url ?rq = base_url w @ path" using b by simp_all
  have k: "asked mthd path w ?w" unfolding asked_def using h1 u b by auto
  have tr: "transport_request ?nt mthd path body ctype w = (Inr resp, ?w)"
    by (rule transport_request_ok [OF t _ r(1) fin]) simp
  show ?thesis
    by (rule exI [of _ resp], rule exI [of _ ?w], rule exI [of _ h1])
      (use tr r(1) [unfolded h1(1)] r(2,3) u h1(2) k in blast)
qed

lemma archive_exists: "\<exists>w'. manifest_exists (archive base dg seed) tag w = ((True, dg), w') \<and> asked ''HEAD'' (''/manifests/'' @ tag) w w'"
  using archive_request [of base dg seed "''HEAD''" "''/manifests/'' @ tag" None media_manifest w]
  by (auto simp: manifest_exists_def)

lemma archive_head:
  assumes "base_url w = base"
  shows "\<exists>w'. manifest_exists (archive base dg seed) ''noci-index'' w = ((True, dg), w') \<and> base_url w' = base
    \<and> head_seen base (w_log w') \<and> (\<forall>url. put_seen url (w_log w') = put_seen url (w_log w))"
proof -
  obtain w' where m: "manifest_exists (archive base dg seed) ''noci-index'' w = ((True, dg), w')"
    and a: "asked ''HEAD'' (''/manifests/'' @ ''noci-index'') w w'" using archive_exists by blast
  have "head_seen base (w_log w')" using a assms by (auto simp: asked_def head_seen_def index_url_def)
  moreover have "put_seen url (w_log w') = put_seen url (w_log w)" for url by (rule asked_other(1) [OF a]) simp
  moreover have "base_url w' = base" unfolding asked_base [OF a] by (rule assms)
  ultimately show ?thesis using m by blast
qed

lemma archive_blob:
  assumes "base_url w = base"
  shows "\<exists>w'. download_blob (archive base dg seed) (''sha256:'' @ hex) w = (Inr hex, w')
    \<and> asked ''GET'' (''/blobs/'' @ ''sha256:'' @ hex) w w'"
proof -
  obtain resp w' h1 rq where r: "transport_request (archive base dg seed) ''GET'' (''/blobs/'' @ ''sha256:'' @ hex) None [] w = (Inr resp, w')"
    "ha_status resp = 200" "asked ''GET'' (''/blobs/'' @ ''sha256:'' @ hex) w w'"
    "nt_answer (archive base dg seed) (w_log w @ h1) rq = Inr resp" "oq_method rq = ''GET''"
    "oq_url rq = base_url w @ ''/blobs/'' @ ''sha256:'' @ hex"
    using archive_request [of base dg seed "''GET''" "''/blobs/'' @ ''sha256:'' @ hex" None "[]" w] by auto
  have u: "oq_url rq = base @ ''/blobs/sha256:'' @ hex" using r(6) unfolding assms by simp
  have "ha_body resp = hex"
    using archive_blob_answer [OF r(5) u, of dg seed] r(4)
    by (auto simp: reply_def)
  with r(1-3) show ?thesis by (simp add: download_blob_def)
qed

lemma archive_push_manifest:
  "\<exists>w'. push_manifest (archive base dg seed) cd tag m w = (None, w') \<and> asked ''PUT'' (''/manifests/'' @ tag) w w'"
  using archive_request [of base dg seed "''PUT''" "''/manifests/'' @ tag" "Some (cd_put_manifest cd m)" media_manifest w]
  by (auto simp: push_manifest_def)

lemma archive_upload:
  "\<exists>w'. upload_blob (archive base dg seed) resolve (Inr content) hex w = (Done (''sha256:'' @ hex, int (length content)), w')
    \<and> asked ''HEAD'' (''/blobs/'' @ ''sha256:'' @ hex) w w'"
  using archive_request [of base dg seed "''HEAD''" "''/blobs/'' @ ''sha256:'' @ hex" None "[]" w]
  by (auto simp: upload_blob_def Let_def)

section \<open>Indexes\<close>

lemma archive_push: "\<exists>w'. push_index (archive base dg seed) cd idx w = (Done (idx\<lparr>ix_generated := 1\<rparr>), w') \<and> base_url w' = base_url w"
proof -
  let ?nt = "archive base dg seed"
  obtain w1 where t: "read_clock ?nt w = (1, w1)" "base_url w1 = base_url w" by (simp add: read_clock_def)
  let ?c = "cd_zstd cd (cd_put_index cd (idx\<lparr>ix_generated := 1\<rparr>))"
  let ?hex = "cd_sha256 cd ?c"
  obtain w2 where u: "upload_blob ?nt (cd_resolve cd) (Inr ?c) ?hex w1 = (Done (''sha256:'' @ ?hex, int (length ?c)), w2)"
    "base_url w2 = base_url w1"
    using archive_upload [of base dg seed "cd_resolve cd" ?c ?hex w1] asked_base by blast
  obtain w3 where t2: "read_clock ?nt w2 = (1, w3)" "base_url w3 = base_url w2" by (simp add: read_clock_def)
  let ?m = "index_manifest (''sha256:'' @ ?hex) (int (length ?c)) (cd_rfc3339 cd 1)"
  obtain w4 where p: "push_manifest ?nt cd ''noci-index'' ?m w3 = (None, w4)" "base_url w4 = base_url w3"
    using archive_push_manifest [of base dg seed cd "''noci-index''" ?m w3] asked_base by blast
  have "push_index ?nt cd idx w = (Done (idx\<lparr>ix_generated := 1\<rparr>), w4)"
    unfolding push_index_def t prod.case Let_def u go_outcome.case t2 p by simp
  moreover have "base_url w4 = base_url w" unfolding p(2) t2(2) u(2) t(2) ..
  ultimately show ?thesis by blast
qed

lemma archive_manifest:
  assumes "base_url w = base" and "\<not> put_seen (base @ ''/manifests/'' @ tag) (w_log w)"
  shows "\<exists>w'. fetch_manifest (archive base dg seed) cd tag w
      = (cd_get_manifest cd (if tag = ''noci-index'' then seed (head_seen base (w_log w)) else ''t''), w')
    \<and> asked ''GET'' (''/manifests/'' @ tag) w w'"
proof -
  obtain resp w' h1 rq where r: "transport_request (archive base dg seed) ''GET'' (''/manifests/'' @ tag) None media_manifest w = (Inr resp, w')"
    "ha_status resp = 200" "asked ''GET'' (''/manifests/'' @ tag) w w'"
    "nt_answer (archive base dg seed) (w_log w @ h1) rq = Inr resp" "oq_method rq = ''GET''"
    "oq_url rq = base_url w @ ''/manifests/'' @ tag" "list_all (\<lambda>r. oq_method r = ''GET'') h1"
    using archive_request [of base dg seed "''GET''" "''/manifests/'' @ tag" None media_manifest w] by auto
  have u: "oq_url rq = base @ ''/manifests/'' @ tag" unfolding r(6) assms(1) ..
  have "find (\<lambda>r. oq_method r = ''PUT'' \<and> oq_url r = oq_url rq) (rev (w_log w @ h1)) = None"
    using assms(2) r(7) unfolding u by (auto simp: find_None_iff put_seen_def list_ex_iff list_all_iff)
  moreover have "head_seen base (w_log w @ h1) = head_seen base (w_log w)"
    using r(7) by (auto simp: head_seen_def list_ex_iff list_all_iff)
  moreover have "\<not> has_prefix (oq_url rq) (base @ ''/blobs/sha256:'')" "oq_url rq = index_url base \<longleftrightarrow> tag = ''noci-index''"
    unfolding u index_url_def by (simp_all add: has_prefix_base)
  ultimately have "ha_body resp = (if tag = ''noci-index'' then seed (head_seen base (w_log w)) else ''t'')"
    using r(4,5) by (auto simp: archive_def steady_def reply_def)
  with r(1-3) show ?thesis by (simp add: fetch_manifest_def)
qed

lemma archive_fetch:
  assumes "base_url w = base" and "\<not> put_seen (index_url base) (w_log w)" and "seed (head_seen base (w_log w)) = seed_manifest idx"
  shows "\<exists>w'. fetch_index (archive base dg seed) wire_codecs w = (Inr (upgrade (\<lambda>_. 1) idx), w') \<and> base_url w' = base
    \<and> (\<forall>url. put_seen url (w_log w') = put_seen url (w_log w)) \<and> head_seen base (w_log w') = head_seen base (w_log w)"
proof -
  let ?nt = "archive base dg seed" and ?c = "cd_zstd wire_codecs (cd_put_index wire_codecs idx)"
  obtain w1 where m: "fetch_manifest ?nt wire_codecs ''noci-index'' w = (Inr (index_manifest (''sha256:'' @ ?c) 1 []), w1)"
    and a1: "asked ''GET'' (''/manifests/'' @ ''noci-index'') w w1"
    using archive_manifest [OF assms(1), of "''noci-index''" dg seed wire_codecs] assms(2)
    unfolding assms(3) seed_manifest_def index_url_def if_True simp_thms append.simps wire_codecs_manifest by blast
  have b1: "base_url w1 = base" unfolding asked_base [OF a1] by (rule assms(1))
  obtain w2 where d: "download_blob ?nt (''sha256:'' @ ?c) w1 = (Inr ?c, w2)"
    and a2: "asked ''GET'' (''/blobs/'' @ ''sha256:'' @ ?c) w1 w2"
    using archive_blob [OF b1] by blast
  have dc: "decode_index ?nt wire_codecs ?c w2
    = (Inr (upgrade (\<lambda>_. 1) idx), w2\<lparr>w_ticks := w_ticks w2 + length (ix_gc_roots_v1 (json_image idx))\<rparr>)"
    by (simp add: decode_index_def decompress_def wire_codecs_zstd wire_codecs_index upgrade_now_def upgrade_json_image)
  have "fetch_index ?nt wire_codecs w
    = (Inr (upgrade (\<lambda>_. 1) idx), w2\<lparr>w_ticks := w_ticks w2 + length (ix_gc_roots_v1 (json_image idx))\<rparr>)"
    unfolding fetch_index_def m prod.case sum.case using d dc by (simp add: index_manifest_def)
  moreover have "base_url w2 = base" unfolding asked_base [OF a2] by (rule b1)
  moreover have "put_seen url (w_log w2) = put_seen url (w_log w)" "head_seen base (w_log w2) = head_seen base (w_log w)" for url
    using asked_other(1) [OF a1] asked_other(1) [OF a2] asked_other(2) [OF a1] asked_other(2) [OF a2] by simp_all
  ultimately show ?thesis by simp
qed

end
