(* ===== verification/Publisher_Props.thy ===== *)
theory Publisher_Props
  imports Publisher Oci_Archive
begin

text \<open>
  What a publish guarantees: an export runs once for all registries, no path of the closure is
  forgotten, the merge keeps what others published unless it trusts a digest it took too late, and
  a manifest that was pushed is enough to rebuild its index entry.
\<close>

section \<open>One export per path\<close>

definition claims :: "string \<Rightarrow> export_event list \<Rightarrow> nat" where
  "claims p evs = length (filter (\<lambda>ev. ev = Claim p) evs)"

text \<open>What the events so far say of one path, by the state of its entry.\<close>

definition trace_ok :: "(string, progress) fmap \<Rightarrow> export_event list \<Rightarrow> string \<Rightarrow> bool" where
  "trace_ok c evs p \<longleftrightarrow>
     (case fmlookup c p of
        None \<Rightarrow> claims p evs = 0 \<and> (\<forall>r. Finish p r \<notin> set evs \<and> Join p r \<notin> set evs)
      | Some Running \<Rightarrow> claims p evs = 1 \<and> (\<forall>r. Finish p r \<notin> set evs \<and> Join p r \<notin> set evs)
      | Some (Finished r0) \<Rightarrow>
          claims p evs = 1 \<and> (\<forall>r. (Finish p r \<in> set evs \<longleftrightarrow> r = r0) \<and> (Join p r \<in> set evs \<longrightarrow> r = r0)))"

lemma trace_ok_step:
  assumes "export_step c ev c'" and "trace_ok c evs q"
  shows "trace_ok c' (evs @ [ev]) q"
  using assms(1)
proof cases
  case (step_claim p)
  then show ?thesis using assms(2)
    by (cases "q = p") (auto simp: trace_ok_def claims_def split: option.splits progress.splits)
next
  case (step_finish p r)
  then show ?thesis using assms(2)
    by (cases "q = p") (auto simp: trace_ok_def claims_def split: option.splits progress.splits)
next
  case (step_join p r)
  then show ?thesis using assms(2)
    by (cases "q = p") (auto simp: trace_ok_def claims_def split: option.splits progress.splits)
next
  case (step_abandon p x)
  then show ?thesis using assms(2)
    by (simp add: trace_ok_def claims_def split: option.splits progress.splits)
qed

lemma export_run_trace: "export_run c0 evs c \<Longrightarrow> c0 = fmempty \<Longrightarrow> trace_ok c evs p"
proof (induction rule: export_run.induct)
  case (run_none c)
  then show ?case by (simp add: trace_ok_def claims_def)
qed (auto intro: trace_ok_step)

text \<open>C26: However the registries' goroutines interleave, a path is exported at most once, and every
  goroutine that waits for it gets the result of that one export.\<close>

theorem export_at_most_once:
  assumes "export_run fmempty evs c"
  shows "claims p evs \<le> 1 \<and> (\<forall>r. Join p r \<in> set evs \<longrightarrow> (\<forall>r'. Finish p r' \<in> set evs \<longleftrightarrow> r' = r))"
  using export_run_trace [OF assms refl, of p]
  by (auto simp: trace_ok_def split: option.splits progress.splits)

theorem export_at_most_once_witness:
  "claims ''p'' [Claim ''p'', Finish ''p'' (Inl ''e''), Join ''p'' (Inl ''e'')] \<le> 1"
proof -
  let ?e = "Inl ''e''"
  have "export_run fmempty ([] @ [Claim ''p'']) (fmupd ''p'' Running fmempty)"
    by (rule run_snoc [OF run_none step_claim]) simp
  then have "export_run fmempty (([] @ [Claim ''p'']) @ [Finish ''p'' ?e]) (fmupd ''p'' (Finished ?e) (fmupd ''p'' Running fmempty))"
    by (rule run_snoc [OF _ step_finish]) simp
  then have "export_run fmempty ((([] @ [Claim ''p'']) @ [Finish ''p'' ?e]) @ [Join ''p'' ?e])
      (fmupd ''p'' (Finished ?e) (fmupd ''p'' Running fmempty))"
    by (rule run_snoc [OF _ step_join]) simp
  from conjunct1 [OF export_at_most_once [OF this, of "''p''"]] show ?thesis by simp
qed

section \<open>No path is forgotten\<close>

abbreviation indexed :: "cache_index \<Rightarrow> path_info \<Rightarrow> bool" where
  "indexed idx info \<equiv> gm_get (ix_entries idx) (get_path_hash (pi_path info)) \<noteq> None"

lemma repair_entry_get:
  assumes "repair_index_entry nt cd h idx w = (Inr (Some idx'), w')"
  shows "\<exists>nix_hash item. parse_nix_hash h = Inr nix_hash
    \<and> (\<forall>k. gm_get (ix_entries idx') k = (if k = nix_hash then Some item else gm_get (ix_entries idx) k))
    \<and> ix_roots idx' = ix_roots idx"
proof -
  obtain nix_hash nm ni dg sz rf now where n: "parse_nix_hash h = Inr nix_hash"
    "add_entry nix_hash nm ni dg sz rf now idx = Some idx'"
    using assms by (auto simp: repair_index_entry_def Let_def split: prod.splits sum.splits if_splits list.splits)
  show ?thesis
    using n add_entry_get [OF n(2)] add_entry_frame(1) [OF n(2)]
    by (intro exI [of _ nix_hash] exI [of _ "new_item nm ni dg sz rf now"]) simp
qed

lemma check_paths_fst: "map fst (fst (check_paths nt infos w)) = infos"
  by (induction infos arbitrary: w) (simp_all add: split_beta Let_def)

text \<open>A repair keeps every entry, and what it does not repair is uploaded.\<close>

lemma repair_paths_covers:
  assumes "repair_paths nt cd checks idx w = (Some (ups, n, idx'), w')"
    and "\<And>info. info \<in> set (map fst checks) \<Longrightarrow> nix_hash_regex (get_path_hash (pi_path info))"
  shows "(\<forall>k. gm_get (ix_entries idx) k \<noteq> None \<longrightarrow> gm_get (ix_entries idx') k \<noteq> None)
    \<and> (\<forall>info\<in>set (map fst checks). info \<in> set ups \<or> indexed idx' info) \<and> set ups \<subseteq> set (map fst checks)"
  using assms
proof (induction nt cd checks idx w arbitrary: ups n w' rule: repair_paths.induct)
  case (2 nt cd info exists rest index w)
  have h: "nix_hash_regex (get_path_hash (pi_path info))" using "2.prems"(2) by simp
  have vr: "\<And>i. i \<in> set (map fst rest) \<Longrightarrow> nix_hash_regex (get_path_hash (pi_path i))"
    using "2.prems"(2) by simp
  obtain r w1 where r: "repair_index_entry nt cd (get_path_hash (pi_path info)) index w = (r, w1)"
    by (cases "repair_index_entry nt cd (get_path_hash (pi_path info)) index w")
  consider (up) "\<not> exists" | (fail) err where "exists" "r = Inl err" | (panic) "exists" "r = Inr None"
    | (ok) index' where "exists" "r = Inr (Some index')"
    by (cases "exists"; cases r) auto
  then show ?case
  proof cases
    case up
    with "2.prems"(1) obtain ups' where u: "repair_paths nt cd rest index w = (Some (ups', n, idx'), w')" "ups = info # ups'"
      by (auto split: prod.splits option.splits)
    from "2.IH"(3) [OF up u(1) vr] u(2) show ?thesis by auto
  next
    case fail
    with "2.prems"(1) r obtain ups' where u: "repair_paths nt cd rest index w1 = (Some (ups', n, idx'), w')" "ups = info # ups'"
      by (auto split: prod.splits option.splits)
    from "2.IH"(1) [OF fail(1) r [symmetric] fail(2) u(1) vr] u(2) show ?thesis by auto
  next
    case panic
    with "2.prems"(1) r show ?thesis by simp
  next
    case ok
    with "2.prems"(1) r obtain n' where u: "repair_paths nt cd rest index' w1 = (Some (ups, n', idx'), w')"
      by (auto split: prod.splits option.splits)
    obtain nix_hash item where g: "parse_nix_hash (get_path_hash (pi_path info)) = Inr nix_hash"
      "\<forall>k. gm_get (ix_entries index') k = (if k = nix_hash then Some item else gm_get (ix_entries index) k)"
      using repair_entry_get [of nt cd _ index w index' w1] r ok(2) by blast
    have nh: "nix_hash = get_path_hash (pi_path info)" using g(1) parse_nix_hash_id [OF h] by simp
    have i': "indexed index' info" using g(2) nh by simp
    have keep: "\<forall>k. gm_get (ix_entries index) k \<noteq> None \<longrightarrow> gm_get (ix_entries index') k \<noteq> None"
      using g(2) by simp
    from "2.IH"(2) [OF ok(1) r [symmetric] ok(2) refl u vr] i' keep show ?thesis by auto
  qed
qed simp

lemma missing_or_indexed: "info \<in> set infos \<Longrightarrow> info \<in> set (missing_paths idx infos) \<or> indexed idx info"
  by (auto simp: missing_paths_def)

lemma stage_diff_covers:
  assumes d: "stage_diff nt cd nx finish p inputs w = (Done dr, w')"
    and c: "nx_closure nx inputs = Inr closure" and i: "nx_infos nx closure = Inr infos"
    and perm: "\<And>xs. set (finish xs) = set xs"
    and info: "info \<in> set (candidates p closure infos)"
    and valid: "\<And>i. i \<in> set (candidates p closure infos) \<Longrightarrow> nix_hash_regex (get_path_hash (pi_path i))"
  shows "info \<in> set (df_uploads dr) \<or> indexed (df_index dr) info"
proof -
  obtain idx w1 where f: "fetch_index nt cd w = (Inr idx, w1)"
    using d by (auto simp: stage_diff_def split: prod.splits sum.splits)
  obtain ex digest w2 where m: "manifest_exists nt ''noci-index'' w1 = ((ex, digest), w2)"
    by (metis prod.exhaust)
  let ?missing = "missing_paths idx (candidates p closure infos)"
  note diff = d [unfolded stage_diff_def f m c i prod.case sum.case Let_def]
  show ?thesis
  proof (cases "?missing = []")
    case True
    with diff have "dr = \<lparr>df_uploads = [], df_index = idx, df_digest = digest\<rparr>" by simp
    with missing_or_indexed [OF info, of idx] True show ?thesis by simp
  next
    case False
    obtain checks w3 where ch: "check_paths nt (finish ?missing) w2 = (checks, w3)"
      by (cases "check_paths nt (finish ?missing) w2")
    have fst: "map fst checks = finish ?missing" using check_paths_fst [of nt "finish ?missing" w2] ch by simp
    obtain ups n idx' w4 where r: "repair_paths nt cd checks idx w3 = (Some (ups, n, idx'), w4)"
      using diff unfolding if_not_P [OF False] ch prod.case by (auto split: prod.splits option.splits)
    have "\<And>i. i \<in> set (map fst checks) \<Longrightarrow> nix_hash_regex (get_path_hash (pi_path i))"
      unfolding fst perm using valid by (simp add: missing_paths_def)
    from repair_paths_covers [OF r this] have cov:
      "\<forall>k. gm_get (ix_entries idx) k \<noteq> None \<longrightarrow> gm_get (ix_entries idx') k \<noteq> None"
      "\<forall>info\<in>set ?missing. info \<in> set ups \<or> indexed idx' info"
      unfolding fst perm by blast+
    have "set (df_uploads dr) = set ups \<and> ix_entries (df_index dr) = ix_entries idx'"
      using diff unfolding if_not_P [OF False] ch prod.case r option.case
      by (cases "0 < n") (auto simp: largest_first_def dest: push_index_entries split: prod.splits go_outcome.splits)
    with cov missing_or_indexed [OF info, of idx] show ?thesis by auto
  qed
qed

lemma publish_single_hash:
  "publish_single nt cd nx sign p info cw = (Done res, cw') \<Longrightarrow>
    ur_hash res = or_empty (parse_nix_hash (get_path_hash (pi_path info)))
    \<and> ur_name res = get_path_name (pi_path info) \<and> ur_refs res = pi_refs info"
  by (auto simp: publish_single_def Let_def split: prod.splits sum.splits go_outcome.splits option.splits)

lemma upload_paths_hashes:
  "upload_paths nt cd nx sign p infos cw = (Done results, cw') \<Longrightarrow>
    map ur_hash results = map (\<lambda>info. or_empty (parse_nix_hash (get_path_hash (pi_path info)))) infos"
proof (induction infos arbitrary: cw results)
  case (Cons info infos)
  obtain res c w1 where s: "publish_single nt cd nx sign p info cw = (Done res, c, w1)"
    using Cons.prems by (auto split: prod.splits go_outcome.splits)
  obtain w2 rest where u: "upload_paths nt cd nx sign p infos (c, w2) = (Done rest, cw')" and r: "results = res # rest"
    using Cons.prems s by (auto split: prod.splits go_outcome.splits option.splits)
  from Cons.IH [OF u] publish_single_hash [OF s] r show ?case by simp
qed simp

lemma add_results_get:
  assumes "add_results nt results idx w = (Some idx', w')"
  shows "(\<forall>k. k \<notin> ur_hash ` set results \<longrightarrow> gm_get (ix_entries idx') k = gm_get (ix_entries idx) k)
    \<and> (\<forall>k. k \<in> ur_hash ` set results \<longrightarrow> (\<exists>r now. r \<in> set results \<and> ur_hash r = k
        \<and> gm_get (ix_entries idx') k = Some (new_item (ur_name r) (ur_narinfo r) (ur_digest r) (ur_size r) (ur_refs r) now)))
    \<and> ix_roots idx' = ix_roots idx"
  using assms
proof (induction results arbitrary: idx w)
  case (Cons res results)
  obtain now w1 where t: "read_clock nt w = (now, w1)" by (cases "read_clock nt w")
  obtain idx1 where a: "add_entry (ur_hash res) (ur_name res) (ur_narinfo res) (ur_digest res) (ur_size res) (ur_refs res) now idx = Some idx1"
    and rest: "add_results nt results idx1 w1 = (Some idx', w')"
    using Cons.prems t by (auto split: option.splits)
  note ih = Cons.IH [OF rest]
  note get1 = add_entry_get [OF a]
  have "ix_roots idx' = ix_roots idx" using ih add_entry_frame(1) [OF a] by simp
  moreover have "\<forall>k. k \<notin> ur_hash ` set (res # results) \<longrightarrow> gm_get (ix_entries idx') k = gm_get (ix_entries idx) k"
    using ih get1 by simp
  moreover have "\<exists>r now. r \<in> set (res # results) \<and> ur_hash r = k
      \<and> gm_get (ix_entries idx') k = Some (new_item (ur_name r) (ur_narinfo r) (ur_digest r) (ur_size r) (ur_refs r) now)"
    if k: "k \<in> ur_hash ` set (res # results)" for k
  proof (cases "k \<in> ur_hash ` set results")
    case True
    with ih show ?thesis by (metis list.set_intros(2))
  next
    case False
    with k have "k = ur_hash res" by simp
    with False ih get1 show ?thesis by (metis list.set_intros(1))
  qed
  ultimately show ?case by blast
qed simp

lemma stage_merge_target:
  assumes "stage_merge nt cd initial digest results w = (Done (Some idx'), w')"
  shows "\<exists>target_index w1 merged w2 w3. merge_target nt cd initial digest w = (Inr target_index, w1)
    \<and> add_results nt results target_index w1 = (Some merged, w2) \<and> push_index nt cd merged w2 = (Done idx', w3)
    \<and> w3 = w' \<and> ix_entries idx' = ix_entries merged \<and> ix_roots idx' = ix_roots merged"
  using assms
  by (auto simp: stage_merge_def split: if_splits prod.splits sum.splits option.splits go_outcome.splits
      dest: push_index_entries)

lemma add_results_world: "add_results nt results idx w = (r, w') \<Longrightarrow> w_log w' = w_log w \<and> w_transport w' = w_transport w"
  by (induction results arbitrary: idx w)
    (auto simp: read_clock_def split: prod.splits option.splits)

lemma merge_target_world:
  assumes "merge_target nt cd initial digest w = (r, w')"
  shows "registry_of w' = registry_of w \<and> tr_repo (w_transport w') = tr_repo (w_transport w)"
proof -
  obtain ex current w1 where m: "manifest_exists nt ''noci-index'' w = ((ex, current), w1)" by (metis prod.exhaust)
  then have "sends {''GET'', ''HEAD''} w w1" by (rule sends_manifest_exists) simp
  then have "registry_of w1 = registry_of w \<and> tr_repo (w_transport w1) = tr_repo (w_transport w)" by (simp add: sends_def)
  moreover have "registry_of w' = registry_of w1 \<and> tr_repo (w_transport w') = tr_repo (w_transport w1)"
  proof (cases "current \<noteq> [] \<and> current = digest")
    case False
    obtain r1 w2 where f: "fetch_index nt cd w1 = (r1, w2)" by fastforce
    have "sends {''GET''} w1 w2" by (rule sends_fetch_index [OF f]) simp
    with assms False show ?thesis unfolding merge_target_def m by (auto simp: f sends_def split: sum.splits)
  qed (use assms m in \<open>auto simp: merge_target_def split: if_splits\<close>)
  ultimately show ?thesis by simp
qed

text \<open>C13: The index a merge pushes is the one it merges into, with the uploaded paths added: the entries
  of others and all pins stay, and every upload has an entry with its narinfo, digest, size and
  references.\<close>

theorem merge_adds_results:
  assumes "stage_merge nt cd initial digest results w = (Done (Some idx'), w')" and "distinct (map ur_hash results)"
  shows "\<exists>target_index. fst (merge_target nt cd initial digest w) = Inr target_index
    \<and> ix_roots idx' = ix_roots target_index
    \<and> (\<forall>k. k \<notin> ur_hash ` set results \<longrightarrow> gm_get (ix_entries idx') k = gm_get (ix_entries target_index) k)
    \<and> (\<forall>r\<in>set results. \<exists>now. gm_get (ix_entries idx') (ur_hash r)
        = Some (new_item (ur_name r) (ur_narinfo r) (ur_digest r) (ur_size r) (ur_refs r) now))"
proof -
  obtain target_index w1 merged w2 where m: "merge_target nt cd initial digest w = (Inr target_index, w1)"
    "add_results nt results target_index w1 = (Some merged, w2)"
    "ix_entries idx' = ix_entries merged" "ix_roots idx' = ix_roots merged"
    using stage_merge_target [OF assms(1)] by blast
  have "r = r'" if "r \<in> set results" "r' \<in> set results" "ur_hash r = ur_hash r'" for r r'
    using that assms(2) by (auto simp: distinct_map inj_on_def)
  with add_results_get [OF m(2)] m(1,3,4) show ?thesis
    by (intro exI [of _ target_index]) (simp, metis imageI)
qed

text \<open>C6: A publish that succeeds forgets no path. When every path it has to consider (the closure without
  the upstream paths it skips) has a Nix hash in its name, each of them was in the index when this
  publish took the difference, its repairs included, or is in the index it pushed at the end.\<close>

theorem publish_covers_closure:
  assumes run: "publish_to_registry nt cd nx sign finish finish2 p inputs cw = (Done pushed, cw')"
    and c: "nx_closure nx inputs = Inr closure" and i: "nx_infos nx closure = Inr infos"
    and perm: "\<And>xs. set (finish xs) = set xs" "\<And>xs. set (finish2 xs) = set xs"
    and info: "info \<in> set (candidates p closure infos)"
    and valid: "\<And>i. i \<in> set (candidates p closure infos) \<Longrightarrow> nix_hash_regex (get_path_hash (pi_path i))"
  shows "\<exists>dr w2. stage_diff nt cd nx finish p inputs (snd (ensure_public_key nt cd p (snd cw))) = (Done dr, w2)
    \<and> (indexed (df_index dr) info \<or> (\<exists>idx. pushed = Some idx \<and> indexed idx info))"
proof -
  obtain dr w2 where d: "stage_diff nt cd nx finish p inputs (snd (ensure_public_key nt cd p (snd cw))) = (Done dr, w2)"
    and rest: "(if df_uploads dr = [] then (Done None, fst cw, w2)
      else case upload_paths nt cd nx sign p (finish2 (df_uploads dr)) (fst cw, w2) of
             (Failed err, cw3) \<Rightarrow> (Failed (''pipeline stage upload failed: '' @ err), cw3)
           | (Panicked, cw3) \<Rightarrow> (Panicked, cw3)
           | (Done results, c, w3) \<Rightarrow>
               (case stage_merge nt cd (df_index dr) (df_digest dr) results w3 of
                  (Failed err, w4) \<Rightarrow> (Failed (''pipeline stage merge-index failed: '' @ err), c, w4)
                | (Panicked, w4) \<Rightarrow> (Panicked, c, w4)
                | (Done pushed, w4) \<Rightarrow> (Done pushed, c, w4))) = (Done pushed, cw')"
    using run unfolding publish_to_registry_def
    by (cases "ensure_public_key nt cd p (snd cw)"; cases "fst (ensure_public_key nt cd p (snd cw))";
        cases "stage_diff nt cd nx finish p inputs (snd (ensure_public_key nt cd p (snd cw)))";
        cases "fst (stage_diff nt cd nx finish p inputs (snd (ensure_public_key nt cd p (snd cw))))") auto
  have "indexed (df_index dr) info \<or> (\<exists>idx. pushed = Some idx \<and> indexed idx info)"
  proof (cases "indexed (df_index dr) info")
    case False
    with stage_diff_covers [OF d c i perm(1) info valid] have up: "info \<in> set (df_uploads dr)" by blast
    then have ne: "df_uploads dr \<noteq> []" by auto
    obtain results cc w3 w4 where u: "upload_paths nt cd nx sign p (finish2 (df_uploads dr)) (fst cw, w2) = (Done results, cc, w3)"
      and m: "stage_merge nt cd (df_index dr) (df_digest dr) results w3 = (Done pushed, w4)"
      using rest ne by (auto split: prod.splits go_outcome.splits)
    have hs: "map ur_hash results = map (\<lambda>info. or_empty (parse_nix_hash (get_path_hash (pi_path info)))) (finish2 (df_uploads dr))"
      by (rule upload_paths_hashes [OF u])
    have "or_empty (parse_nix_hash (get_path_hash (pi_path info))) = get_path_hash (pi_path info)"
      using parse_nix_hash_id [OF valid [OF info]] by (simp add: or_empty_def)
    moreover have "or_empty (parse_nix_hash (get_path_hash (pi_path info))) \<in> set (map ur_hash results)"
      unfolding hs using up perm(2) by (simp only: set_map) blast
    ultimately have k: "get_path_hash (pi_path info) \<in> ur_hash ` set results" by simp
    then have "results \<noteq> []" by auto
    then obtain idx where p: "pushed = Some idx"
      using m by (auto simp: stage_merge_def split: prod.splits sum.splits option.splits go_outcome.splits)
    obtain target_index w5 merged w6 where t: "add_results nt results target_index w5 = (Some merged, w6)"
      "ix_entries idx = ix_entries merged"
      using stage_merge_target m p by blast
    from add_results_get [OF t(1)] k t(2) p show ?thesis by fastforce
  qed simp
  with d show ?thesis by blast
qed

section \<open>The digest that is taken too late\<close>

abbreviation result_key :: "path_info \<Rightarrow> string" where
  "result_key info \<equiv> or_empty (parse_nix_hash (get_path_hash (pi_path info)))"

text \<open>Repairs and the difference leave the entries of other keys alone.\<close>

lemma repair_paths_frame:
  "repair_paths nt cd checks idx w = (Some (ups, n, idx'), w') \<Longrightarrow> k \<notin> result_key ` set (map fst checks)
    \<Longrightarrow> gm_get (ix_entries idx') k = gm_get (ix_entries idx) k \<and> set ups \<subseteq> set (map fst checks)"
proof (induction nt cd checks idx w arbitrary: ups n w' rule: repair_paths.induct)
  case (2 nt cd info exists rest index w)
  obtain r w1 where r: "repair_index_entry nt cd (get_path_hash (pi_path info)) index w = (r, w1)"
    by (cases "repair_index_entry nt cd (get_path_hash (pi_path info)) index w")
  have kr: "k \<notin> result_key ` set (map fst rest)" using "2.prems"(2) by simp
  consider (up) "\<not> exists" | (fail) err where "exists" "r = Inl err" | (panic) "exists" "r = Inr None"
    | (ok) index' where "exists" "r = Inr (Some index')"
    by (cases "exists"; cases r) auto
  then show ?case
  proof cases
    case up
    with "2.prems"(1) obtain ups' where u: "repair_paths nt cd rest index w = (Some (ups', n, idx'), w')" "ups = info # ups'"
      by (auto split: prod.splits option.splits)
    from "2.IH"(3) [OF up u(1) kr] u(2) show ?thesis by auto
  next
    case fail
    with "2.prems"(1) r obtain ups' where u: "repair_paths nt cd rest index w1 = (Some (ups', n, idx'), w')" "ups = info # ups'"
      by (auto split: prod.splits option.splits)
    from "2.IH"(1) [OF fail(1) r [symmetric] fail(2) u(1) kr] u(2) show ?thesis by auto
  next
    case panic
    with "2.prems"(1) r show ?thesis by simp
  next
    case ok
    with "2.prems"(1) r obtain n' where u: "repair_paths nt cd rest index' w1 = (Some (ups, n', idx'), w')"
      by (auto split: prod.splits option.splits)
    obtain nix_hash item where g: "parse_nix_hash (get_path_hash (pi_path info)) = Inr nix_hash"
      "\<forall>k. gm_get (ix_entries index') k = (if k = nix_hash then Some item else gm_get (ix_entries index) k)"
      using repair_entry_get [of nt cd _ index w index' w1] r ok(2) by blast
    have "k \<noteq> nix_hash" using "2.prems"(2) g(1) by (auto simp: or_empty_def)
    with "2.IH"(2) [OF ok(1) r [symmetric] ok(2) refl u kr] g(2) show ?thesis by auto
  qed
qed simp

lemma stage_diff_frame:
  assumes d: "stage_diff nt cd nx finish p inputs w = (Done dr, w')"
    and f: "fetch_index nt cd w = (Inr old, w1)" and m: "manifest_exists nt ''noci-index'' w1 = ((ex, digest), w2)"
    and c: "nx_closure nx inputs = Inr closure" and i: "nx_infos nx closure = Inr infos"
    and perm: "\<And>xs. set (finish xs) = set xs"
    and k: "k \<notin> result_key ` set (candidates p closure infos)"
  shows "df_digest dr = digest \<and> gm_get (ix_entries (df_index dr)) k = gm_get (ix_entries old) k
    \<and> set (df_uploads dr) \<subseteq> set (candidates p closure infos)"
proof -
  let ?missing = "missing_paths old (candidates p closure infos)"
  note diff = d [unfolded stage_diff_def f m c i prod.case sum.case Let_def]
  show ?thesis
  proof (cases "?missing = []")
    case True
    with diff show ?thesis by auto
  next
    case False
    obtain checks w3 where ch: "check_paths nt (finish ?missing) w2 = (checks, w3)"
      by (cases "check_paths nt (finish ?missing) w2")
    have fst: "set (map fst checks) = set ?missing" using check_paths_fst [of nt "finish ?missing" w2] ch perm by simp
    have sub: "set ?missing \<subseteq> set (candidates p closure infos)" by (auto simp: missing_paths_def)
    obtain ups n idx' w4 where r: "repair_paths nt cd checks old w3 = (Some (ups, n, idx'), w4)"
      using diff unfolding if_not_P [OF False] ch prod.case by (auto split: prod.splits option.splits)
    have fr: "gm_get (ix_entries idx') k = gm_get (ix_entries old) k \<and> set ups \<subseteq> set ?missing"
      using repair_paths_frame [OF r, of k] k sub unfolding fst by blast
    have "set (df_uploads dr) = set ups \<and> ix_entries (df_index dr) = ix_entries idx' \<and> df_digest dr = digest"
      using diff unfolding if_not_P [OF False] ch prod.case r option.case
      by (cases "0 < n") (auto simp: largest_first_def dest: push_index_entries split: prod.splits go_outcome.splits)
    with fr sub show ?thesis by auto
  qed
qed

text \<open>C29: The difference asks for the digest of the index after it has fetched the index, and the merge
  trusts this digest. Whenever it is still the registry's digest when the uploads are done, the index
  that is pushed has under every key that is not one of this publish's paths what the index fetched at
  the start had: an entry that another publish stored after the fetch and before the digest was asked
  for is overwritten without a trace, although the merge checked that nothing had changed.\<close>

theorem late_digest_loses_update:
  assumes fetch: "fetch_index nt cd w = (Inr old, w1)"
    and late: "manifest_exists nt ''noci-index'' w1 = ((ex, digest), w2)" "digest \<noteq> []"
    and diff: "stage_diff nt cd nx finish p inputs w = (Done dr, w3)"
    and nx: "nx_closure nx inputs = Inr closure" "nx_infos nx closure = Inr infos"
    and perm: "\<And>xs. set (finish xs) = set xs" "\<And>xs. set (finish2 xs) = set xs"
    and up: "upload_paths nt cd nx sign p (finish2 (df_uploads dr)) (c, w3) = (Done results, c', w4)"
    and same: "snd (fst (manifest_exists nt ''noci-index'' w4)) = digest"
    and merge: "stage_merge nt cd (df_index dr) (df_digest dr) results w4 = (Done (Some pushed), w5)"
    and foreign: "k \<notin> result_key ` set (candidates p closure infos)"
  shows "gm_get (ix_entries pushed) k = gm_get (ix_entries old) k"
proof -
  note fr = stage_diff_frame [OF diff fetch late(1) nx perm(1) foreign]
  obtain target_index w6 merged w7 where m: "merge_target nt cd (df_index dr) (df_digest dr) w4 = (Inr target_index, w6)"
    "add_results nt results target_index w6 = (Some merged, w7)" "ix_entries pushed = ix_entries merged"
    using stage_merge_target [OF merge] by blast
  have t: "target_index = df_index dr"
    using m(1) same late(2) fr by (simp add: merge_target_def split_beta)
  have "ur_hash ` set results = result_key ` set (df_uploads dr)"
    using upload_paths_hashes [OF up] perm(2) by (metis set_map)
  then have "k \<notin> ur_hash ` set results" using fr foreign by blast
  with add_results_get [OF m(2)] m(3) t fr show ?thesis by simp
qed

section \<open>Repair\<close>

text \<open>C27: A manifest is enough to rebuild the entry of its path: repairing from the manifest a publish
  pushed for an upload adds the entry the merge would have added, when the references hold no comma.\<close>

theorem repair_restores_upload:
  assumes "fetch_manifest nt cd (ur_hash res) w = (Inr (path_manifest compression res), w1)"
    and "nix_hash_regex (ur_hash res)" and "is_hex_digest x" and "ur_digest res = sha256_prefix @ to_lower x"
    and "list_all (\<lambda>r. r \<noteq> [] \<and> CHR '','' \<notin> set r) (ur_refs res)"
  shows "repair_index_entry nt cd (ur_hash res) idx w
    = (let (now, w2) = read_clock nt w1
       in (Inr (add_entry (ur_hash res) (ur_name res) (ur_narinfo res) (ur_digest res) (ur_size res) (ur_refs res) now idx), w2))"
proof -
  let ?m = "path_manifest compression res"
  have ann: "annotation ?m ''org.nix.name'' = ur_name res" "annotation ?m ''org.nix.narinfo'' = ur_narinfo res"
    "annotation ?m ''org.nix.references'' = join '','' (ur_refs res)" "mf_annotations ?m \<noteq> None"
    "mf_layers ?m = [\<lparr>ds_media = layer_media_type compression, ds_digest = ur_digest res, ds_size = ur_size res\<rparr>]"
    by (simp_all add: annotation_def path_manifest_def annotated_manifest_def)
  have refs: "(if join '','' (ur_refs res) \<noteq> [] then split_on (CHR '','') (join '','' (ur_refs res)) else []) = ur_refs res"
  proof (cases "ur_refs res")
    case Nil
    then show ?thesis by simp
  next
    case (Cons r rs)
    then have "join '','' (ur_refs res) \<noteq> []" using hd_join [of r "'',''" rs] assms(5) by simp
    moreover have "split_on (CHR '','') (join '','' (ur_refs res)) = ur_refs res"
      using Cons assms(5) by (intro split_join) (auto simp: list_all_iff)
    ultimately show ?thesis by simp
  qed
  have dg: "parse_oci_digest (ur_digest res) = Inr (ur_digest res)"
    using parse_oci_digest_hex(2) [OF hex_digestD(7) [OF assms(3)]] to_lower_idem_ascii [OF hex_digestD(2) [OF assms(3)]] assms(4)
    by simp
  show ?thesis
    unfolding repair_index_entry_def assms(1) prod.case sum.case if_not_P [OF ann(4)] ann(1-3,5) Let_def refs
    by (simp add: parse_nix_hash_id [OF assms(2)] dg)
qed

section \<open>A run\<close>

text \<open>A registry where everything asked for exists, under the digest \<open>d\<close>, and an index with one package.\<close>

definition settled :: network where
  "settled = steady (\<lambda>h rq.
     if oq_method rq = ''POST'' then reply 202 [(''Location'', ''/up'')] []
     else if oq_method rq = ''PUT'' then reply 201 [] []
     else if oq_method rq = ''HEAD'' then reply 200 [(''Docker-Content-Digest'', ''d'')] []
     else reply 200 [] ''t'')"

definition sample_key :: string where "sample_key = replicate 32 CHR ''a''"
definition other_key :: string where "other_key = replicate 32 CHR ''b''"

definition sample_result :: upload_result where
  "sample_result = \<lparr>ur_hash = sample_key, ur_name = ''x'', ur_narinfo = ''n'', ur_digest = sha256_prefix @ replicate 64 CHR ''0'',
     ur_size = 1, ur_refs = [''/nix/store/r'']\<rparr>"

definition index_of :: "string \<Rightarrow> cache_index" where
  "index_of h = (new_index ''r'' ''o'' 1)\<lparr>ix_entries := Some (fmap_of_list [(h, new_item ''y'' [] [] 1 [] 1)])\<rparr>"

lemmas settled_defs = accepting_defs settled_def one_index_codec_def manifest_exists_def push_index_def push_manifest_def
  upload_blob_def

lemma settled_merge:
  "\<exists>idx' w'. stage_merge settled (one_index_codec (index_of other_key)) (new_index ''r'' ''o'' 0) ''d'' [sample_result] idle
    = (Done (Some idx'), w')"
  by (simp add: settled_defs stage_merge_def merge_target_def add_entry_def new_index_def gm_make_def gm_set_def)

theorem merge_adds_results_witness:
  "\<exists>idx' w'. stage_merge settled (one_index_codec (index_of other_key)) (new_index ''r'' ''o'' 0) ''d'' [sample_result] idle
      = (Done (Some idx'), w') \<and> gm_get (ix_entries idx') sample_key \<noteq> None"
proof -
  obtain idx' w' where m: "stage_merge settled (one_index_codec (index_of other_key)) (new_index ''r'' ''o'' 0) ''d''
      [sample_result] idle = (Done (Some idx'), w')"
    using settled_merge by blast
  from merge_adds_results [OF this] have "gm_get (ix_entries idx') (ur_hash sample_result) \<noteq> None" by auto
  with m show ?thesis by (auto simp: sample_result_def)
qed

text \<open>A registry that answers with the manifest of the sample.\<close>

definition sample_codec :: codecs where
  "sample_codec = (one_index_codec pushed_index)\<lparr>cd_get_manifest := (\<lambda>_. Inr (path_manifest ''zstd'' sample_result))\<rparr>"

theorem repair_restores_upload_witness:
  "\<exists>idx' w'. repair_index_entry settled sample_codec sample_key (new_index ''r'' ''o'' 0) idle = (Inr (Some idx'), w')
    \<and> gm_get (ix_entries idx') sample_key \<noteq> None"
proof -
  obtain w1 where f: "fetch_manifest settled sample_codec sample_key idle = (Inr (path_manifest ''zstd'' sample_result), w1)"
    by (cases "fetch_manifest settled sample_codec sample_key idle")
      (auto simp: settled_defs fetch_manifest_def sample_codec_def)
  have x: "is_hex_digest (replicate 64 CHR ''0'')" "to_lower (replicate 64 CHR ''0'') = replicate 64 CHR ''0''"
    "nix_hash_regex sample_key" by code_simp+
  have "repair_index_entry settled sample_codec (ur_hash sample_result) (new_index ''r'' ''o'' 0) idle
    = (let (now, w2) = read_clock settled w1
       in (Inr (add_entry (ur_hash sample_result) (ur_name sample_result) (ur_narinfo sample_result) (ur_digest sample_result)
            (ur_size sample_result) (ur_refs sample_result) now (new_index ''r'' ''o'' 0)), w2))"
    using x by (intro repair_restores_upload [OF _ _ x(1)]) (simp_all add: f sample_result_def)
  then show ?thesis
    by (simp add: sample_result_def add_entry_def new_index_def gm_make_def gm_set_def split_beta Let_def)
qed

text \<open>One locally built path, published to a registry with an empty index.\<close>

definition sample_path :: string where "sample_path = ''/nix/store/'' @ sample_key @ ''-x''"

definition sample_info :: path_info where
  "sample_info = \<lparr>pi_path = sample_path, pi_nar_hash = ''sha256:n'', pi_nar_size = 1, pi_refs = [], pi_sigs = []\<rparr>"

definition sample_runner :: nix_runner where
  "sample_runner = \<lparr>nx_closure = (\<lambda>_. Inr [sample_path]),
     nx_infos = (\<lambda>_. Inr (\<lambda>p. if p = sample_path then Some sample_info else None)),
     nx_export = (\<lambda>_ _ _ _. Inr \<lparr>xe_file = ''f'', xe_hash = ''00'', xe_size = 3\<rparr>),
    nx_build = (\<lambda>_. Inr []), nx_eval = (\<lambda>_. Inr []), nx_content = (\<lambda>_. Inr ''abc'')\<rparr>"

definition sample_publisher :: publisher where
  "sample_publisher = \<lparr>pb_signer = \<lparr>sg_key_name = ''k'', sg_private_key = replicate 64 0\<rparr>, pb_skip_upstream = True,
     pb_comp = ''zstd'', pb_level = 3, pb_jobs = 4\<rparr>"

lemma sample_path_facts:
  "get_path_hash sample_path = sample_key" "nix_hash_regex sample_key" "parse_nix_hash sample_key = Inr sample_key"
  "normalize_nar_hash ''sha256:n'' = Inr ''sha256:n''" "hex_to_nix_base32 ''00'' = Inl (BadHashLength 1)"
  "get_compressor ''zstd'' = Inr Zstd"
  by code_simp+

lemma settled_token: "\<exists>token w'. get_oci_token settled actions w = (Inr token, w')"
proof -
  have "\<exists>token w'. fetch_token settled actions v = (Inr token, w')" for v
    by (simp add: fetch_token_def exchange_def token_request_def settled_def steady_def reply_def read_clock_def)
  then show ?thesis
    by (cases "read_clock settled w") (auto simp: get_oci_token_def Let_def split: prod.split)
qed

lemma settled_request:
  assumes "mthd = ''HEAD'' \<and> a = reply 200 [(''Docker-Content-Digest'', ''d'')] [] \<or> mthd = ''GET'' \<and> a = reply 200 [] ''t''
    \<or> mthd = ''PUT'' \<and> a = reply 201 [] []"
  shows "\<exists>w'. transport_request settled mthd path body ctype w = (a, w')"
proof -
  obtain token w1 where t: "get_oci_token settled (actions_for mthd) w = (Inr token, w1)" using settled_token by blast
  obtain resp where r: "a = Inr resp" "final_answer resp" using assms by (auto simp: reply_def final_answer_def)
  have "nt_answer settled (w_log w1) (registry_request (w_transport w1) mthd path token body ctype True) = Inr resp"
    using assms r(1) by (auto simp: settled_def steady_def)
  from transport_request_ok [OF t _ this r(2)] r(1) show ?thesis by (simp add: settled_def steady_def)
qed

lemma settled_exists: "\<exists>w'. manifest_exists settled tag w = ((True, ''d''), w')"
  using settled_request [of "''HEAD''" "reply 200 [(''Docker-Content-Digest'', ''d'')] []" "''/manifests/'' @ tag" None media_manifest w]
  by (auto simp: manifest_exists_def reply_def)

lemma settled_manifest: "\<exists>w'. fetch_manifest settled cd tag w = (cd_get_manifest cd ''t'', w')"
  using settled_request [of "''GET''" "reply 200 [] ''t''" "''/manifests/'' @ tag" None media_manifest w]
  by (auto simp: fetch_manifest_def reply_def)

lemma settled_push: "\<exists>w'. push_manifest settled cd tag m w = (None, w')"
  using settled_request [of "''PUT''" "reply 201 [] []" "''/manifests/'' @ tag" "Some (cd_put_manifest cd m)" media_manifest w]
  by (auto simp: push_manifest_def reply_def)

lemma settled_upload: "\<exists>w'. upload_blob settled resolve (Inr content) hex w = (Done (''sha256:'' @ hex, int (length content)), w')"
  using settled_request [of "''HEAD''" "reply 200 [(''Docker-Content-Digest'', ''d'')] []" "''/blobs/'' @ ''sha256:'' @ hex" None "[]" w]
  by (auto simp: upload_blob_def reply_def Let_def)

lemma settled_push_index: "\<exists>idx' w'. push_index settled cd idx w = (Done idx', w')"
proof -
  obtain now w1 where t: "read_clock settled w = (now, w1)" by (cases "read_clock settled w")
  let ?c = "cd_zstd cd (cd_put_index cd (idx\<lparr>ix_generated := now\<rparr>))"
  obtain w2 where u: "upload_blob settled (cd_resolve cd) (Inr ?c) (cd_sha256 cd ?c) w1
    = (Done (''sha256:'' @ cd_sha256 cd ?c, int (length ?c)), w2)" using settled_upload by blast
  obtain now2 w3 where t2: "read_clock settled w2 = (now2, w3)" by (cases "read_clock settled w2")
  obtain w4 where "push_manifest settled cd ''noci-index''
      (index_manifest (''sha256:'' @ cd_sha256 cd ?c) (int (length ?c)) (cd_rfc3339 cd now2)) w3 = (None, w4)"
    using settled_push by blast
  then show ?thesis unfolding push_index_def t prod.case Let_def u go_outcome.case t2 by simp
qed

definition empty_index :: cache_index where
  "empty_index = upgrade (\<lambda>_. 1) pushed_index"

lemma settled_index: "\<exists>w'. fetch_index settled (one_index_codec pushed_index) w = (Inr empty_index, w')"
proof -
  let ?cd = "one_index_codec pushed_index"
  obtain w1 where m: "fetch_manifest settled ?cd ''noci-index'' w = (cd_get_manifest ?cd ''t'', w1)" using settled_manifest by blast
  obtain w2 where b: "download_blob settled (''sha256:'' @ zstd_magic @ ''i'') w1 = (Inr ''t'', w2)"
    using settled_request [of "''GET''" "reply 200 [] ''t''" "''/blobs/'' @ (''sha256:'' @ zstd_magic @ ''i'')" None "[]" w1]
    by (auto simp: download_blob_def reply_def)
  have c: "nt_clock settled = (\<lambda>_. 1)" by (simp add: settled_def steady_def)
  obtain w3 where d: "decode_index settled ?cd ''t'' w2 = (Inr empty_index, w3)"
    by (simp add: decode_index_def one_index_codec_def decompress_def zstd_magic_def gzip_magic_def upgrade_now_def c empty_index_def)
  have g: "cd_get_manifest ?cd ''t'' = Inr (index_manifest (''sha256:'' @ zstd_magic @ ''i'') 5 [])"
    by (simp add: one_index_codec_def)
  show ?thesis
    unfolding fetch_index_def m g prod.case sum.case using b d by (simp add: index_manifest_def)
qed

lemma sample_diff:
  "\<exists>w'. stage_diff settled (one_index_codec pushed_index) sample_runner id sample_publisher [] w
    = (Done \<lparr>df_uploads = [sample_info], df_index = empty_index, df_digest = ''d''\<rparr>, w')"
proof -
  let ?cd = "one_index_codec pushed_index"
  obtain w1 where f: "fetch_index settled ?cd w = (Inr empty_index, w1)" using settled_index by blast
  obtain w2 where h: "manifest_exists settled ''noci-index'' w1 = ((True, ''d''), w2)" using settled_exists by blast
  have c: "candidates sample_publisher [sample_path] (\<lambda>p. if p = sample_path then Some sample_info else None) = [sample_info]"
    by (simp add: candidates_def List.map_filter_def is_upstream_cached_def sample_info_def Let_def)
  have e: "ix_entries empty_index = Some fmempty"
    by (simp add: empty_index_def pushed_index_def new_index_def gm_make_def upgrade_def Let_def)
  have m: "missing_paths empty_index [sample_info] = [sample_info]"
    by (simp add: missing_paths_def e)
  have p: "get_path_hash (pi_path sample_info) = sample_key" by (simp add: sample_info_def sample_path_facts)
  obtain w3 where k: "manifest_exists settled sample_key w2 = ((True, ''d''), w3)" using settled_exists by blast
  have ch: "check_paths settled [sample_info] w2 = ([(sample_info, True)], w3)" by (simp add: p k Let_def)
  obtain w4 where fm: "fetch_manifest settled ?cd sample_key w3 = (cd_get_manifest ?cd ''t'', w4)" using settled_manifest by blast
  have "isl (parse_oci_digest (''sha256:'' @ zstd_magic @ ''i''))" by code_simp
  then have "\<exists>err. repair_index_entry settled ?cd sample_key empty_index w3 = (Inl err, w4)"
    unfolding repair_index_entry_def fm
    by (auto simp: one_index_codec_def index_manifest_def sample_path_facts isl_def Let_def)
  then have r: "repair_paths settled ?cd [(sample_info, True)] empty_index w3 = (Some ([sample_info], 0, empty_index), w4)"
    by (auto simp: p)
  have nx: "nx_closure sample_runner [] = Inr [sample_path]"
    "nx_infos sample_runner [sample_path] = Inr (\<lambda>p. if p = sample_path then Some sample_info else None)"
    by (simp_all add: sample_runner_def)
  show ?thesis
    unfolding stage_diff_def f h nx prod.case sum.case c m Let_def id_apply ch r
    by (simp add: largest_first_def)
qed

lemma sample_publish:
  "\<exists>idx cw'. publish_to_registry settled (one_index_codec pushed_index) sample_runner (\<lambda>_ _. []) id id sample_publisher []
    (None, idle) = (Done (Some idx), cw')"
proof -
  let ?cd = "one_index_codec pushed_index"
  obtain w1 where "manifest_exists settled ''public-key'' idle = ((True, ''d''), w1)" using settled_exists by blast
  then have k: "ensure_public_key settled ?cd sample_publisher idle = (Done (), w1)" by (simp add: ensure_public_key_def)
  obtain w2 where d: "stage_diff settled ?cd sample_runner id sample_publisher [] w1
    = (Done \<lparr>df_uploads = [sample_info], df_index = empty_index, df_digest = ''d''\<rparr>, w2)"
    using sample_diff by blast
  obtain w3 where u: "upload_blob settled (cd_resolve ?cd) (Inr ''abc'') ''00'' w2 = (Done (''sha256:00'', 3), w3)"
    using settled_upload [of "cd_resolve ?cd" "''abc''" "''00''" w2] by auto
  obtain res where s: "publish_single settled ?cd sample_runner (\<lambda>_ _. []) sample_publisher sample_info (None, w2) = (Done res, None, w3)"
    by (simp add: publish_single_def get_or_create_def sample_runner_def u sample_info_def sample_path_facts sample_publisher_def
        sign_path_def ed25519_sign_def generate_narinfo_def sha256_prefix_def trim_prefix_def Let_def)
  obtain w4 where m: "push_manifest settled ?cd (ur_hash res) (path_manifest (pb_comp sample_publisher) res) w3 = (None, w4)"
    using settled_push by blast
  have up: "upload_paths settled ?cd sample_runner (\<lambda>_ _. []) sample_publisher [sample_info] (None, w2) = (Done [res], None, w4)"
    by (simp add: s m)
  obtain w5 where h: "manifest_exists settled ''noci-index'' w4 = ((True, ''d''), w5)" using settled_exists by blast
  obtain idx1 w6 where a: "add_results settled [res] empty_index w5 = (Some idx1, w6)"
    by (simp add: add_entry_def empty_index_def pushed_index_def new_index_def gm_make_def gm_set_def upgrade_def split_beta Let_def)
  obtain idx w7 where "push_index settled ?cd idx1 w6 = (Done idx, w7)" using settled_push_index by blast
  then have g: "stage_merge settled ?cd empty_index ''d'' [res] w4 = (Done (Some idx), w7)"
    unfolding stage_merge_def merge_target_def h using a by simp
  show ?thesis
    unfolding publish_to_registry_def snd_conv fst_conv k d prod.case go_outcome.case diff_result.select_convs id_apply up g by simp
qed

theorem publish_covers_closure_witness:
  "\<exists>pushed cw' dr w2. publish_to_registry settled (one_index_codec pushed_index) sample_runner (\<lambda>_ _. []) id id
      sample_publisher [] (None, idle) = (Done pushed, cw')
    \<and> stage_diff settled (one_index_codec pushed_index) sample_runner id sample_publisher []
        (snd (ensure_public_key settled (one_index_codec pushed_index) sample_publisher idle)) = (Done dr, w2)
    \<and> (indexed (df_index dr) sample_info \<or> (\<exists>idx. pushed = Some idx \<and> indexed idx sample_info))"
proof -
  obtain idx cw' where r: "publish_to_registry settled (one_index_codec pushed_index) sample_runner (\<lambda>_ _. []) id id
      sample_publisher [] (None, idle) = (Done (Some idx), cw')"
    using sample_publish by blast
  let ?infos = "\<lambda>p. if p = sample_path then Some sample_info else None"
  have nx: "nx_closure sample_runner [] = Inr [sample_path]" "nx_infos sample_runner [sample_path] = Inr ?infos"
    by (simp_all add: sample_runner_def)
  have c: "candidates sample_publisher [sample_path] ?infos = [sample_info]"
    by (simp add: candidates_def List.map_filter_def is_upstream_cached_def sample_info_def Let_def)
  have v: "nix_hash_regex (get_path_hash (pi_path i))" if "i \<in> set (candidates sample_publisher [sample_path] ?infos)" for i
    using that unfolding c by (simp add: sample_info_def sample_path_facts)
  have i: "sample_info \<in> set (candidates sample_publisher [sample_path] ?infos)" unfolding c by simp
  have perm: "set (id xs) = set xs" for xs :: "path_info list" by simp
  from publish_covers_closure [OF r nx perm perm i v] r show ?thesis unfolding snd_conv by blast
qed

text \<open>Two publishers: the registry's index is empty when the difference fetches it, and holds the entry of
  another publisher when its digest is asked for.\<close>

definition racing :: network where
  "racing = archive (base_url idle) ''d''
     (\<lambda>late. seed_manifest (if late then index_of other_key else new_index ''r'' ''o'' 0))"

lemmas racing_exists = archive_exists [of "base_url idle" "''d''"
    "\<lambda>late. seed_manifest (if late then index_of other_key else new_index ''r'' ''o'' 0)", folded racing_def]
lemmas racing_head = archive_head [of _ "base_url idle" "''d''"
    "\<lambda>late. seed_manifest (if late then index_of other_key else new_index ''r'' ''o'' 0)", folded racing_def]
lemmas racing_tag = archive_manifest [of _ "base_url idle" _ "''d''"
    "\<lambda>late. seed_manifest (if late then index_of other_key else new_index ''r'' ''o'' 0)" wire_codecs, folded racing_def]
lemmas racing_fetch = archive_fetch [of _ "base_url idle"
    "\<lambda>late. seed_manifest (if late then index_of other_key else new_index ''r'' ''o'' 0)" _ "''d''", folded racing_def]
lemmas racing_blob = archive_upload [of "base_url idle" "''d''"
    "\<lambda>late. seed_manifest (if late then index_of other_key else new_index ''r'' ''o'' 0)", folded racing_def]
lemmas racing_put = archive_push_manifest [of "base_url idle" "''d''"
    "\<lambda>late. seed_manifest (if late then index_of other_key else new_index ''r'' ''o'' 0)", folded racing_def]
lemmas racing_push = archive_push [of "base_url idle" "''d''"
    "\<lambda>late. seed_manifest (if late then index_of other_key else new_index ''r'' ''o'' 0)", folded racing_def]

definition racing_index :: cache_index where
  "racing_index = upgrade (\<lambda>_. 1) (new_index ''r'' ''o'' 0)"

lemma racing_index_entries: "ix_entries racing_index = Some fmempty"
  by (simp add: racing_index_def new_index_def gm_make_def upgrade_def Let_def)

lemma sample_candidates:
  "nx_closure sample_runner [] = Inr [sample_path]"
  "nx_infos sample_runner [sample_path] = Inr (\<lambda>p. if p = sample_path then Some sample_info else None)"
  "candidates sample_publisher [sample_path] (\<lambda>p. if p = sample_path then Some sample_info else None) = [sample_info]"
  "get_path_hash (pi_path sample_info) = sample_key"
  by (simp_all add: sample_runner_def candidates_def List.map_filter_def is_upstream_cached_def sample_info_def Let_def
      sample_path_facts)

lemma racing_start:
  "\<exists>w1 w2. fetch_index racing wire_codecs idle = (Inr racing_index, w1)
    \<and> manifest_exists racing ''noci-index'' w1 = ((True, ''d''), w2) \<and> base_url w2 = base_url idle
    \<and> head_seen (base_url idle) (w_log w2) \<and> (\<forall>url. \<not> put_seen url (w_log w2))"
proof -
  have n: "\<not> put_seen url (w_log idle)" "\<not> head_seen (base_url idle) (w_log idle)" for url
    by (simp_all add: idle_def put_seen_def head_seen_def)
  obtain w1 where f: "fetch_index racing wire_codecs idle = (Inr racing_index, w1)" "base_url w1 = base_url idle"
    "\<forall>url. put_seen url (w_log w1) = put_seen url (w_log idle)"
    using racing_fetch [OF refl n(1), of "new_index ''r'' ''o'' 0"] n(2)
    unfolding racing_index_def by auto
  obtain w2 where "manifest_exists racing ''noci-index'' w1 = ((True, ''d''), w2)" "base_url w2 = base_url idle"
    "head_seen (base_url idle) (w_log w2)" "\<forall>url. put_seen url (w_log w2) = put_seen url (w_log w1)"
    using racing_head [OF f(2)] by blast
  with f n(1) show ?thesis by simp
qed

lemma racing_diff:
  assumes "fetch_index racing wire_codecs idle = (Inr racing_index, w1)"
    and "manifest_exists racing ''noci-index'' w1 = ((True, ''d''), w2)" and "base_url w2 = base_url idle"
    and "\<And>url. \<not> put_seen url (w_log w2)"
  shows "\<exists>w3. stage_diff racing wire_codecs sample_runner id sample_publisher [] idle
    = (Done \<lparr>df_uploads = [sample_info], df_index = racing_index, df_digest = ''d''\<rparr>, w3)"
proof -
  have m: "missing_paths racing_index [sample_info] = [sample_info]"
    by (simp add: missing_paths_def racing_index_entries)
  obtain w3 where k: "manifest_exists racing sample_key w2 = ((True, ''d''), w3)"
    and a: "asked ''HEAD'' (''/manifests/'' @ sample_key) w2 w3"
    using racing_exists by blast
  have ch: "check_paths racing [sample_info] w2 = ([(sample_info, True)], w3)" by (simp add: sample_candidates k Let_def)
  have b3: "base_url w3 = base_url idle" unfolding asked_base [OF a] by (rule assms(3))
  have "\<not> put_seen (base_url idle @ ''/manifests/'' @ sample_key) (w_log w3)"
    using assms(4) asked_other(1) [OF a] by simp
  moreover have "sample_key \<noteq> ''noci-index''" by code_simp
  ultimately obtain w4 where fm: "fetch_manifest racing wire_codecs sample_key w3 = (cd_get_manifest wire_codecs ''t'', w4)"
    using racing_tag [OF b3, of sample_key] by auto
  have "whole get_manifest ''t'' = Inl ''invalid document''" by code_simp
  then have t: "cd_get_manifest wire_codecs ''t'' = Inl ''invalid document''" by (simp add: wire_codecs_def)
  have "repair_index_entry racing wire_codecs sample_key racing_index w3 = (Inl (ManifestUnavailable ''invalid document''), w4)"
    unfolding repair_index_entry_def fm t by simp
  then have r: "repair_paths racing wire_codecs [(sample_info, True)] racing_index w3 = (Some ([sample_info], 0, racing_index), w4)"
    by (simp add: sample_candidates)
  show ?thesis
    unfolding stage_diff_def assms(1,2) sample_candidates prod.case sum.case m Let_def id_apply ch r
    by (simp add: largest_first_def)
qed

lemma racing_upload:
  "\<exists>res w2. upload_paths racing wire_codecs sample_runner (\<lambda>_ _. []) sample_publisher [sample_info] (None, w)
    = (Done [res], None, w2)"
proof -
  obtain w1 where u: "upload_blob racing (cd_resolve wire_codecs) (Inr ''abc'') ''00'' w = (Done (''sha256:00'', 3), w1)"
    using racing_blob [of "cd_resolve wire_codecs" "''abc''" "''00''" w] by auto
  obtain res where s: "publish_single racing wire_codecs sample_runner (\<lambda>_ _. []) sample_publisher sample_info (None, w) = (Done res, None, w1)"
    by (simp add: publish_single_def get_or_create_def sample_runner_def u sample_info_def sample_path_facts sample_publisher_def
        sign_path_def ed25519_sign_def generate_narinfo_def sha256_prefix_def trim_prefix_def Let_def)
  obtain w2 where "push_manifest racing wire_codecs (ur_hash res) (path_manifest (pb_comp sample_publisher) res) w1 = (None, w2)"
    using racing_put by blast
  with s show ?thesis by simp
qed

text \<open>What the other publisher stored is in the registry's index when the digest is taken, and not in the
  index that is pushed.\<close>

theorem late_digest_loses_update_witness:
  "\<exists>w1 w2 w3 current dr results w4 w5 pushed w6.
      fetch_index racing wire_codecs idle = (Inr racing_index, w1)
    \<and> manifest_exists racing ''noci-index'' w1 = ((True, ''d''), w2)
    \<and> fetch_index racing wire_codecs w2 = (Inr current, w3) \<and> gm_get (ix_entries current) other_key \<noteq> None
    \<and> stage_diff racing wire_codecs sample_runner id sample_publisher [] idle = (Done dr, w4)
    \<and> upload_paths racing wire_codecs sample_runner (\<lambda>_ _. []) sample_publisher (df_uploads dr) (None, w4) = (Done results, None, w5)
    \<and> stage_merge racing wire_codecs (df_index dr) (df_digest dr) results w5 = (Done (Some pushed), w6)
    \<and> gm_get (ix_entries pushed) other_key = None"
proof -
  obtain w1 w2 where f: "fetch_index racing wire_codecs idle = (Inr racing_index, w1)"
    "manifest_exists racing ''noci-index'' w1 = ((True, ''d''), w2)" "base_url w2 = base_url idle"
    "head_seen (base_url idle) (w_log w2)" "\<And>url. \<not> put_seen url (w_log w2)"
    using racing_start by blast
  obtain w3 where g: "fetch_index racing wire_codecs w2 = (Inr (upgrade (\<lambda>_. 1) (index_of other_key)), w3)"
    using racing_fetch [OF f(3,5), of "index_of other_key"] f(4) by auto
  have o: "gm_get (ix_entries (upgrade (\<lambda>_. 1) (index_of other_key))) other_key \<noteq> None"
    by (simp add: upgrade_get_entry index_of_def)
  let ?dr = "\<lparr>df_uploads = [sample_info], df_index = racing_index, df_digest = ''d''\<rparr>"
  obtain w4 where d: "stage_diff racing wire_codecs sample_runner id sample_publisher [] idle = (Done ?dr, w4)"
    using racing_diff [OF f(1-3,5)] by blast
  obtain res w5 where u: "upload_paths racing wire_codecs sample_runner (\<lambda>_ _. []) sample_publisher [sample_info] (None, w4)
      = (Done [res], None, w5)"
    using racing_upload by blast
  obtain w where h: "manifest_exists racing ''noci-index'' w5 = ((True, ''d''), w)" using racing_exists by blast
  obtain idx w' where a: "add_results racing [res] racing_index w = (Some idx, w')"
    by (simp add: add_entry_def racing_index_entries gm_set_def split_beta Let_def)
  obtain pushed w6 where "push_index racing wire_codecs idx w' = (Done pushed, w6)" using racing_push by blast
  then have m: "stage_merge racing wire_codecs racing_index ''d'' [res] w5 = (Done (Some pushed), w6)"
    unfolding stage_merge_def merge_target_def h using a by simp
  have k: "other_key \<notin> result_key ` set (candidates sample_publisher [sample_path] (\<lambda>p. if p = sample_path then Some sample_info else None))"
    unfolding sample_candidates by (simp add: sample_candidates sample_path_facts or_empty_def) (simp add: sample_key_def other_key_def)
  have perm: "set (id xs) = set xs" for xs :: "path_info list" by simp
  have u': "upload_paths racing wire_codecs sample_runner (\<lambda>_ _. []) sample_publisher (id (df_uploads ?dr)) (None, w4)
      = (Done [res], None, w5)" unfolding diff_result.select_convs id_apply by (rule u)
  have m': "stage_merge racing wire_codecs (df_index ?dr) (df_digest ?dr) [res] w5 = (Done (Some pushed), w6)"
    unfolding diff_result.select_convs by (rule m)
  have h': "snd (fst (manifest_exists racing ''noci-index'' w5)) = ''d''" unfolding h by simp
  have "gm_get (ix_entries pushed) other_key = gm_get (ix_entries racing_index) other_key"
    by (rule late_digest_loses_update [OF f(1,2) _ d sample_candidates(1,2) perm perm u' h' m' k]) simp
  then have "gm_get (ix_entries pushed) other_key = None" by (simp add: racing_index_entries)
  with f(1,2) g o d u' [unfolded id_apply] m' show ?thesis by blast
qed

end
