(* ===== verification/App_Props.thy ===== *)
theory App_Props
  imports App_Index App_Push Publisher_Props
begin

text \<open>
  What the commands guarantee together: a pin that was stored protects its closure from a later
  garbage collection, a collection on the registry does what \<open>Runner.Run\<close> does on its store, the
  index commands change what they name, and what mistyped targets lead to.
\<close>

section \<open>Targets\<close>

lemma store_hashes_ok: "\<exists>hs. store_hashes ps = Ok hs \<and> list_all (\<lambda>h. length h = 32) hs"
proof (induction ps)
  case (Cons p ps)
  show ?case
  proof (cases "parse_store_path p")
    case (Inr sp)
    then obtain h n where "store_path_hash sp = Some h" "length h = 32"
      using store_path_split [OF Inr] by metis
    with Cons Inr show ?thesis by auto
  qed (use Cons in simp)
qed simp

lemma resolve_arg_ok:
  "(\<exists>hs. resolve_arg nx b a = Ok hs \<and> list_all (\<lambda>h. length h = 32) hs) \<or> (\<exists>e. resolve_arg nx b a = Err (TargetFailed a e))"
proof (cases "a = [] \<or> (\<exists>h. parse_nix_hash a = Inr h)")
  case True
  then show ?thesis
  proof
    assume "\<exists>h. parse_nix_hash a = Inr h"
    then obtain h where h: "parse_nix_hash a = Inr h" ..
    then have "length h = 32" by (auto simp: parse_nix_hash_Inr dest: nix_hash_regexD(1))
    with h show ?thesis by (simp add: resolve_arg_def)
  qed (simp add: resolve_arg_def)
next
  case False
  then obtain e where "parse_nix_hash a = Inl e" "a \<noteq> []" by (cases "parse_nix_hash a") auto
  then have r: "resolve_arg nx b a = (if has_prefix a ''/nix/store'' then store_hashes [a]
      else if b then (case nx_build nx a of Inl err \<Rightarrow> Err (TargetFailed a err) | Inr ps \<Rightarrow> store_hashes ps)
      else (case nx_eval nx a of Inl err \<Rightarrow> Err (TargetFailed a err) | Inr p \<Rightarrow> store_hashes [p]))"
    by (simp add: resolve_arg_def del: store_hashes.simps)
  show ?thesis
    unfolding r using store_hashes_ok
    by (cases "nx_build nx a"; cases "nx_eval nx a") (simp_all del: store_hashes.simps)
qed

lemma resolve_hashes_ok:
  "(\<exists>hs. resolve_hashes nx b args = Ok hs \<and> list_all (\<lambda>h. length h = 32) hs)
    \<or> (\<exists>a e. resolve_hashes nx b args = Err (TargetFailed a e))"
proof (induction args)
  case (Cons a args)
  with resolve_arg_ok [of nx b "trim_space a"] show ?case by auto
qed simp

text \<open>An argument that is meant to be a store path and is none, nor a hash.\<close>

definition mistyped :: "string \<Rightarrow> bool" where
  "mistyped a \<longleftrightarrow> has_prefix (trim_space a) ''/nix/store'' \<and> isl (parse_store_path (trim_space a))
     \<and> isl (parse_nix_hash (trim_space a))"

lemma resolve_mistyped: "list_all mistyped args \<Longrightarrow> resolve_hashes nx b args = Ok []"
  by (induction args) (auto simp: mistyped_def resolve_arg_def isl_def split: sum.splits)

text \<open>A collection whose targets are all mistyped store paths is not refused: the targets are passed
  over one by one, and with none left the command sweeps the whole cache instead.\<close>

lemma mistyped_targets_sweep:
  "list_all mistyped args \<Longrightarrow> run_gc ev opts fl finish so co args w = run_gc ev opts fl finish so co [] w"
  unfolding run_gc_def by (simp only: resolve_mistyped resolve_hashes.simps(1))

section \<open>Steps of a command\<close>

lemma with_config_Ok:
  "with_config ev opts f w = (Ok x, w') \<longleftrightarrow> (\<exists>cfg. load (ev_outside ev) opts = Inr cfg \<and> f cfg w = (Ok x, w'))"
  by (auto simp: with_config_def split: sum.splits)

lemma open_client_Ok:
  "open_client t w = (Ok u, w') \<longleftrightarrow> tg_registry t \<noteq> [] \<and> tg_repo t \<noteq> []
    \<and> w' = w\<lparr>w_transport := new_transport (tg_registry t) (tg_repo t) (tg_token t)\<rparr>"
  by (auto simp: open_client_def)

lemma fetched_Ok: "fetched ev w = (Ok idx, w') \<longleftrightarrow> fetch_index (ev_net ev) (ev_codecs ev) w = (Inr idx, w')"
  by (auto simp: fetched_def split: prod.splits sum.splits)

lemma stored_Ok: "stored ev idx w = (Ok idx', w') \<longleftrightarrow> push_index (ev_net ev) (ev_codecs ev) idx w = (Done idx', w')"
  by (auto simp: stored_def split: prod.splits go_outcome.splits)

lemma with_index_Ok:
  "with_index ev t f w = (Ok x, w') \<longleftrightarrow> (\<exists>w1 idx w2. open_client t w = (Ok (), w1)
    \<and> fetch_index (ev_net ev) (ev_codecs ev) w1 = (Inr idx, w2) \<and> f idx w2 = (Ok x, w'))"
  by (auto simp: with_index_def fetched_Ok [symmetric] dest!: after_Ok)

lemma push_index_is: "push_index nt cd idx w = (Done idx', w') \<Longrightarrow> \<exists>now. idx' = idx\<lparr>ix_generated := now\<rparr>"
  by (auto simp: push_index_def Let_def split: prod.splits go_outcome.splits option.splits)

section \<open>Pins\<close>

lemma pin_all_spec:
  assumes "pin_all nt ttl hs idx w = (idx', w')" and "ix_roots idx \<noteq> None"
  shows "ix_entries idx' = ix_entries idx \<and> ix_version idx' = ix_version idx
    \<and> ix_gc_roots_v1 idx' = ix_gc_roots_v1 idx \<and> ix_roots idx' \<noteq> None
    \<and> (\<forall>h. h \<in> set hs \<longrightarrow> (\<exists>i. gm_get (ix_roots idx') h = Some \<lparr>rt_pinned_at = nt_clock nt i, rt_ttl = ttl\<rparr>))
    \<and> (\<forall>h. h \<notin> set hs \<longrightarrow> gm_get (ix_roots idx') h = gm_get (ix_roots idx) h)
    \<and> w_log w' = w_log w \<and> w_transport w' = w_transport w"
  using assms
proof (induction hs arbitrary: idx w)
  case (Cons h hs)
  obtain now w1 where t: "read_clock nt w = (now, w1)" by (cases "read_clock nt w")
  have w1: "now = nt_clock nt (w_ticks w)" "w_log w1 = w_log w" "w_transport w1 = w_transport w"
    using t by (auto simp: read_clock_def)
  from Cons.prems t have p: "pin_all nt ttl hs (pin_root h ttl now idx) w1 = (idx', w')" by simp
  have r: "ix_roots (pin_root h ttl now idx) \<noteq> None"
    "ix_entries (pin_root h ttl now idx) = ix_entries idx" "ix_version (pin_root h ttl now idx) = ix_version idx"
    "ix_gc_roots_v1 (pin_root h ttl now idx) = ix_gc_roots_v1 idx"
    "gm_get (ix_roots (pin_root h ttl now idx)) k
      = (if k = h then Some \<lparr>rt_pinned_at = now, rt_ttl = ttl\<rparr> else gm_get (ix_roots idx) k)" for k
    using Cons.prems(2) by (auto simp: pin_root_def Let_def)
  note ih = Cons.IH [OF p r(1)]
  have "\<exists>i. gm_get (ix_roots idx') h = Some \<lparr>rt_pinned_at = nt_clock nt i, rt_ttl = ttl\<rparr>"
    using ih r(5) w1(1) by (cases "h \<in> set hs") auto
  with ih r w1 show ?case by auto
qed auto

text \<open>Nothing a sweep evicts is reachable from a pin that has not expired.\<close>

lemma sweep_spares:
  assumes "sweep_order_ok so e" and "h \<in> live (entries_of (en_index e)) (active_roots e now)"
  shows "h \<notin> set (gr_evicted_keys (sweep e so now mx))"
  using assms protected_active [OF assms(1)] sweep_marks_ok(2) [OF assms(1), of now] sweep_evicted_unmarked(2) [OF assms(1), of now mx]
  by blast

lemma live_mono: "h \<in> live E R \<Longrightarrow> R \<subseteq> R' \<Longrightarrow> h \<in> live E R'"
  by (induction rule: live.induct) (auto intro: live.intros)

lemma run_pin_Ok:
  assumes "run_pin ev opts ttl args w = (Ok pinned, w')"
  shows "\<exists>cfg secs hashes w1 idx w2 idx1 w3. load (ev_outside ev) opts = Inr cfg \<and> parse_ttl ttl = Inr secs
    \<and> resolve_hashes (ev_runner ev) True args = Ok hashes \<and> open_client (cf_primary cfg) w = (Ok (), w1)
    \<and> fetch_index (ev_net ev) (ev_codecs ev) w1 = (Inr idx, w2)
    \<and> pin_all (ev_net ev) secs hashes idx w2 = (idx1, w3)
    \<and> push_index (ev_net ev) (ev_codecs ev) idx1 w3 = (Done pinned, w')"
proof -
  obtain cfg where c: "load (ev_outside ev) opts = Inr cfg"
    and r: "(case parse_ttl ttl of Inl e \<Rightarrow> (Err (BadTtl e), w)
      | Inr secs \<Rightarrow> after (resolve_hashes (ev_runner ev) True args, w) (\<lambda>hashes.
          with_index ev (cf_primary cfg) (pin_index ev secs hashes))) = (Ok pinned, w')"
    using assms unfolding run_pin_def with_config_Ok by blast
  obtain secs where t: "parse_ttl ttl = Inr secs" using r by (cases "parse_ttl ttl") auto
  obtain hashes where h: "resolve_hashes (ev_runner ev) True args = Ok hashes"
    and x: "with_index ev (cf_primary cfg) (pin_index ev secs hashes) w = (Ok pinned, w')"
    using after_Ok [OF r [unfolded t sum.case]] by auto
  obtain w1 idx w2 where o1: "open_client (cf_primary cfg) w = (Ok (), w1)"
    and f: "fetch_index (ev_net ev) (ev_codecs ev) w1 = (Inr idx, w2)"
    and p: "pin_index ev secs hashes idx w2 = (Ok pinned, w')"
    using x unfolding with_index_Ok by blast
  obtain idx1 w3 where a: "pin_all (ev_net ev) secs hashes idx w2 = (idx1, w3)" by fastforce
  from p a have "push_index (ev_net ev) (ev_codecs ev) idx1 w3 = (Done pinned, w')"
    by (simp add: pin_index_def stored_Ok)
  with c t h o1 f a show ?thesis by blast
qed

lemma gc_run_stored:
  assumes "gc_run ev r finish so co mx ts w = (Ok (result, Some swept), w')"
  shows "\<exists>idx w1 now gen. fetch_index (ev_net ev) (ev_codecs ev) w = (Inr idx, w1)
    \<and> now = fst (gc_now (ev_net ev) ts w1) \<and> result = run_result (runner_engine r idx) so co now mx ts
    \<and> swept = (apply_result result idx)\<lparr>ix_generated := gen\<rparr> \<and> \<not> rn_dry_run r"
proof -
  obtain idx w1 where f: "fetch_index (ev_net ev) (ev_codecs ev) w = (Inr idx, w1)"
    and g: "gc_index ev r finish so co mx ts idx w1 = (Ok (result, Some swept), w')"
    using assms by (auto simp: gc_run_def split: prod.splits sum.splits)
  obtain now w2 where n: "gc_now (ev_net ev) ts w1 = (now, w2)" by fastforce
  let ?r = "run_result (runner_engine r idx) so co now mx ts"
  note g1 = g [unfolded gc_index_def n prod.case Let_def]
  have c: "gr_evicted_count ?r \<noteq> 0" "\<not> rn_dry_run r" using g1 by (auto split: if_splits)
  obtain idx' w3 where p: "push_index (ev_net ev) (ev_codecs ev) (apply_result ?r idx) w2 = (Done idx', w3)"
    using g1 c by (auto split: prod.splits go_outcome.splits)
  have "result = ?r" "swept = idx'"
    using g1 c unfolding p by (auto split: if_splits prod.splits)
  with f n c(2) push_index_is [OF p] show ?thesis by auto
qed

lemma run_gc_Ok:
  assumes "run_gc ev opts fl finish so co args w = (Ok x, w')"
  shows "\<exists>cfg mx grace hashes w1. load (ev_outside ev) opts = Inr cfg \<and> parse_size (gf_max_size fl) = Inr mx
    \<and> parse_duration (gf_grace fl) = Some grace \<and> resolve_hashes (ev_runner ev) False args = Ok hashes
    \<and> open_client (cf_primary cfg) w = (Ok (), w1)
    \<and> gc_run ev (new_runner grace (gf_keep fl) (gf_physical fl) (gf_dry_run fl)) finish so co mx hashes w1 = (Ok x, w')"
proof -
  obtain cfg where c: "load (ev_outside ev) opts = Inr cfg"
    and r: "(case parse_size (gf_max_size fl) of Inl e \<Rightarrow> (Err (BadMaxSize e), w)
      | Inr mx \<Rightarrow> (case parse_duration (gf_grace fl) of None \<Rightarrow> (Err (BadGracePeriod (gf_grace fl)), w)
          | Some grace \<Rightarrow> after (resolve_hashes (ev_runner ev) False args, w) (\<lambda>hashes w1.
              after (open_client (cf_primary cfg) w1) (\<lambda>_. gc_run ev
                (new_runner grace (gf_keep fl) (gf_physical fl) (gf_dry_run fl)) finish so co mx hashes)))) = (Ok x, w')"
    using assms unfolding run_gc_def with_config_Ok by blast
  obtain mx grace where m: "parse_size (gf_max_size fl) = Inr mx" "parse_duration (gf_grace fl) = Some grace"
    using r by (auto split: sum.splits option.splits)
  obtain hashes where h: "resolve_hashes (ev_runner ev) False args = Ok hashes"
    and y: "after (open_client (cf_primary cfg) w) (\<lambda>_. gc_run ev
        (new_runner grace (gf_keep fl) (gf_physical fl) (gf_dry_run fl)) finish so co mx hashes) = (Ok x, w')"
    using after_Ok [OF r [unfolded m sum.case option.case]] by auto
  from after_Ok [OF y] show ?thesis using c m h by auto
qed

abbreviation repo_url :: "target \<Rightarrow> string" where
  "repo_url t \<equiv> ''https://'' @ tg_registry t @ ''/v2/'' @ tg_repo t @ ''/nix-cache''"

text \<open>C8: A pin protects: when \<open>noci pin\<close> has succeeded, the next \<open>noci gc\<close> on the same repository keeps the
  pinned entries and everything they reach through References, whatever its flags, as long as the pin
  lasts; the registry keeps tags and blobs, and the codecs read back what they wrote.\<close>

theorem pin_survives_gc:
  assumes pin: "run_pin ev opts ttl args w = (Ok pinned, w')"
    and h: "resolve_hashes (ev_runner ev) True args = Ok hashes" "h \<in> set hashes"
    and gc: "run_gc ev opts fl finish so co [] w' = (Ok (result, Some swept), w'')"
    and lasts: "\<And>secs i j. parse_ttl ttl = Inr secs \<Longrightarrow>
      \<not> root_expired (nt_clock (ev_net ev) j) \<lparr>rt_pinned_at = nt_clock (ev_net ev) i, rt_ttl = secs\<rparr>"
    and order: "\<And>r. sweep_order_ok so (runner_engine r pinned)"
    and cfg: "load (ev_outside ev) opts = Inr cfg"
    and tags: "keeps_tags (ev_net ev) (repo_url (cf_primary cfg))"
    and blobs: "keeps_blobs (ev_net ev) (ev_codecs ev) (tg_registry (cf_primary cfg)) (repo_url (cf_primary cfg))"
    and codec: "carries (ev_net ev) (ev_codecs ev) pinned"
    and token: "\<And>v. \<exists>token v'. get_oci_token (ev_net ev) ''pull'' v = (Inr token, v')"
    and cancel: "\<And>i. nt_cancelled (ev_net ev) i = None"
    and k: "k \<in> live (entries_of pinned) {h}"
  shows "gm_get (ix_entries swept) k = gm_get (ix_entries pinned) k"
proof -
  obtain secs w1 idx w2 idx1 w3 where p: "parse_ttl ttl = Inr secs" "open_client (cf_primary cfg) w = (Ok (), w1)"
    "fetch_index (ev_net ev) (ev_codecs ev) w1 = (Inr idx, w2)" "pin_all (ev_net ev) secs hashes idx w2 = (idx1, w3)"
    "push_index (ev_net ev) (ev_codecs ev) idx1 w3 = (Done pinned, w')"
    using run_pin_Ok [OF pin] cfg h(1) by auto
  obtain mx grace v1 where g: "open_client (cf_primary cfg) w' = (Ok (), v1)"
    "gc_run ev (new_runner grace (gf_keep fl) (gf_physical fl) (gf_dry_run fl)) finish so co mx [] v1 = (Ok (result, Some swept), w'')"
    using run_gc_Ok [OF gc] cfg by auto
  have up: "upgraded idx" by (rule fetch_index_upgraded [OF p(3)])
  note f = upgraded_fields [OF up]
  note a = pin_all_spec [OF p(4)] f
  obtain gen where pinned: "pinned = idx1\<lparr>ix_generated := gen\<rparr>" using push_index_is [OF p(5)] by blast
  have "upgraded pinned"
    unfolding pinned by (rule upgradedI) (use a in simp_all)
  have "sends {''GET''} w1 w2" by (rule sends_fetch_index [OF p(3)]) simp
  then have b3: "base_url w3 = repo_url (cf_primary cfg)" "registry_of w3 = tg_registry (cf_primary cfg)"
    using p(2) a by (auto simp: sends_def open_client_Ok new_transport_def)
  have v: "w_log v1 = w_log w' @ []" "base_url v1 = base_url w3"
    using g(1) b3(1) by (auto simp: open_client_Ok new_transport_def)
  have laws: "keeps_tags (ev_net ev) (base_url w3)" "keeps_blobs (ev_net ev) (ev_codecs ev) (registry_of w3) (base_url w3)"
    unfolding b3(1) unfolding b3(2) by (rule tags, rule blobs)
  have "\<exists>clk. fst (fetch_index (ev_net ev) (ev_codecs ev) v1) = Inr (upgrade clk pinned)"
    by (rule pushed_index_fetched [OF p(5) v(1) _ v(2) laws codec token cancel]) (simp add: reads_def)
  then have fetch: "fst (fetch_index (ev_net ev) (ev_codecs ev) v1) = Inr pinned"
    using \<open>upgraded pinned\<close> by (auto simp: upgraded_def)
  let ?r = "new_runner grace (gf_keep fl) (gf_physical fl) (gf_dry_run fl)"
  obtain now gen' where s: "result = sweep (runner_engine ?r pinned) so now mx"
    "swept = (apply_result result pinned)\<lparr>ix_generated := gen'\<rparr>" "now \<in> range (nt_clock (ev_net ev))"
    using gc_run_stored [OF g(2)] fetch by (auto simp: run_result_def gc_now_def read_clock_def)
  obtain i where root: "gm_get (ix_roots pinned) h = Some \<lparr>rt_pinned_at = nt_clock (ev_net ev) i, rt_ttl = secs\<rparr>"
    using a h(2) unfolding pinned by auto
  obtain j where "now = nt_clock (ev_net ev) j" using s(3) by blast
  with lasts [OF p(1), of j i] have "\<not> root_expired now \<lparr>rt_pinned_at = nt_clock (ev_net ev) i, rt_ttl = secs\<rparr>" by simp
  with root have "{h} \<subseteq> active_roots (runner_engine ?r pinned) now" by simp
  with k have "k \<in> live (entries_of pinned) (active_roots (runner_engine ?r pinned) now)" by (rule live_mono)
  then have "k \<notin> set (gr_evicted_keys result)"
    unfolding s(1) using sweep_spares [OF order] by simp
  then show ?thesis by (simp add: s(2) apply_result_get)
qed

section \<open>A registry that has everything\<close>

abbreviation vault :: "string \<Rightarrow> network" where
  "vault base \<equiv> archive base [] (\<lambda>_. ''t'')"

lemma vault_get: "\<exists>resp w'. transport_request (vault base) ''GET'' path None ctype w = (Inr resp, w')
    \<and> ha_status resp = 200 \<and> asked ''GET'' path w w'"
  using archive_request [of base "[]" "\<lambda>_. ''t''" "''GET''" path None ctype w] by auto

lemma vault_fetch:
  assumes "base_url w = base" and "upgraded idx"
  shows "\<exists>w'. fetch_index (vault base) (one_index_codec idx) w = (Inr idx, w') \<and> base_url w' = base"
proof -
  let ?cd = "one_index_codec idx"
  let ?m = "index_manifest (''sha256:'' @ zstd_magic @ ''i'') 5 []"
  obtain resp w1 where r: "transport_request (vault base) ''GET'' (''/manifests/'' @ ''noci-index'') None media_manifest w = (Inr resp, w1)"
    "ha_status resp = 200" and a1: "asked ''GET'' (''/manifests/'' @ ''noci-index'') w w1"
    using vault_get by blast
  have m: "fetch_manifest (vault base) ?cd ''noci-index'' w = (Inr ?m, w1)"
    using r by (simp add: fetch_manifest_def one_index_codec_def)
  have b1: "base_url w1 = base" unfolding asked_base [OF a1] by (rule assms(1))
  obtain w2 where d: "download_blob (vault base) (''sha256:'' @ zstd_magic @ ''i'') w1 = (Inr (zstd_magic @ ''i''), w2)"
    and a2: "asked ''GET'' (''/blobs/'' @ ''sha256:'' @ zstd_magic @ ''i'') w1 w2"
    using archive_blob [OF b1] by blast
  have b: "base_url w2 = base" unfolding asked_base [OF a2] by (rule b1)
  have "upgrade clk idx = idx" for clk using assms(2) by (simp add: upgraded_def)
  then have "decode_index (vault base) ?cd (zstd_magic @ ''i'') w2
      = (Inr idx, w2\<lparr>w_ticks := w_ticks w2 + length (ix_gc_roots_v1 idx)\<rparr>)"
    by (simp add: decode_index_def decompress_def one_index_codec_def upgrade_now_def zstd_magic_def)
  then have "fetch_index (vault base) ?cd w = (Inr idx, w2\<lparr>w_ticks := w_ticks w2 + length (ix_gc_roots_v1 idx)\<rparr>)"
    unfolding fetch_index_def m prod.case sum.case using d by (simp add: index_manifest_def)
  with b show ?thesis by simp
qed

definition pinned_chain :: cache_index where
  "pinned_chain = chain_index\<lparr>ix_roots := Some (fmap_of_list [(chain_lib, \<lparr>rt_pinned_at = 1, rt_ttl = 0\<rparr>)]), ix_generated := 1\<rparr>"

definition bare_outside :: outside where
  "bare_outside = \<lparr>os_getenv = (\<lambda>_. []), os_read_file = (\<lambda>_. None), os_git_remote = None, yaml_noci = (\<lambda>_. None),
     yaml_gh_hosts = (\<lambda>_. None), json_docker_auths = (\<lambda>_. None)\<rparr>"

definition ro_options :: config_options where
  "ro_options = \<lparr>op_registry = ''r'', op_repo = ''o'', op_token = [], op_extra = []\<rparr>"

definition ro_target :: target where
  "ro_target = \<lparr>tg_registry = ''r'', tg_repo = ''o'', tg_token = []\<rparr>"

definition chain_env :: env where
  "chain_env = \<lparr>ev_outside = bare_outside, ev_runner = fake_as_runner id (Inl []) new_fake_runner,
     ev_net = vault (repo_url ro_target), ev_codecs = one_index_codec pinned_chain\<rparr>"

definition sweep_flags :: gc_flags where
  "sweep_flags = \<lparr>gf_max_size = [], gf_grace = ''0s'', gf_physical = False, gf_keep = 0, gf_dry_run = False\<rparr>"

definition chain_sweep_order :: sweep_order where
  "chain_sweep_order = (let ks = [chain_app, chain_lib] in
     \<lparr>so_sum = ks, so_roots = [chain_lib], so_part = ks, so_group = ks, so_bases = [''app'', ''lib''], so_cand = ks\<rparr>)"

lemma chain_env_sel [simp]:
  "ev_outside chain_env = bare_outside" "ev_net chain_env = vault (repo_url ro_target)"
  "ev_codecs chain_env = one_index_codec pinned_chain"
  by (simp_all add: chain_env_def)

lemma ro_load: "load bare_outside ro_options = Inr \<lparr>cf_primary = ro_target, cf_registries = [ro_target]\<rparr>"
  by (simp add: load_def ro_options_def ro_target_def bare_outside_def resolve_registry_def resolve_repo_def
      resolve_token_def or_else_def read_gh_cli_token_def read_docker_config_token_def user_home_dir_def
      resolve_registries_def load_noci_config_def config_file_paths_def Let_def)

lemma pinned_chain_entries [simp]: "ix_entries pinned_chain = ix_entries chain_index"
  by (simp add: pinned_chain_def)

lemma pinned_chain_roots [simp]: "roots_of pinned_chain = fmap_of_list [(chain_lib, \<lparr>rt_pinned_at = 1, rt_ttl = 0\<rparr>)]"
  by (simp add: pinned_chain_def)

lemma pinned_chain_upgraded: "upgraded pinned_chain"
proof (rule upgradedI)
  have "backfill_item (sample_item nm sz u d refs) = sample_item nm sz u d refs" if "u \<noteq> 0" "d \<noteq> 0" for nm sz u d refs
    using that by (simp add: backfill_defs sample_item_def is_zero_def)
  then show "map_option (fmmap backfill_item) (ix_entries pinned_chain) = ix_entries pinned_chain"
    by (auto simp: chain_index_def intro!: fmap_ext)
qed (simp_all add: pinned_chain_def chain_index_def new_index_def)

lemma ro_client: "\<exists>w'. open_client ro_target w = (Ok (), w') \<and> base_url w' = repo_url ro_target"
  by (simp add: open_client_def ro_target_def new_transport_def)

lemma chain_hash: "resolve_hashes nx b [chain_lib] = Ok [chain_lib]"
proof -
  have h: "nix_hash_regex chain_lib" by code_simp
  have "chain_lib \<noteq> []" by (simp add: chain_lib_def)
  then show ?thesis using nix_hash_regexD(6) [OF h] by (simp add: resolve_arg_def parse_nix_hash_id [OF h])
qed

lemma chain_pin: "\<exists>w'. run_pin chain_env ro_options ''0'' [chain_lib] idle = (Ok pinned_chain, w')"
proof -
  obtain w1 where c: "open_client ro_target idle = (Ok (), w1)" "base_url w1 = repo_url ro_target"
    using ro_client by blast
  obtain w2 where f: "fetch_index (vault (repo_url ro_target)) (one_index_codec pinned_chain) w1 = (Inr pinned_chain, w2)"
    using vault_fetch [OF c(2) pinned_chain_upgraded] by blast
  have t: "parse_ttl ''0'' = Inr 0" by code_simp
  have "pin_root chain_lib 0 1 pinned_chain = pinned_chain"
    by (simp add: pin_root_def pinned_chain_def Let_def fmap_ext)
  then obtain w3 where p: "pin_all (vault (repo_url ro_target)) 0 [chain_lib] pinned_chain w2 = (pinned_chain, w3)"
    by (simp add: read_clock_def)
  obtain w4 where "push_index (vault (repo_url ro_target)) (one_index_codec pinned_chain) pinned_chain w3
      = (Done (pinned_chain\<lparr>ix_generated := 1\<rparr>), w4)"
    using archive_push by blast
  moreover have "pinned_chain\<lparr>ix_generated := 1\<rparr> = pinned_chain" by (simp add: pinned_chain_def)
  ultimately have s: "stored chain_env pinned_chain w3 = (Ok pinned_chain, w4)" by (simp add: stored_Ok)
  have "pin_index chain_env 0 [chain_lib] pinned_chain w2 = (Ok pinned_chain, w4)"
    unfolding pin_index_def chain_env_sel p prod.case by (rule s)
  then have "with_index chain_env ro_target (pin_index chain_env 0 [chain_lib]) idle = (Ok pinned_chain, w4)"
    unfolding with_index_Ok using c f by auto
  then show ?thesis
    unfolding run_pin_def with_config_Ok by (simp add: ro_load t chain_hash del: resolve_hashes.simps)
qed

lemma chain_sweep_ok: "sweep_order_ok chain_sweep_order (runner_engine r pinned_chain)"
proof -
  have b: "base_package_name ''app-1.0'' = ''app''" "base_package_name ''lib-1.0'' = ''lib''" by code_simp+
  have "fmdom' (roots_of pinned_chain) = {chain_lib}" by (simp add: fmdom'_alt_def fset_of_list.rep_eq)
  then show ?thesis
    by (simp add: sweep_order_ok_def chain_sweep_order_def enumerates_def name_at_def sample_item_def b Let_def
        del: pinned_chain_roots)
qed

lemma chain_swept:
  "chain_app \<in> set (gr_evicted_keys (sweep (runner_engine (new_runner 0 0 False False) pinned_chain) chain_sweep_order 1 0))"
proof -
  let ?e = "runner_engine (new_runner 0 0 False False) pinned_chain"
  have keep: "en_keep ?e = 0" by (simp add: runner_engine_def)
  have "chain_app \<notin> live (entries_of chain_index) {chain_lib}"
  proof
    assume "chain_app \<in> live (entries_of chain_index) {chain_lib}"
    then show False
    proof cases
      case (live_ref h)
      have "h = chain_app \<or> h = chain_lib" using live_nodes [OF live_ref(1)] by simp
      moreover have "refs_of (entries_of chain_index) chain_lib = {}" by (simp add: refs_of_def ref_hashes_def sample_item_def)
      ultimately show False using live_ref(2) chain_refs by auto
    qed simp
  qed
  moreover have "active_roots ?e 1 \<subseteq> {chain_lib}" by (auto simp: gm_get_def pinned_chain_def split: if_splits)
  ultimately have "chain_app \<notin> live (entries_of (en_index ?e)) (active_roots ?e 1)"
    using live_mono by fastforce
  moreover have "\<not> in_grace ?e 1 chain_app"
    by (simp add: in_grace_def uploaded_at_def sample_item_def time_sub_def runner_engine_def max64_def min64_def)
  ultimately have "chain_app \<notin> protected ?e 1 (sweep_roots ?e chain_sweep_order 1)"
    unfolding protected_active [OF chain_sweep_ok] by simp
  moreover have "ss_marked (sweep_marks ?e chain_sweep_order 1) = protected ?e 1 (sweep_roots ?e chain_sweep_order 1)"
    using keep by (simp add: sweep_marks_keep keep_phase_def grace_marks_marked [OF chain_sweep_ok])
  ultimately show ?thesis
    using sweep_evicted_all [OF chain_sweep_ok, of 0 "new_runner 0 0 False False" 1] by simp
qed

lemma chain_gc:
  "\<exists>result swept w'. run_gc chain_env ro_options sweep_flags id chain_sweep_order chain_order [] w = (Ok (result, Some swept), w')"
proof -
  let ?r = "new_runner 0 0 False False"
  let ?res = "sweep (runner_engine ?r pinned_chain) chain_sweep_order 1 0"
  obtain w1 where c: "open_client ro_target w = (Ok (), w1)" "base_url w1 = repo_url ro_target"
    using ro_client by blast
  obtain w2 where f: "fetch_index (vault (repo_url ro_target)) (one_index_codec pinned_chain) w1 = (Inr pinned_chain, w2)"
    using vault_fetch [OF c(2) pinned_chain_upgraded] by blast
  obtain w3 where n: "gc_now (vault (repo_url ro_target)) [] w2 = (1, w3)" by (simp add: gc_now_def read_clock_def)
  obtain idx w4 where p: "push_index (vault (repo_url ro_target)) (one_index_codec pinned_chain) (apply_result ?res pinned_chain) w3
      = (Done idx, w4)"
    using archive_push by blast
  have res: "run_result (runner_engine ?r pinned_chain) chain_sweep_order chain_order 1 0 [] = ?res" by (simp add: run_result_def)
  have "gr_evicted_count ?res \<noteq> 0"
    using run_result_count [of "runner_engine ?r pinned_chain" chain_sweep_order chain_order 1 0 "[]"] chain_swept
    unfolding res by auto
  then have g: "gc_run chain_env ?r id chain_sweep_order chain_order 0 [] w1 = (Ok (?res, Some idx), w4)"
    unfolding gc_run_def chain_env_sel f prod.case sum.case gc_index_def n Let_def res p go_outcome.case by simp
  have "parse_size [] = Inr 0" "parse_duration ''0s'' = Some 0" by code_simp+
  then have "run_gc chain_env ro_options sweep_flags id chain_sweep_order chain_order [] w = (Ok (?res, Some idx), w4)"
    unfolding run_gc_def with_config_def by (simp add: ro_load sweep_flags_def c(1) g)
  then show ?thesis by blast
qed

theorem pin_survives_gc_witness:
  "\<exists>w' result swept w''. run_pin chain_env ro_options ''0'' [chain_lib] idle = (Ok pinned_chain, w')
    \<and> run_gc chain_env ro_options sweep_flags id chain_sweep_order chain_order [] w' = (Ok (result, Some swept), w'')
    \<and> gm_get (ix_entries swept) chain_lib = gm_get (ix_entries pinned_chain) chain_lib"
proof -
  obtain w' where p: "run_pin chain_env ro_options ''0'' [chain_lib] idle = (Ok pinned_chain, w')" using chain_pin by blast
  obtain result swept w'' where g: "run_gc chain_env ro_options sweep_flags id chain_sweep_order chain_order [] w'
      = (Ok (result, Some swept), w'')"
    using chain_gc by blast
  have k: "chain_lib \<in> live (entries_of pinned_chain) {chain_lib}" by (rule live_root) simp_all
  have t: "parse_ttl ''0'' = Inr 0" by code_simp
  have "carries (vault (repo_url ro_target)) (one_index_codec pinned_chain) pinned_chain"
    by (simp add: carries_def one_index_codec_def zstd_magic_def json_image_def gm_keys_def)
  moreover have "keeps_blobs (vault (repo_url ro_target)) (one_index_codec pinned_chain) (tg_registry ro_target) (repo_url ro_target)"
    by (rule archive_blobs) (simp add: one_index_codec_def)
  ultimately have "gm_get (ix_entries swept) chain_lib = gm_get (ix_entries pinned_chain) chain_lib"
    using archive_tags archive_token
    by (intro pin_survives_gc [OF p chain_hash _ g _ chain_sweep_ok _ _ _ _ _ _ k, of "\<lparr>cf_primary = ro_target, cf_registries = [ro_target]\<rparr>"])
      (simp_all add: t root_expired_def ro_load one_index_codec_def)
  with p g show ?thesis by blast
qed

end
