(* ===== verification/App_Index_Props.thy ===== *)
theory App_Index_Props
  imports App_Props
begin

text \<open>
  What the index commands do to the index: a dry run only reads and tells what the run would do,
  \<open>index clean\<close> drops what fails its check, \<open>repair\<close> adds what is missing, and the search lists what
  matches.
\<close>

section \<open>A collection on the registry is a run\<close>

text \<open>The two readings of \<open>Runner.Run\<close>, on a client of the registry and on an abstract store, agree.\<close>

lemma gc_run_refines:
  assumes "gc_run ev r finish so co mx ts w = (Ok (result, kept), w')"
  shows "\<exists>idx now calls. fst (fetch_index (ev_net ev) (ev_codecs ev) w) = Inr idx
    \<and> run r (Inr (Some idx)) None finish so co now mx ts = (calls, RunOk result)
    \<and> (case kept of
         None \<Rightarrow> calls = [FetchIndex]
       | Some s \<Rightarrow> \<exists>i gen. take 2 calls = [FetchIndex, PushIndex i] \<and> s = i\<lparr>ix_generated := gen\<rparr>
           \<and> drop 2 calls = (if rn_physical r \<and> gr_evicted_keys result \<noteq> []
                              then physical_delete (finish (gr_evicted_keys result)) else []))"
proof -
  obtain idx w1 where f: "fetch_index (ev_net ev) (ev_codecs ev) w = (Inr idx, w1)"
    and g: "gc_index ev r finish so co mx ts idx w1 = (Ok (result, kept), w')"
    using assms by (auto simp: gc_run_def split: prod.splits sum.splits)
  obtain now w2 where n: "gc_now (ev_net ev) ts w1 = (now, w2)" by fastforce
  let ?r = "run_result (runner_engine r idx) so co now mx ts"
  note g1 = g [unfolded gc_index_def n prod.case Let_def]
  note run = run_def [of r "Inr (Some idx)" None finish so co now mx ts, unfolded sum.case runner_engine_eq option.map option.case Let_def]
  show ?thesis
  proof (cases "gr_evicted_count ?r = 0 \<or> rn_dry_run r")
    case True
    then have "kept = None" "result = ?r" using g1 by auto
    with True f show ?thesis by (intro exI [of _ idx] exI [of _ now]) (auto simp: run)
  next
    case False
    then obtain idx' w3 where p: "push_index (ev_net ev) (ev_codecs ev) (apply_result ?r idx) w2 = (Done idx', w3)"
      using g1 by (auto split: prod.splits go_outcome.splits)
    have r: "result = ?r" "kept = Some idx'"
      using g1 False unfolding p by (auto split: if_splits prod.splits)
    obtain gen where "idx' = (apply_result ?r idx)\<lparr>ix_generated := gen\<rparr>" using push_index_is [OF p] by blast
    with False f r show ?thesis
      by (intro exI [of _ idx] exI [of _ now]) (auto simp: run)
  qed
qed

section \<open>Dry runs\<close>

text \<open>Between two states only GET requests were sent, to whatever repository.\<close>

definition only_gets :: "world \<Rightarrow> world \<Rightarrow> bool" where
  "only_gets w w' \<longleftrightarrow> (\<exists>new. w_log w' = w_log w @ new \<and> list_all (\<lambda>rq. oq_method rq = ''GET'') new)"

lemma only_gets_refl [simp]: "only_gets w w"
  by (simp add: only_gets_def)

lemma only_gets_trans: "only_gets w w1 \<Longrightarrow> only_gets w1 w2 \<Longrightarrow> only_gets w w2"
  by (fastforce simp: only_gets_def)

lemma only_gets_sends: "sends {''GET''} w w' \<Longrightarrow> only_gets w w'"
  by (auto simp: sends_def only_gets_def list_all_iff)

lemma only_gets_open: "open_client t w = (r, w') \<Longrightarrow> only_gets w w'"
  by (auto simp: open_client_def only_gets_def split: if_splits)

lemma only_gets_clock: "only_gets w (snd (read_clock nt w))"
  by (simp add: only_gets_def read_clock_def)

lemma only_gets_index: "fetch_index nt cd w = (r, w') \<Longrightarrow> only_gets w w'"
  by (rule only_gets_sends) (rule sends_fetch_index, assumption, simp)

text \<open>A command that opens the client and fetches the index only reads when the rest of it does, and two
  such commands differ only in the rest.\<close>

lemma with_index_gets:
  assumes "\<And>idx v. only_gets v (snd (f idx v))"
  shows "only_gets w (snd (with_index ev t f w))"
proof -
  obtain r w1 where o: "open_client t w = (r, w1)" by fastforce
  obtain i w2 where f: "fetch_index (ev_net ev) (ev_codecs ev) w1 = (i, w2)" by fastforce
  have "only_gets w w2" by (rule only_gets_trans [OF only_gets_open [OF o] only_gets_index [OF f]])
  with only_gets_open [OF o] only_gets_trans [OF _ assms] show ?thesis
    by (cases r; cases i) (simp_all add: with_index_def o fetched_def f)
qed

lemma with_index_preview:
  assumes "fst (with_index ev t f w) = Ok x" and "\<And>idx v. fst (f idx v) = Ok x \<Longrightarrow> fst (g idx v) = Ok y"
  shows "fst (with_index ev t g w) = Ok y"
proof -
  obtain r w1 where o: "open_client t w = (r, w1)" by fastforce
  obtain i w2 where f: "fetch_index (ev_net ev) (ev_codecs ev) w1 = (i, w2)" by fastforce
  from assms show ?thesis
    by (cases r; cases i) (simp_all add: with_index_def o fetched_def f)
qed

lemma with_config_gets:
  "(\<And>cfg. only_gets w (snd (f cfg w))) \<Longrightarrow> only_gets w (snd (with_config ev opts f w))"
  by (simp add: with_config_def split: sum.split)

lemma with_config_preview:
  "fst (with_config ev opts f w) = Ok x \<Longrightarrow> (\<And>cfg. fst (f cfg w) = Ok x \<Longrightarrow> fst (g cfg w) = Ok y)
    \<Longrightarrow> fst (with_config ev opts g w) = Ok y"
  by (simp add: with_config_def split: sum.splits)

subsection \<open>The collection\<close>

lemma gc_run_dry_gets: "rn_dry_run r \<Longrightarrow> only_gets w (snd (gc_run ev r finish so co mx ts w))"
proof -
  assume dry: "rn_dry_run r"
  obtain i w1 where f: "fetch_index (ev_net ev) (ev_codecs ev) w = (i, w1)" by fastforce
  obtain now w2 where n: "gc_now (ev_net ev) ts w1 = (now, w2)" by fastforce
  then have "only_gets w1 w2" using only_gets_clock [of w1 "ev_net ev"] by (auto simp: gc_now_def split: if_splits)
  with only_gets_index [OF f] have "only_gets w w2" by (rule only_gets_trans)
  with dry only_gets_index [OF f] show ?thesis
    by (cases i) (simp_all add: gc_run_def f gc_index_def n Let_def)
qed

lemma gc_run_preview:
  assumes "fst (gc_run ev (new_runner grace keep physical False) finish so co mx ts w) = Ok (result, kept)"
  shows "fst (gc_run ev (new_runner grace keep physical True) finish so co mx ts w) = Ok (result, None)"
proof -
  let ?r = "new_runner grace keep physical"
  have e: "runner_engine (?r True) idx = runner_engine (?r False) idx" for idx
    by (simp add: runner_engine_def new_runner_def)
  obtain i w1 where f: "fetch_index (ev_net ev) (ev_codecs ev) w = (i, w1)" by fastforce
  obtain now w2 where n: "gc_now (ev_net ev) ts w1 = (now, w2)" by fastforce
  obtain idx where i: "i = Inr idx" using assms f by (cases i) (simp_all add: gc_run_def)
  have "result = run_result (runner_engine (?r False) idx) so co now mx ts"
    using assms unfolding gc_run_def f i gc_index_def prod.case sum.case n Let_def
    by (auto split: if_splits prod.splits go_outcome.splits)
  moreover have "rn_dry_run (?r True)" by (simp add: new_runner_def)
  ultimately show ?thesis
    by (simp add: gc_run_def f i gc_index_def n e Let_def)
qed

lemma run_gc_dry_gets: "gf_dry_run fl \<Longrightarrow> only_gets w (snd (run_gc ev opts fl finish so co args w))"
proof -
  assume dry: "gf_dry_run fl"
  have gc: "only_gets w (snd (after (open_client t w) (\<lambda>_. gc_run ev (new_runner grace (gf_keep fl) (gf_physical fl) (gf_dry_run fl))
      finish so co mx hashes)))" for t grace mx hashes
  proof -
    obtain r w1 where o: "open_client t w = (r, w1)" by fastforce
    have "only_gets w (snd (gc_run ev (new_runner grace (gf_keep fl) (gf_physical fl) (gf_dry_run fl)) finish so co mx hashes w1))"
      by (rule only_gets_trans [OF only_gets_open [OF o] gc_run_dry_gets]) (simp add: dry new_runner_def)
    with only_gets_open [OF o] show ?thesis by (cases r) (simp_all add: o)
  qed
  show ?thesis
    unfolding run_gc_def
    by (rule with_config_gets, cases "resolve_hashes (ev_runner ev) False args")
      (simp_all add: gc split: sum.split option.split)
qed

lemma run_gc_preview:
  assumes "fst (run_gc ev opts (fl\<lparr>gf_dry_run := False\<rparr>) finish so co args w) = Ok (result, kept)"
  shows "fst (run_gc ev opts (fl\<lparr>gf_dry_run := True\<rparr>) finish so co args w) = Ok (result, None)"
  using assms unfolding run_gc_def
proof (rule with_config_preview)
  fix cfg
  obtain r w1 where o: "open_client (cf_primary cfg) w = (r, w1)" by fastforce
  assume "fst (case parse_size (gf_max_size (fl\<lparr>gf_dry_run := False\<rparr>)) of Inl e \<Rightarrow> (Err (BadMaxSize e), w)
      | Inr max_bytes \<Rightarrow> (case parse_duration (gf_grace (fl\<lparr>gf_dry_run := False\<rparr>)) of
          None \<Rightarrow> (Err (BadGracePeriod (gf_grace (fl\<lparr>gf_dry_run := False\<rparr>))), w)
        | Some grace \<Rightarrow> after (resolve_hashes (ev_runner ev) False args, w) (\<lambda>hashes w1.
            after (open_client (cf_primary cfg) w1) (\<lambda>_. gc_run ev (new_runner grace (gf_keep (fl\<lparr>gf_dry_run := False\<rparr>))
              (gf_physical (fl\<lparr>gf_dry_run := False\<rparr>)) (gf_dry_run (fl\<lparr>gf_dry_run := False\<rparr>)))
              finish so co max_bytes hashes)))) = Ok (result, kept)"
  then show "fst (case parse_size (gf_max_size (fl\<lparr>gf_dry_run := True\<rparr>)) of Inl e \<Rightarrow> (Err (BadMaxSize e), w)
      | Inr max_bytes \<Rightarrow> (case parse_duration (gf_grace (fl\<lparr>gf_dry_run := True\<rparr>)) of
          None \<Rightarrow> (Err (BadGracePeriod (gf_grace (fl\<lparr>gf_dry_run := True\<rparr>))), w)
        | Some grace \<Rightarrow> after (resolve_hashes (ev_runner ev) False args, w) (\<lambda>hashes w1.
            after (open_client (cf_primary cfg) w1) (\<lambda>_. gc_run ev (new_runner grace (gf_keep (fl\<lparr>gf_dry_run := True\<rparr>))
              (gf_physical (fl\<lparr>gf_dry_run := True\<rparr>)) (gf_dry_run (fl\<lparr>gf_dry_run := True\<rparr>)))
              finish so co max_bytes hashes)))) = Ok (result, None)"
    by (cases r; cases "resolve_hashes (ev_runner ev) False args")
      (auto simp: o gc_run_preview split: sum.splits option.splits)
qed

subsection \<open>The checks of the index\<close>

lemma only_gets_check: "only_gets w (snd (check_entries nt cd hs w))"
proof (induction hs arbitrary: w)
  case (Cons h hs)
  obtain r w1 where c: "check_entry nt cd h w = (r, w1)" by fastforce
  obtain m w2 where m: "fetch_manifest nt cd h w = (m, w2)" by fastforce
  have "w1 = w2" using c m by (auto simp: check_entry_def split: sum.splits if_splits)
  moreover have "only_gets w w2" by (rule only_gets_sends [OF sends_fetch_manifest [OF m]]) simp
  moreover obtain rest w3 where "check_entries nt cd hs w1 = (rest, w3)" by fastforce
  ultimately show ?case using only_gets_trans [OF _ Cons.IH, of w w1] c by simp
qed simp

lemma clean_dry_gets: "only_gets w (snd (clean_index ev po True del hashes idx w))"
  using only_gets_check [of w "ev_net ev" "ev_codecs ev" "processed po hashes"]
  by (cases "check_entries (ev_net ev) (ev_codecs ev) (processed po hashes) w") (simp add: clean_index_def)

lemma clean_preview:
  "fst (clean_index ev po False del hashes idx w) = Ok rep
    \<Longrightarrow> fst (clean_index ev po True del hashes idx w) = Ok (rep\<lparr>cl_index := None, cl_undeleted := 0\<rparr>)"
  by (auto simp: clean_index_def after_def split: prod.splits if_splits command.splits)

lemma only_gets_page:
  assumes "tags_page nt cd path w = (r, w')"
  shows "only_gets w w'"
proof -
  obtain a w1 where t: "transport_request nt ''GET'' path None [] w = (a, w1)" by fastforce
  have "w' = w1" using assms unfolding tags_page_def t by (auto simp: Let_def split: sum.splits if_splits)
  then show ?thesis using only_gets_sends [OF sends_request [OF t]] by simp
qed

lemma only_gets_tags: "tag_pages nt cd path w r w' \<Longrightarrow> only_gets w w'"
  by (induction rule: tag_pages.induct) (auto dest: only_gets_page intro: only_gets_trans)

text \<open>The part of a repair before its tags: the same whether the run is dry.\<close>

lemma repair_start_gets: "only_gets w (snd (with_config ev opts (\<lambda>cfg. with_index ev (cf_primary cfg) (\<lambda>idx w1. (Ok idx, w1))) w))"
  by (intro with_config_gets with_index_gets) simp

lemma run_repair_dry_gets:
  assumes "run_repair ev opts po True w = Some (r, w')"
  shows "only_gets w w'"
proof -
  obtain s w1 where s: "with_config ev opts (\<lambda>cfg. with_index ev (cf_primary cfg) (\<lambda>idx w1. (Ok idx, w1))) w = (s, w1)"
    by fastforce
  have g: "only_gets w w1" using repair_start_gets [of w ev opts] s by simp
  show ?thesis
  proof (cases s)
    case (Ok idx)
    with assms s have rw: "repair_with ev po True idx w1 = Some (r, w')" by (simp add: run_repair_def)
    then obtain tags w2 where t: "list_tags (ev_net ev) (ev_codecs ev) w1 = Some (tags, w2)" and "w' = w2"
      by (auto simp: repair_with_def repair_tags_def Let_def split: option.splits sum.splits)
    moreover have "only_gets w1 w2"
      using t pages_tags_from [of "ev_net ev" "ev_codecs ev" "''/tags/list''" "[]" w1 "(tags, w2)"] only_gets_tags
      by (auto simp: list_tags_def)
    ultimately show ?thesis using only_gets_trans [OF g] by blast
  qed (use assms s g in \<open>simp_all add: run_repair_def\<close>)
qed

lemma run_repair_preview:
  assumes "run_repair ev opts po False w = Some (Ok rep, w')"
  shows "\<exists>w''. run_repair ev opts po True w
    = Some (Ok \<lparr>rr_missing = rr_missing rep, rr_repaired = 0, rr_failed = 0, rr_index = None\<rparr>, w'')"
proof -
  obtain s w1 where s: "with_config ev opts (\<lambda>cfg. with_index ev (cf_primary cfg) (\<lambda>idx w1. (Ok idx, w1))) w = (s, w1)"
    by fastforce
  obtain idx where o: "s = Ok idx" using assms s by (cases s) (simp_all add: run_repair_def)
  with assms s have rw: "repair_with ev po False idx w1 = Some (Ok rep, w')" by (simp add: run_repair_def)
  then obtain tags w2 where t: "list_tags (ev_net ev) (ev_codecs ev) w1 = Some (Inr tags, w2)"
    and r: "repair_tags ev po False idx tags w2 = (Ok rep, w')"
    by (auto simp: repair_with_def split: option.splits sum.splits)
  have "rr_missing rep = repair_candidates idx tags"
    using r by (auto simp: repair_tags_def Let_def after_def split: if_splits prod.splits option.splits command.splits)
  then show ?thesis
    by (simp add: run_repair_def s o repair_with_def t repair_tags_def)
qed

text \<open>C9: A dry run changes nothing and tells the truth: \<open>noci gc\<close>, \<open>index clean\<close> and \<open>repair\<close> with \<open>--dry-run\<close>
  send GET requests only, whatever the registry answers; and whenever the run without the flag would
  succeed from the same state, the dry run succeeds with the same report, for the collection the keys
  and sizes it would evict, for the others the corrupted and the missing hashes, and stores no index.\<close>

theorem dry_runs_preview:
  shows "only_gets w (snd (run_gc ev opts (fl\<lparr>gf_dry_run := True\<rparr>) finish so co args w))
    \<and> only_gets w (snd (run_clean ev opts po True del hashes w))
    \<and> (\<forall>r w'. run_repair ev opts po True w = Some (r, w') \<longrightarrow> only_gets w w')
    \<and> (\<forall>result kept. fst (run_gc ev opts (fl\<lparr>gf_dry_run := False\<rparr>) finish so co args w) = Ok (result, kept)
         \<longrightarrow> fst (run_gc ev opts (fl\<lparr>gf_dry_run := True\<rparr>) finish so co args w) = Ok (result, None))
    \<and> (\<forall>rep. fst (run_clean ev opts po False del hashes w) = Ok rep
         \<longrightarrow> fst (run_clean ev opts po True del hashes w) = Ok (rep\<lparr>cl_index := None, cl_undeleted := 0\<rparr>))
    \<and> (\<forall>rep w'. run_repair ev opts po False w = Some (Ok rep, w')
         \<longrightarrow> (\<exists>w''. run_repair ev opts po True w
               = Some (Ok \<lparr>rr_missing = rr_missing rep, rr_repaired = 0, rr_failed = 0, rr_index = None\<rparr>, w'')))"
proof (intro conjI allI impI)
  show "only_gets w (snd (run_gc ev opts (fl\<lparr>gf_dry_run := True\<rparr>) finish so co args w))"
    by (rule run_gc_dry_gets) simp
  show "only_gets w (snd (run_clean ev opts po True del hashes w))"
    unfolding run_clean_def by (intro with_config_gets with_index_gets clean_dry_gets)
  show "fst (run_clean ev opts po True del hashes w) = Ok (rep\<lparr>cl_index := None, cl_undeleted := 0\<rparr>)"
    if "fst (run_clean ev opts po False del hashes w) = Ok rep" for rep
    using that unfolding run_clean_def
    by (rule with_config_preview) (erule with_index_preview, rule clean_preview)
qed (rule run_repair_dry_gets run_gc_preview run_repair_preview, assumption)+

definition all_started :: pool where
  "all_started = \<lparr>po_started = 8, po_finish = rev\<rparr>"

text \<open>A collection that evicts.\<close>

theorem dry_runs_preview_witness:
  "\<exists>result swept. fst (run_gc chain_env ro_options sweep_flags id chain_sweep_order chain_order [] idle) = Ok (result, Some swept)
    \<and> fst (run_gc chain_env ro_options (sweep_flags\<lparr>gf_dry_run := True\<rparr>) id chain_sweep_order chain_order [] idle) = Ok (result, None)"
proof -
  obtain result swept w' where g: "run_gc chain_env ro_options sweep_flags id chain_sweep_order chain_order [] idle
      = (Ok (result, Some swept), w')"
    using chain_gc by blast
  have "sweep_flags\<lparr>gf_dry_run := False\<rparr> = sweep_flags" by (simp add: sweep_flags_def)
  with g have "fst (run_gc chain_env ro_options (sweep_flags\<lparr>gf_dry_run := False\<rparr>) id chain_sweep_order chain_order [] idle)
      = Ok (result, Some swept)" by simp
  with dry_runs_preview [of idle chain_env ro_options sweep_flags id chain_sweep_order chain_order "[]" all_started False "[]"] g
  show ?thesis by (metis fst_conv)
qed

section \<open>Clean\<close>

lemma drop_entries_get:
  "gm_get (ix_entries (foldl drop_entry idx hs)) k = (if k \<in> set hs then None else gm_get (ix_entries idx) k)
    \<and> gm_get (ix_roots (foldl drop_entry idx hs)) k = (if k \<in> set hs then None else gm_get (ix_roots idx) k)"
  by (induction hs arbitrary: idx) (auto simp: drop_entry_def)

lemma check_entries_spec:
  "fst ` set (fst (check_entries nt cd hs w)) \<subseteq> set hs
    \<and> list_all (\<lambda>(h, reason). \<exists>v. fst (check_entry nt cd h v) = Some reason) (fst (check_entries nt cd hs w))
    \<and> (\<forall>h\<in>set hs. h \<notin> fst ` set (fst (check_entries nt cd hs w)) \<longrightarrow> (\<exists>v. fst (check_entry nt cd h v) = None))"
proof (induction hs arbitrary: w)
  case (Cons h hs)
  obtain r w1 where c: "check_entry nt cd h w = (r, w1)" by fastforce
  obtain rest w2 where rest: "check_entries nt cd hs w1 = (rest, w2)" by fastforce
  have "\<exists>v. fst (check_entry nt cd h v) = r" using c by (intro exI [of _ w]) simp
  with Cons.IH [of w1] c rest show ?case by (cases r) (auto simp del: split_paired_Ex)
qed simp

text \<open>C25: \<open>noci index clean\<close> drops an entry, with its pin, exactly when its check has failed, and a check
  fails also when the manifest could not be fetched for whatever reason; all other entries and pins
  stay as they were.\<close>

theorem clean_drops_failed:
  assumes "clean_index ev po dry_run del hashes idx w = (Ok rep, w')" and "cl_index rep = Some idx'"
    and "\<And>xs. set (po_finish po xs) = set xs" and "length hashes \<le> po_started po"
  shows "fst ` set (cl_corrupted rep) \<subseteq> set hashes
    \<and> gm_get (ix_entries idx') k = (if k \<in> fst ` set (cl_corrupted rep) then None else gm_get (ix_entries idx) k)
    \<and> gm_get (ix_roots idx') k = (if k \<in> fst ` set (cl_corrupted rep) then None else gm_get (ix_roots idx) k)
    \<and> (\<forall>h\<in>set hashes. \<exists>v. fst (check_entry (ev_net ev) (ev_codecs ev) h v) = map_of (cl_corrupted rep) h)"
proof -
  let ?nt = "ev_net ev" and ?cd = "ev_codecs ev"
  obtain bad w1 where c: "check_entries ?nt ?cd (processed po hashes) w = (bad, w1)" by fastforce
  obtain now w2 where t: "read_clock ?nt w1 = (now, w2)" by fastforce
  note cl = assms(1) [unfolded clean_index_def c t prod.case]
  have ne: "\<not> (bad = [] \<or> dry_run)" using cl assms(2) by auto
  obtain i w3 where s: "stored ev ((foldl drop_entry idx (map fst bad))\<lparr>ix_generated := now\<rparr>) w2 = (Ok i, w3)"
    and r: "rep = \<lparr>cl_corrupted = bad, cl_index = Some i, cl_undeleted = cl_undeleted rep\<rparr>"
    using cl ne by (auto split: prod.splits dest!: after_Ok)
  obtain gen where i: "i = (foldl drop_entry idx (map fst bad))\<lparr>ix_generated := gen\<rparr>"
    using push_index_is s unfolding stored_Ok by fastforce
  have idx': "idx' = i" using r assms(2) by (metis clean_report.select_convs(2) option.inject)
  have p: "set (processed po hashes) = set hashes" using assms(3,4) by (simp add: processed_def)
  have spec: "fst ` set bad \<subseteq> set hashes"
    "list_all (\<lambda>(h, reason). \<exists>v. fst (check_entry ?nt ?cd h v) = Some reason) bad"
    "\<forall>h\<in>set hashes. h \<notin> fst ` set bad \<longrightarrow> (\<exists>v. fst (check_entry ?nt ?cd h v) = None)"
    using check_entries_spec [of ?nt ?cd "processed po hashes" w] unfolding c p by simp_all
  have "\<exists>v. fst (check_entry ?nt ?cd h v) = map_of bad h" if "h \<in> set hashes" for h
  proof (cases "map_of bad h")
    case None
    with spec(3) that have "\<exists>v. fst (check_entry ?nt ?cd h v) = None" by (simp add: map_of_eq_None_iff)
    with None show ?thesis by simp
  next
    case (Some reason)
    then have "(h, reason) \<in> set bad" by (rule map_of_SomeD)
    with spec(2) Some show ?thesis by (fastforce simp: list_all_iff)
  qed
  moreover have "cl_corrupted rep = bad" using r by (metis clean_report.select_convs(1))
  ultimately show ?thesis
    using spec(1) drop_entries_get [of idx "map fst bad" k] by (simp add: idx' i)
qed

lemma vault_check: "base_url w = base \<Longrightarrow> \<exists>w'. check_entry (vault base) (one_index_codec idx) h w = (Some NoName, w')"
proof -
  obtain resp w1 where "transport_request (vault base) ''GET'' (''/manifests/'' @ h) None media_manifest w = (Inr resp, w1)"
    "ha_status resp = 200"
    using vault_get by blast
  then have "fetch_manifest (vault base) (one_index_codec idx) h w
      = (Inr (index_manifest (''sha256:'' @ zstd_magic @ ''i'') 5 []), w1)"
    by (simp add: fetch_manifest_def one_index_codec_def)
  then show ?thesis by (simp add: check_entry_def index_manifest_def annotation_def)
qed

text \<open>The manifests of this registry have no name, so every entry is dropped.\<close>

theorem clean_drops_failed_witness:
  "\<exists>rep idx' w'. clean_index chain_env all_started False False [chain_app] pinned_chain idle = (Ok rep, w')
    \<and> cl_index rep = Some idx' \<and> gm_get (ix_entries idx') chain_app = None
    \<and> gm_get (ix_entries idx') chain_lib = gm_get (ix_entries pinned_chain) chain_lib"
proof -
  have "base_url idle = repo_url ro_target" by (simp add: idle_def new_transport_def ro_target_def)
  then obtain w1 where "check_entry (vault (repo_url ro_target)) (one_index_codec pinned_chain) chain_app idle = (Some NoName, w1)"
    using vault_check by blast
  then have c: "check_entries (vault (repo_url ro_target)) (one_index_codec pinned_chain) (processed all_started [chain_app]) idle
      = ([(chain_app, NoName)], w1)"
    by (simp add: processed_def all_started_def)
  obtain now w2 where t: "read_clock (vault (repo_url ro_target)) w1 = (now, w2)" by fastforce
  obtain i w3 where "push_index (vault (repo_url ro_target)) (one_index_codec pinned_chain)
      ((foldl drop_entry pinned_chain [chain_app])\<lparr>ix_generated := now\<rparr>) w2 = (Done i, w3)"
    using archive_push by blast
  then have st: "stored chain_env ((foldl drop_entry pinned_chain [chain_app])\<lparr>ix_generated := now\<rparr>) w2 = (Ok i, w3)"
    by (simp add: stored_Ok)
  then have r: "clean_index chain_env all_started False False [chain_app] pinned_chain idle
      = (Ok \<lparr>cl_corrupted = [(chain_app, NoName)], cl_index = Some i, cl_undeleted = 0\<rparr>, w3)"
    unfolding clean_index_def chain_env_sel c prod.case t by simp
  have perm: "set (po_finish all_started xs) = set xs" for xs by (simp add: all_started_def)
  have len: "length [chain_app] \<le> po_started all_started" by (simp add: all_started_def)
  from clean_drops_failed [OF r _ perm len, of i chain_app] clean_drops_failed [OF r _ perm len, of i chain_lib] r
  show ?thesis by simp
qed

section \<open>Repair\<close>

lemma repair_each_spec:
  assumes "repair_each nt cd hs idx n w = (Some (idx', failed), w')" and "list_all nix_hash_regex hs"
  shows "n \<le> failed \<and> failed \<le> n + length hs \<and> ix_roots idx' = ix_roots idx
    \<and> (\<forall>k. k \<notin> set hs \<longrightarrow> gm_get (ix_entries idx') k = gm_get (ix_entries idx) k)
    \<and> (\<forall>k. gm_get (ix_entries idx) k \<noteq> None \<longrightarrow> gm_get (ix_entries idx') k \<noteq> None)
    \<and> (failed = n \<longrightarrow> list_all (\<lambda>h. gm_get (ix_entries idx') h \<noteq> None) hs)"
  using assms
proof (induction hs arbitrary: idx n w)
  case (Cons h hs)
  have h: "nix_hash_regex h" "list_all nix_hash_regex hs" using Cons.prems(2) by simp_all
  obtain r w1 where r: "repair_index_entry nt cd h idx w = (r, w1)" by fastforce
  show ?case
  proof (cases r)
    case (Inl err)
    with Cons.prems(1) r have "repair_each nt cd hs idx (Suc n) w1 = (Some (idx', failed), w')" by simp
    from Cons.IH [OF this h(2)] show ?thesis by auto
  next
    case (Inr x)
    with Cons.prems(1) r obtain idx1 where x: "r = Inr (Some idx1)"
      and e: "repair_each nt cd hs idx1 n w1 = (Some (idx', failed), w')"
      by (cases x) auto
    obtain item where g: "\<And>k. gm_get (ix_entries idx1) k = (if k = h then Some item else gm_get (ix_entries idx) k)"
      "ix_roots idx1 = ix_roots idx"
      using repair_entry_get [of nt cd h idx w idx1 w1] r x parse_nix_hash_id [OF h(1)] by auto
    from Cons.IH [OF e h(2)] g show ?thesis by auto
  qed
qed simp

text \<open>C24: \<open>noci repair\<close> completes the index: when no repair failed and every missing hash was handed out,
  each tag of the registry that is a hash has an entry in the stored index; entries that were there
  and all pins stay as they were.\<close>

theorem repair_completes_index:
  assumes "repair_tags ev po dry_run idx tags w = (Ok rep, w')" and "rr_index rep = Some idx'"
    and "\<And>xs. set (po_finish po xs) = set xs"
    and "\<And>tag. tag \<in> set tags \<Longrightarrow> is_nix_hash (to_lower tag) \<Longrightarrow> nix_hash_regex (to_lower tag)"
  shows "(gm_get (ix_entries idx) k \<noteq> None \<longrightarrow> gm_get (ix_entries idx') k = gm_get (ix_entries idx) k)
    \<and> ix_roots idx' = ix_roots idx
    \<and> (rr_failed rep = 0 \<and> length (rr_missing rep) \<le> po_started po \<and> k \<in> to_lower ` set tags \<and> nix_hash_regex k
        \<longrightarrow> gm_get (ix_entries idx') k \<noteq> None)"
proof -
  let ?m = "repair_candidates idx tags"
  note rt = assms(1) [unfolded repair_tags_def Let_def]
  have ne: "\<not> (?m = [] \<or> dry_run)" using rt assms(2) by auto
  obtain idx1 failed w1 where e: "repair_each (ev_net ev) (ev_codecs ev) (processed po ?m) idx 0 w = (Some (idx1, failed), w1)"
    using rt ne by (auto split: prod.splits option.splits)
  have "length ?m \<noteq> failed" using rt ne unfolding e by auto
  then obtain i w2 where s: "stored ev idx1 w1 = (Ok i, w2)"
    and r: "rep = \<lparr>rr_missing = ?m, rr_repaired = length ?m - failed, rr_failed = failed, rr_index = Some i\<rparr>"
    using rt ne unfolding e by (auto dest!: after_Ok)
  obtain gen where i: "i = idx1\<lparr>ix_generated := gen\<rparr>" using push_index_is s unfolding stored_Ok by fastforce
  have idx': "idx' = i" using r assms(2) by simp
  have m: "set ?m = {h \<in> to_lower ` set tags. is_nix_hash h \<and> gm_get (ix_entries idx) h = None}"
    by (auto simp: repair_candidates_def)
  have p: "set (processed po ?m) \<subseteq> set ?m" using assms(3) set_take_subset by (fastforce simp: processed_def)
  then have "list_all nix_hash_regex (processed po ?m)" using assms(4) m by (auto simp: list_all_iff)
  note spec = repair_each_spec [OF e this]
  have "gm_get (ix_entries idx') k = gm_get (ix_entries idx) k" if "gm_get (ix_entries idx) k \<noteq> None"
    using spec p m that by (auto simp: idx' i)
  moreover have "gm_get (ix_entries idx') k \<noteq> None"
    if "failed = 0" "length ?m \<le> po_started po" "k \<in> to_lower ` set tags" "nix_hash_regex k"
  proof (cases "gm_get (ix_entries idx) k")
    case None
    have "is_nix_hash k" using parse_nix_hash_id [OF that(4)] by (simp add: is_nix_hash_def)
    with None that(3) have "k \<in> set ?m" by (simp add: m)
    then have "k \<in> set (processed po ?m)" using that(2) assms(3) by (simp add: processed_def)
    with spec that(1) show ?thesis by (auto simp: idx' i list_all_iff)
  qed (use spec in \<open>simp add: idx' i\<close>)
  ultimately show ?thesis using spec by (auto simp: idx' i r)
qed

text \<open>Manifests with a layer and a name.\<close>

definition named_codec :: codecs where
  "named_codec = (one_index_codec pinned_chain)\<lparr>cd_get_manifest := (\<lambda>_. Inr (annotated_manifest
     [\<lparr>ds_media = [], ds_digest = replicate 64 CHR ''0'', ds_size = 1\<rparr>] [(''org.nix.name'', ''n'')]))\<rparr>"

definition chain_new :: string where "chain_new = replicate 32 CHR ''3''"

lemma vault_repair:
  assumes "nix_hash_regex h"
  shows "\<exists>idx' w'. repair_index_entry (vault base) named_codec h pinned_chain w = (Inr (Some idx'), w')"
proof -
  obtain resp w1 where "transport_request (vault base) ''GET'' (''/manifests/'' @ h) None media_manifest w = (Inr resp, w1)"
    "ha_status resp = 200"
    using vault_get by blast
  then have f: "fetch_manifest (vault base) named_codec h w = (Inr (annotated_manifest
     [\<lparr>ds_media = [], ds_digest = replicate 64 CHR ''0'', ds_size = 1\<rparr>] [(''org.nix.name'', ''n'')]), w1)"
    by (simp add: fetch_manifest_def named_codec_def)
  obtain now w2 where t: "read_clock (vault base) w1 = (now, w2)" by fastforce
  have "\<not> isl (parse_oci_digest (replicate 64 CHR ''0''))" by code_simp
  then obtain d where "parse_oci_digest (replicate 64 CHR ''0'') = Inr d" by (cases "parse_oci_digest (replicate 64 CHR ''0'')") auto
  then show ?thesis
    unfolding repair_index_entry_def f prod.case sum.case annotated_manifest_def
    by (simp add: parse_nix_hash_id [OF assms] t add_entry_def gm_set_def chain_index_def Let_def)
qed

theorem repair_completes_index_witness:
  "\<exists>rep idx' w'. repair_tags (chain_env\<lparr>ev_codecs := named_codec\<rparr>) all_started False pinned_chain [chain_new, ''noci-index''] idle
      = (Ok rep, w') \<and> rr_index rep = Some idx' \<and> gm_get (ix_entries idx') chain_new \<noteq> None
    \<and> gm_get (ix_entries idx') chain_app = gm_get (ix_entries pinned_chain) chain_app"
proof -
  let ?ev = "chain_env\<lparr>ev_codecs := named_codec\<rparr>"
  have h: "nix_hash_regex chain_new" by code_simp
  have other: "\<not> is_nix_hash (to_lower ''noci-index'')" by code_simp
  have l: "to_lower chain_new = chain_new" using nix_hash_regexD(4) [OF h] .
  have new: "is_nix_hash chain_new" using parse_nix_hash_id [OF h] by (simp add: is_nix_hash_def)
  have "chain_new \<noteq> chain_app" "chain_new \<noteq> chain_lib" by code_simp+
  then have "gm_get (ix_entries pinned_chain) chain_new = None"
    by (simp add: chain_index_def fmlookup_of_list)
  then have m: "repair_candidates pinned_chain [chain_new, ''noci-index''] = [chain_new]"
    using other new by (simp add: repair_candidates_def l)
  obtain idx1 w1 where r1: "repair_index_entry (vault (repo_url ro_target)) named_codec chain_new pinned_chain idle = (Inr (Some idx1), w1)"
    using vault_repair [OF h] by blast
  obtain i w2 where "push_index (vault (repo_url ro_target)) named_codec idx1 w1 = (Done i, w2)"
    using archive_push by blast
  then have st: "stored ?ev idx1 w1 = (Ok i, w2)" by (simp add: stored_Ok)
  have p: "processed all_started [chain_new] = [chain_new]" by (simp add: processed_def all_started_def)
  have r: "repair_tags ?ev all_started False pinned_chain [chain_new, ''noci-index''] idle
      = (Ok \<lparr>rr_missing = [chain_new], rr_repaired = 1, rr_failed = 0, rr_index = Some i\<rparr>, w2)"
    unfolding repair_tags_def m Let_def p using r1 st by simp
  have perm: "set (po_finish all_started xs) = set xs" for xs by (simp add: all_started_def)
  have tags: "nix_hash_regex (to_lower tag)" if "tag \<in> set [chain_new, ''noci-index'']" "is_nix_hash (to_lower tag)" for tag
    using that other h l by auto
  have mem: "chain_new \<in> to_lower ` set [chain_new, ''noci-index'']" using l by force
  note compl = repair_completes_index [OF r _ perm tags, of i, simplified repair_report.select_convs]
  have "length [chain_new] \<le> po_started all_started" by (simp add: all_started_def)
  with compl [of chain_new] mem h have "gm_get (ix_entries i) chain_new \<noteq> None" by blast
  moreover have "gm_get (ix_entries pinned_chain) chain_app \<noteq> None" by (simp add: gm_get_def)
  with compl [of chain_app] have "gm_get (ix_entries i) chain_app = gm_get (ix_entries pinned_chain) chain_app" by blast
  ultimately show ?thesis using r by auto
qed

text \<open>When the context ends before anything was handed out, nothing is repaired, and every missing entry
  is reported as repaired.\<close>

lemma unstarted_counts_as_repaired:
  assumes "repair_tags ev po False idx tags w = (Ok rep, w')" and "po_started po = 0" and "po_finish po [] = []"
    and "repair_candidates idx tags \<noteq> []"
  shows "rr_repaired rep = length (repair_candidates idx tags)
    \<and> (\<exists>idx'. rr_index rep = Some idx' \<and> ix_entries idx' = ix_entries idx)"
proof -
  have "processed po (repair_candidates idx tags) = []" using assms(2,3) by (simp add: processed_def)
  with assms(1,4) have "after (stored ev idx w) (\<lambda>idx2 w2. (Ok \<lparr>rr_missing = repair_candidates idx tags,
      rr_repaired = length (repair_candidates idx tags), rr_failed = 0, rr_index = Some idx2\<rparr>, w2)) = (Ok rep, w')"
    by (simp add: repair_tags_def Let_def)
  from after_Ok [OF this] obtain i w1 where "stored ev idx w = (Ok i, w1)"
    "rep = \<lparr>rr_missing = repair_candidates idx tags, rr_repaired = length (repair_candidates idx tags), rr_failed = 0,
      rr_index = Some i\<rparr>" by auto
  then show ?thesis using push_index_is unfolding stored_Ok by fastforce
qed

section \<open>Search\<close>

text \<open>A search by text lists, by name, the entries whose name or hash contains it.\<close>

lemma search_by_text:
  assumes "search_index ev (q # args) keys idx w = (Ok ms, w')"
    and "search_query (q # args) \<noteq> []" and "resolve_hashes (ev_runner ev) False (q # args) = Err e"
    and "set keys = gm_keys (ix_entries idx)"
  shows "sorted (map (\<lambda>m. it_name (snd m)) ms)
    \<and> set ms = {(h, it). gm_get (ix_entries idx) h = Some it \<and> name_or_hash_contains (search_query (q # args)) (h, it)}"
proof -
  have "ms = by_name (filter (name_or_hash_contains (search_query (q # args))) (all_matches idx keys))"
    using assms(1-3) by (simp add: search_index_def search_matches_def Let_def del: resolve_hashes.simps)
  moreover have "set (all_matches idx keys) = {(h, it). gm_get (ix_entries idx) h = Some it}"
    using assms(4) by (force simp: all_matches_def List.map_filter_def gm_keys_iff)
  ultimately show ?thesis by (auto simp: by_name_def)
qed

end
