(* ===== verification/Server_Lookup.thy ===== *)
theory Server_Lookup
  imports Nix_NarInfo
begin

text \<open>
  The cache service of \<open>pkg/server/handler.go\<close>: narinfo lookup with its negative cache, the URL
  rewriting, the resolution of NAR file names to digests and the paginated index.
\<close>

section \<open>Narinfo lookup\<close>

text \<open>The part of \<open>Server\<close> the lookups read: the index, nil before it is loaded, and \<open>negCache\<close>.\<close>

record lookup_state =
  lk_index :: "cache_index option"
  lk_neg :: "(string, time) fmap"

definition index_entry :: "cache_index option \<Rightarrow> string \<Rightarrow> index_item option" where
  "index_entry idx h = (case idx of None \<Rightarrow> None | Some i \<Rightarrow> gm_get (ix_entries i) h)"

definition url_key :: string where "url_key = ''URL: ''"

definition rewrite_line :: "string \<Rightarrow> string \<Rightarrow> string" where
  "rewrite_line digest line =
     ''URL: nar/'' @ digest @ (if has_suffix line ''.nar.zst'' then ''.nar.zst'' else ''.nar.gz'')"

fun rewrite_first_url :: "string \<Rightarrow> string list \<Rightarrow> string list" where
  "rewrite_first_url digest [] = []"
| "rewrite_first_url digest (line # ls) =
     (if has_prefix line url_key then rewrite_line digest line # ls
      else line # rewrite_first_url digest ls)"

definition rewrite_narinfo_url :: "index_item \<Rightarrow> string" where
  "rewrite_narinfo_url entry =
     (if it_narinfo entry = [] then []
      else join newline (rewrite_first_url (it_nar_digest entry) (split_on (CHR 0x0A) (it_narinfo entry))))"

text \<open>\<open>now\<close> is the reading of \<open>time.Since\<close>, \<open>now2\<close> the later one of \<open>time.Now\<close>.\<close>

definition get_narinfo ::
  "time \<Rightarrow> time \<Rightarrow> string \<Rightarrow> lookup_state \<Rightarrow> string option \<times> lookup_state" where
  "get_narinfo now now2 hash s =
     (if length hash \<noteq> 32 then (None, s)
      else case fmlookup (lk_neg s) hash of
        Some t \<Rightarrow>
          (if time_sub now t \<le> 5 * second then (None, s)
           else let s1 = s\<lparr>lk_neg := fmdrop hash (lk_neg s)\<rparr> in
             (case index_entry (lk_index s1) hash of
                None \<Rightarrow> (None, s1\<lparr>lk_neg := fmupd hash now2 (lk_neg s1)\<rparr>)
              | Some entry \<Rightarrow>
                  (let content = rewrite_narinfo_url entry
                   in if content = [] then (None, s1) else (Some content, s1))))
      | None \<Rightarrow>
          (case index_entry (lk_index s) hash of
             None \<Rightarrow> (None, s\<lparr>lk_neg := fmupd hash now2 (lk_neg s)\<rparr>)
           | Some entry \<Rightarrow>
               (let content = rewrite_narinfo_url entry
                in if content = [] then (None, s) else (Some content, s))))"

text \<open>The text before the first dot.\<close>

definition before_dot :: "string \<Rightarrow> string" where
  "before_dot s = takeWhile (\<lambda>c. c \<noteq> CHR ''.'') s"

definition resolve_nar_digest :: "cache_index option \<Rightarrow> string \<Rightarrow> string option" where
  "resolve_nar_digest idx filename =
     (let digest = before_dot filename
      in if length digest = 64 then Some (sha256_prefix @ digest)
         else if length digest = 32
         then map_option (\<lambda>entry. sha256_prefix @ it_nar_digest entry) (index_entry idx digest)
         else None)"

section \<open>The paginated index\<close>

record paginated =
  pg_total :: int
  pg_page :: int
  pg_limit :: int
  pg_can_delete :: bool
  pg_repo :: string
  pg_registry :: string
  pg_global_count :: int
  pg_global_size :: int
  pg_entries :: "(string \<times> index_item) list"

definition matches_search :: "string \<Rightarrow> string \<Rightarrow> index_item \<Rightarrow> bool" where
  "matches_search search hash entry \<longleftrightarrow>
     search = [] \<or> str_contains (to_lower (it_name entry)) search \<or> str_contains (to_lower hash) search"

definition listed_entries :: "cache_index \<Rightarrow> string list \<Rightarrow> string \<Rightarrow> (string \<times> index_item) list" where
  "listed_entries idx ord search =
     List.map_filter (\<lambda>h. case gm_get (ix_entries idx) h of
        None \<Rightarrow> None
      | Some it \<Rightarrow> if matches_search (to_lower (trim_space search)) h it then Some (h, it) else None) ord"

definition newest_added_first :: "(string \<times> index_item) list \<Rightarrow> (string \<times> index_item) list" where
  "newest_added_first xs = sort_key (\<lambda>(h, it). - it_added it) xs"

text \<open>\<open>xs[start:end]\<close>; None is the panic of a bound out of range.\<close>

definition slice :: "'a list \<Rightarrow> int \<Rightarrow> int \<Rightarrow> 'a list option" where
  "slice xs s e =
     (if 0 \<le> s \<and> s \<le> e \<and> e \<le> int (length xs) then Some (drop (nat s) (take (nat e) xs)) else None)"

datatype page_result = IndexNotReady | Page paginated | PagePanic

text \<open>\<open>ord\<close> and \<open>ord2\<close> are the iteration orders of the two loops over the entries.\<close>

definition get_paginated_index ::
  "cache_index option \<Rightarrow> bool \<Rightarrow> string list \<Rightarrow> string list \<Rightarrow> int \<Rightarrow> int \<Rightarrow> string \<Rightarrow> page_result" where
  "get_paginated_index index can_delete ord ord2 page limit search =
     (case index of
        None \<Rightarrow> IndexNotReady
      | Some idx \<Rightarrow>
          (let global = sum64_from 0 (map (\<lambda>h. case gm_get (ix_entries idx) h of None \<Rightarrow> 0 | Some it \<Rightarrow> it_nar_size it) ord);
               sorted_entries = newest_added_first (listed_entries idx ord2 search);
               total = int (length sorted_entries);
               start0 = mul64 (page - 1) limit;
               end0 = add64 start0 limit;
               start = (if total < start0 then total else start0);
               stop = (if total < end0 then total else end0)
           in case slice sorted_entries start stop of
                None \<Rightarrow> PagePanic
              | Some es \<Rightarrow> Page
                  \<lparr>pg_total = total, pg_page = page, pg_limit = limit, pg_can_delete = can_delete,
                   pg_repo = ix_repo idx, pg_registry = ix_registry idx,
                   pg_global_count = int (gm_len (ix_entries idx)), pg_global_size = global,
                   pg_entries = es\<rparr>))"

section \<open>URL rewriting\<close>

lemma rewrite_first_url_nonempty: "ls \<noteq> [] \<Longrightarrow> rewrite_first_url d ls \<noteq> []"
  by (cases ls) auto

lemma rewrite_first_url_one_line:
  "CHR 0x0A \<notin> set d \<Longrightarrow> (\<And>l. l \<in> set ls \<Longrightarrow> CHR 0x0A \<notin> set l) \<Longrightarrow>
    l \<in> set (rewrite_first_url d ls) \<Longrightarrow> CHR 0x0A \<notin> set l"
  by (induction ls) (auto simp: rewrite_line_def split: if_splits)

lemma rewritten_lines:
  assumes "it_narinfo entry \<noteq> []" "CHR 0x0A \<notin> set (it_nar_digest entry)"
  shows "split_on (CHR 0x0A) (rewrite_narinfo_url entry)
    = rewrite_first_url (it_nar_digest entry) (split_on (CHR 0x0A) (it_narinfo entry))"
proof -
  have "CHR 0x0A \<notin> set l" if "l \<in> set (rewrite_first_url (it_nar_digest entry) (split_on (CHR 0x0A) (it_narinfo entry)))" for l
    using rewrite_first_url_one_line [OF assms(2) _ that] split_on_pieces by blast
  with rewrite_first_url_nonempty [of "split_on (CHR 0x0A) (it_narinfo entry)"]
  show ?thesis
    using assms(1) by (simp add: rewrite_narinfo_url_def newline_def split_join)
qed

lemma url_not_references: "has_prefix l url_key \<Longrightarrow> \<not> has_prefix l references_key"
  by (auto simp: has_prefix_iff url_key_def references_key_def)

lemma find_references_rewrite:
  "find (\<lambda>l. has_prefix l references_key) (rewrite_first_url d ls) = find (\<lambda>l. has_prefix l references_key) ls"
proof (induction ls)
  case (Cons l ls)
  have "\<not> has_prefix (rewrite_line d l) references_key"
    by (simp add: rewrite_line_def references_key_def)
  with Cons url_not_references [of l] show ?case by simp
qed simp

lemma find_url_rewrite:
  "find (\<lambda>l. has_prefix l url_key) (rewrite_first_url d ls)
    = map_option (rewrite_line d) (find (\<lambda>l. has_prefix l url_key) ls)"
proof (induction ls)
  case (Cons l ls)
  have "has_prefix (rewrite_line d l) url_key" by (simp add: rewrite_line_def url_key_def)
  with Cons show ?case by simp
qed simp

section \<open>Lookups\<close>

lemma join_keeps: "x \<noteq> [] \<Longrightarrow> join newline (pre @ x # post) \<noteq> []"
proof (induction pre)
  case Nil
  then show ?case by (cases post) simp_all
next
  case (Cons y pre)
  then show ?case by (cases "pre @ x # post") (simp_all add: newline_def)
qed

lemma rewrite_first_url_at:
  "\<forall>l\<in>set pre. \<not> has_prefix l url_key \<Longrightarrow> has_prefix line url_key
    \<Longrightarrow> rewrite_first_url d (pre @ line # post) = pre @ rewrite_line d line # post"
  by (induction pre) auto

lemma rewrite_narinfo_lines:
  assumes "it_narinfo e = join newline (pre @ (url_key @ u) # post)"
    and "\<forall>l\<in>set (pre @ u # post). CHR 0x0A \<notin> set l" and "\<forall>l\<in>set pre. \<not> has_prefix l url_key"
  shows "rewrite_narinfo_url e = join newline (pre @ rewrite_line (it_nar_digest e) (url_key @ u) # post)"
proof -
  let ?ls = "pre @ (url_key @ u) # post"
  have nl: "CHR 0x0A \<notin> set url_key" by (simp add: url_key_def)
  have "split_on (CHR 0x0A) (join newline ?ls) = ?ls"
    unfolding newline_def by (rule split_join) (use assms(2) nl in auto)
  moreover have "url_key @ u \<noteq> []" by (simp add: url_key_def)
  then have "it_narinfo e \<noteq> []" unfolding assms(1) by (rule join_keeps)
  ultimately show ?thesis
    using rewrite_first_url_at [OF assms(3), of "url_key @ u" "it_nar_digest e" post] assms(1)
    by (simp add: rewrite_narinfo_url_def)
qed

text \<open>C19: What the proxy answers for a hash it lists, and for one it has just missed. When an entry's narinfo
  has a URL line, the answer is this narinfo with its first URL line replaced by the file of the
  entry's own digest, compressed as the line said, and every other line as it is; a hash that is not
  listed is not found, and after that miss the hash stays not found for five seconds even when the
  index that is loaded in the meantime lists it, and no longer.\<close>

theorem narinfo_served_rewritten:
  assumes hash: "length hash = 32" and entry: "index_entry idx hash = Some e"
    and narinfo: "it_narinfo e = join newline (pre @ (url_key @ u) # post)"
      "\<forall>l\<in>set (pre @ u # post). CHR 0x0A \<notin> set l" "\<forall>l\<in>set pre. \<not> has_prefix l url_key"
    and served: "txt = join newline (pre @ (''URL: nar/'' @ it_nar_digest e
      @ (if has_suffix (url_key @ u) ''.nar.zst'' then ''.nar.zst'' else ''.nar.gz'')) # post)"
    and fresh: "\<And>t. fmlookup (lk_neg s) hash = Some t \<Longrightarrow> 5 * second < time_sub t0 t"
    and unlisted: "index_entry (lk_index s) hash = None"
  shows "fst (get_narinfo t0 t0' hash (s\<lparr>lk_index := idx\<rparr>)) = Some txt
    \<and> fst (get_narinfo t0 t0' hash s) = None
    \<and> fst (get_narinfo t1 t1' hash ((snd (get_narinfo t0 t0' hash s))\<lparr>lk_index := idx\<rparr>))
        = (if time_sub t1 t0' \<le> 5 * second then None else Some txt)"
proof -
  have r: "rewrite_narinfo_url e = txt"
    using rewrite_narinfo_lines [OF narinfo] served by (simp add: rewrite_line_def)
  have "txt \<noteq> []" unfolding served by (rule join_keeps) simp
  then have hit: "fst (get_narinfo now now2 hash v) = Some txt"
    if "lk_index v = idx" "\<And>t. fmlookup (lk_neg v) hash = Some t \<Longrightarrow> 5 * second < time_sub now t" for v now now2
    using that entry hash r by (auto simp: get_narinfo_def Let_def split: option.split)
  have miss: "fst (get_narinfo t0 t0' hash s) = None" "fmlookup (lk_neg (snd (get_narinfo t0 t0' hash s))) hash = Some t0'"
    using hash unlisted fresh by (fastforce simp: get_narinfo_def Let_def split: option.split)+
  let ?v = "(snd (get_narinfo t0 t0' hash s))\<lparr>lk_index := idx\<rparr>"
  have "fst (get_narinfo t1 t1' hash ?v) = (if time_sub t1 t0' \<le> 5 * second then None else Some txt)"
  proof (cases "time_sub t1 t0' \<le> 5 * second")
    case True
    have "fmlookup (lk_neg ?v) hash = Some t0'" using miss(2) by simp
    then have "get_narinfo t1 t1' hash ?v = (None, ?v)"
      unfolding get_narinfo_def if_not_P [OF hash [THEN not_not [THEN iffD2]]] using True by simp
    with True show ?thesis by simp
  next
    case False
    have "fst (get_narinfo t1 t1' hash ?v) = Some txt" by (rule hit) (use miss(2) False in auto)
    with False show ?thesis by simp
  qed
  moreover have "fst (get_narinfo t0 t0' hash (s\<lparr>lk_index := idx\<rparr>)) = Some txt" by (rule hit) (use fresh in auto)
  ultimately show ?thesis using miss(1) by blast
qed

text \<open>A proxy without an index misses a hash; three seconds later its index lists it, and it is served after
  six.\<close>

definition listed_item :: index_item where
  "listed_item = new_item ''x'' (join newline [''StorePath: x'', ''URL: nar/old.nar.zst'', ''NarSize: 1'', []]) ''00'' 1 [] 1"

definition listed_hash :: string where "listed_hash = replicate 32 CHR ''a''"

definition listed_index :: cache_index where
  "listed_index = (new_index ''r'' ''o'' 1)\<lparr>ix_entries := Some (fmap_of_list [(listed_hash, listed_item)])\<rparr>"

theorem narinfo_served_rewritten_witness:
  "let s = \<lparr>lk_index = None, lk_neg = fmempty\<rparr>; v = (snd (get_narinfo 0 0 listed_hash s))\<lparr>lk_index := Some listed_index\<rparr>
   in fst (get_narinfo (3 * second) 0 listed_hash v) = None
    \<and> fst (get_narinfo (6 * second) 0 listed_hash v)
        = Some (join newline [''StorePath: x'', ''URL: nar/00.nar.zst'', ''NarSize: 1'', []])"
proof -
  let ?s = "\<lparr>lk_index = None, lk_neg = fmempty\<rparr>"
  let ?txt = "join newline ([''StorePath: x''] @ (''URL: nar/'' @ it_nar_digest listed_item
      @ (if has_suffix (url_key @ ''nar/old.nar.zst'') ''.nar.zst'' then ''.nar.zst'' else ''.nar.gz'')) # [''NarSize: 1'', []])"
  have h: "length listed_hash = 32" by (simp add: listed_hash_def)
  have e: "index_entry (Some listed_index) listed_hash = Some listed_item"
    by (simp add: index_entry_def listed_index_def)
  have n: "it_narinfo listed_item = join newline ([''StorePath: x''] @ (url_key @ ''nar/old.nar.zst'') # [''NarSize: 1'', []])"
    by (simp add: listed_item_def new_item_def url_key_def)
  have l: "\<forall>l\<in>set ([''StorePath: x''] @ ''nar/old.nar.zst'' # [''NarSize: 1'', []]). CHR 0x0A \<notin> set l"
    "\<forall>l\<in>set [''StorePath: x'']. \<not> has_prefix l url_key"
    by (simp_all add: url_key_def)
  have u: "index_entry (lk_index ?s) listed_hash = None" by (simp add: index_entry_def)
  have x: "?txt = join newline [''StorePath: x'', ''URL: nar/00.nar.zst'', ''NarSize: 1'', []]"
    by code_simp
  have "fst (get_narinfo t 0 listed_hash ((snd (get_narinfo 0 0 listed_hash ?s))\<lparr>lk_index := Some listed_index\<rparr>))
      = (if time_sub t 0 \<le> 5 * second then None else Some ?txt)" for t
    by (rule narinfo_served_rewritten [THEN conjunct2, THEN conjunct2, OF h e n l refl _ u]) simp
  then show ?thesis unfolding x Let_def by (simp add: time_sub_def second_def min64_def max64_def)
qed

section \<open>Rewritten narinfos\<close>

lemma rewritten_url:
  assumes "find (\<lambda>l. has_prefix l url_key) (split_on (CHR 0x0A) (it_narinfo entry)) \<noteq> None"
    and "is_hex_digest (it_nar_digest entry)"
  shows "parse_references (rewrite_narinfo_url entry) = parse_references (it_narinfo entry)
    \<and> (\<exists>file. find (\<lambda>l. has_prefix l url_key) (split_on (CHR 0x0A) (rewrite_narinfo_url entry))
          = Some (''URL: nar/'' @ file)
        \<and> resolve_nar_digest idx file = Some (sha256_prefix @ it_nar_digest entry))"
proof -
  let ?d = "it_nar_digest entry"
  have d: "length ?d = 64" "CHR 0x0A \<notin> set ?d" "CHR ''.'' \<notin> set ?d"
  proof -
    have "CHR 0x0A \<in> set space_edge" by (simp add: space_edge_def space_runes_def)
    with hex_digestD [OF assms(2)] show "length ?d = 64" "CHR 0x0A \<notin> set ?d" "CHR ''.'' \<notin> set ?d"
      by auto
  qed
  have ne: "it_narinfo entry \<noteq> []"
    using assms(1) by (auto simp: url_key_def)
  note lines = rewritten_lines [OF ne d(2)]
  obtain l where l: "find (\<lambda>l. has_prefix l url_key) (split_on (CHR 0x0A) (it_narinfo entry)) = Some l"
    using assms(1) by blast
  obtain ext where ext: "rewrite_line ?d l = ''URL: nar/'' @ ?d @ ''.'' @ ext"
    by (cases "has_suffix l ''.nar.zst''") (simp_all add: rewrite_line_def)
  have "before_dot (?d @ ''.'' @ ext) = ?d"
    using d(3) by (auto simp: before_dot_def takeWhile_append)
  then have "resolve_nar_digest idx (?d @ ''.'' @ ext) = Some (sha256_prefix @ ?d)"
    using d(1) by (simp add: resolve_nar_digest_def)
  moreover have "find (\<lambda>l. has_prefix l url_key) (split_on (CHR 0x0A) (rewrite_narinfo_url entry))
      = Some (''URL: nar/'' @ ?d @ ''.'' @ ext)"
    by (simp add: lines find_url_rewrite l ext)
  moreover have "parse_references (rewrite_narinfo_url entry) = parse_references (it_narinfo entry)"
    by (simp add: parse_references_def lines find_references_rewrite)
  ultimately show ?thesis by blast
qed

text \<open>What the proxy serves still describes the same path: rewriting the URL changes no reference,
  and the URL it writes names the blob, so a client that asks for the file of the rewritten URL gets
  the digest recorded in the index.\<close>

lemma rewritten_url_resolves:
  assumes "find (\<lambda>l. has_prefix l url_key) (split_on (CHR 0x0A) (it_narinfo entry)) \<noteq> None"
    and "is_hex_digest (it_nar_digest entry)"
  shows "parse_references (rewrite_narinfo_url entry) = parse_references (it_narinfo entry)
    \<and> (\<exists>file. find (\<lambda>l. has_prefix l url_key) (split_on (CHR 0x0A) (rewrite_narinfo_url entry))
          = Some (''URL: nar/'' @ file)
        \<and> resolve_nar_digest idx file = Some (sha256_prefix @ it_nar_digest entry))"
  by (rule rewritten_url [OF assms])

section \<open>Pagination\<close>

text \<open>C36: A page is the right slice: without overflow, page p of size n holds the entries from
  (p - 1) n on, at most n of them, of all the matches, newest first.\<close>

theorem paginated_slice:
  assumes "1 \<le> page" and "1 \<le> limit" and "page * limit \<le> max64"
  shows "\<exists>r. get_paginated_index (Some idx) cd ord ord2 page limit search = Page r
    \<and> pg_total r = int (length (listed_entries idx ord2 search))
    \<and> pg_entries r = take (nat limit) (drop (nat ((page - 1) * limit))
        (newest_added_first (listed_entries idx ord2 search)))"
proof -
  let ?xs = "newest_added_first (listed_entries idx ord2 search)"
  let ?s = "(page - 1) * limit"
  have s: "0 \<le> ?s" "?s + limit = page * limit" using assms(1,2) by (simp_all add: algebra_simps)
  have le: "?s \<le> max64" using s assms(2,3) by linarith
  have range: "0 \<le> x \<Longrightarrow> x \<le> max64 \<Longrightarrow> in64 x" for x by (simp add: in64_def min64_def)
  have "in64 ?s" using s(1) le by (rule range)
  moreover have "in64 (?s + limit)" using s assms(2,3) by (intro range) linarith+
  ultimately have w: "mul64 (page - 1) limit = ?s" "add64 ?s limit = ?s + limit"
    unfolding mul64_def add64_def by (simp_all only: wrap64_id)
  have len: "length ?xs = length (listed_entries idx ord2 search)"
    by (simp add: newest_added_first_def)
  let ?n = "int (length ?xs)"
  have sl: "slice ?xs (if ?n < ?s then ?n else ?s) (if ?n < ?s + limit then ?n else ?s + limit)
      = Some (take (nat limit) (drop (nat ?s) ?xs))"
  proof (cases "?n < ?s")
    case True
    with assms(2) show ?thesis by (simp add: slice_def)
  next
    case False
    have "drop (nat ?s) (take (nat (?s + limit)) ?xs) = take (nat limit) (drop (nat ?s) ?xs)"
      using s(1) assms(2) by (simp add: drop_take nat_add_distrib)
    with False s(1) assms(2) show ?thesis by (auto simp: slice_def)
  qed
  show ?thesis
    unfolding get_paginated_index_def Let_def option.case w sl by (simp add: len)
qed

theorem paginated_slice_witness:
  "\<exists>r. get_paginated_index (Some (new_index ''r'' ''o'' 0)) True [] [] 2 50 [] = Page r \<and> pg_total r = 0"
  using paginated_slice [of 2 50 "new_index ''r'' ''o'' 0" True "[]" "[]" "[]"]
  by (auto simp: max64_def listed_entries_def List.map_filter_def)

text \<open>A page and a limit that the request handler accepts can make the page computation overflow and
  the slice panic: here page 3 with a limit of \<open>2 ^ 62\<close>.\<close>

lemma paginated_overflow_panics:
  "\<exists>page limit. 0 < page \<and> in64 page \<and> 0 < limit \<and> in64 limit
     \<and> get_paginated_index (Some idx) cd ord ord2 page limit search = PagePanic"
proof (intro exI conjI)
  show "get_paginated_index (Some idx) cd ord ord2 3 4611686018427387904 search = PagePanic"
    by (simp add: get_paginated_index_def Let_def mul64_def add64_def wrap64_def slice_def)
qed (simp_all add: in64_def min64_def max64_def)

end
