(* ===== verification/Circuit_Breaker.thy ===== *)
theory Circuit_Breaker
  imports Noci_Prelude
begin

text \<open>
  The circuit breaker of \<open>pkg/server/circuitbreaker.go\<close>: its operations, each atomic under the
  mutex, the step relation of any interleaving of them, and the abstract breaker it implements when
  requests do not overlap.
\<close>

section \<open>State and operations\<close>

datatype circuit_state = CircuitClosed | CircuitOpen | CircuitHalfOpen

record breaker =
  br_state :: circuit_state
  br_failures :: int
  br_successes :: int
  br_threshold :: int
  br_timeout :: duration
  br_half_open_max :: int
  br_last_failure :: time

definition new_breaker :: "int \<Rightarrow> duration \<Rightarrow> breaker" where
  "new_breaker threshold timeout =
     \<lparr>br_state = CircuitClosed, br_failures = 0, br_successes = 0, br_threshold = threshold,
      br_timeout = timeout, br_half_open_max = 2, br_last_failure = 0\<rparr>"

definition allow :: "time \<Rightarrow> breaker \<Rightarrow> bool \<times> breaker" where
  "allow now cb =
     (case br_state cb of
        CircuitClosed \<Rightarrow> (True, cb)
      | CircuitOpen \<Rightarrow>
          (if br_timeout cb < time_sub now (br_last_failure cb)
           then (True, cb\<lparr>br_state := CircuitHalfOpen, br_successes := 0\<rparr>)
           else (False, cb))
      | CircuitHalfOpen \<Rightarrow> (True, cb))"

definition record_success :: "breaker \<Rightarrow> breaker" where
  "record_success cb =
     (if br_state cb = CircuitHalfOpen
      then let cb' = cb\<lparr>br_successes := add64 (br_successes cb) 1\<rparr>
           in if br_half_open_max cb' \<le> br_successes cb'
              then cb'\<lparr>br_state := CircuitClosed, br_failures := 0\<rparr> else cb'
      else cb\<lparr>br_failures := 0\<rparr>)"

definition record_failure :: "time \<Rightarrow> breaker \<Rightarrow> breaker" where
  "record_failure now cb =
     (let cb' = cb\<lparr>br_failures := add64 (br_failures cb) 1, br_last_failure := now\<rparr>
      in if br_threshold cb' \<le> br_failures cb' then cb'\<lparr>br_state := CircuitOpen\<rparr> else cb')"

text \<open>The value of the state constant, which \<open>/metrics\<close> exports.\<close>

definition state_code :: "circuit_state \<Rightarrow> int" where
  "state_code st = (case st of CircuitClosed \<Rightarrow> 0 | CircuitOpen \<Rightarrow> 1 | CircuitHalfOpen \<Rightarrow> 2)"

section \<open>Interleavings\<close>

datatype breaker_event = Allow time bool | Success | Failure time

inductive breaker_step :: "breaker \<Rightarrow> breaker_event \<Rightarrow> breaker \<Rightarrow> bool" where
  step_allow: "allow now cb = (ok, cb') \<Longrightarrow> breaker_step cb (Allow now ok) cb'"
| step_success: "breaker_step cb Success (record_success cb)"
| step_failure: "breaker_step cb (Failure now) (record_failure now cb)"

inductive_cases breaker_stepE: "breaker_step cb ev cb'"
inductive_simps breaker_step_allow [simp]: "breaker_step cb (Allow now ok) cb'"
inductive_simps breaker_step_success [simp]: "breaker_step cb Success cb'"
inductive_simps breaker_step_failure [simp]: "breaker_step cb (Failure now) cb'"

inductive breaker_run :: "breaker \<Rightarrow> breaker_event list \<Rightarrow> breaker \<Rightarrow> bool" where
  run_nil: "breaker_run cb [] cb"
| run_cons: "breaker_step cb ev cb1 \<Longrightarrow> breaker_run cb1 evs cb2 \<Longrightarrow> breaker_run cb (ev # evs) cb2"

inductive_simps breaker_run_simps [simp]: "breaker_run cb [] cb'" "breaker_run cb (ev # evs) cb'"

section \<open>Invariant\<close>

definition breaker_ok :: "breaker \<Rightarrow> bool" where
  "breaker_ok cb \<longleftrightarrow>
     br_half_open_max cb = 2 \<and> 0 < br_threshold cb
     \<and> (br_state cb = CircuitClosed \<longrightarrow> br_failures cb < br_threshold cb)
     \<and> (br_state cb = CircuitHalfOpen \<longrightarrow> 0 \<le> br_successes cb \<and> br_successes cb < br_half_open_max cb)"

lemma small_add64: "0 \<le> x \<Longrightarrow> x < 2 \<Longrightarrow> add64 x 1 = x + 1"
  by (simp add: add64_def wrap64_id in64_def min64_def max64_def)

lemma new_breaker_ok: "0 < threshold \<Longrightarrow> breaker_ok (new_breaker threshold timeout)"
  by (simp add: new_breaker_def breaker_ok_def)

lemma breaker_step_ok: "breaker_step cb ev cb' \<Longrightarrow> breaker_ok cb \<Longrightarrow> breaker_ok cb'"
  by (erule breaker_stepE)
    (auto simp: allow_def record_success_def record_failure_def breaker_ok_def Let_def small_add64
      split: circuit_state.splits if_splits)

lemma breaker_step_params:
  "breaker_step cb ev cb' \<Longrightarrow> br_threshold cb' = br_threshold cb \<and> br_timeout cb' = br_timeout cb"
  by (erule breaker_stepE)
    (auto simp: allow_def record_success_def record_failure_def Let_def split: circuit_state.splits if_splits)

text \<open>Whatever the interleaving of allowed requests and recorded outcomes, a closed breaker has
  counted fewer failures than its threshold, and a half-open one fewer successes than it needs: it
  never stays closed or half-open past its limit.\<close>

lemma breaker_invariant:
  assumes "breaker_run (new_breaker threshold timeout) evs cb" and "0 < threshold"
  shows "breaker_ok cb \<and> br_threshold cb = threshold \<and> br_timeout cb = timeout"
proof -
  have "breaker_ok b' \<and> br_threshold b' = br_threshold b \<and> br_timeout b' = br_timeout b"
    if "breaker_run b es b'" "breaker_ok b" for b es b'
    using that by induction (simp, metis breaker_step_ok breaker_step_params)
  from this [OF assms(1) new_breaker_ok [OF assms(2)]] show ?thesis
    by (simp add: new_breaker_def)
qed

section \<open>The abstract breaker\<close>

datatype abstract_breaker = AClosed int | AOpen time | AHalfOpen int

definition abs_breaker :: "breaker \<Rightarrow> abstract_breaker" where
  "abs_breaker cb =
     (case br_state cb of
        CircuitClosed \<Rightarrow> AClosed (br_failures cb)
      | CircuitOpen \<Rightarrow> AOpen (br_last_failure cb)
      | CircuitHalfOpen \<Rightarrow> AHalfOpen (br_successes cb))"

text \<open>A request that is not rejected ends, with success or failure, before the next one starts.\<close>

definition request :: "time \<Rightarrow> time \<Rightarrow> bool \<Rightarrow> breaker \<Rightarrow> breaker" where
  "request now done_at ok cb =
     (let (allowed, cb') = allow now cb
      in if \<not> allowed then cb' else if ok then record_success cb' else record_failure done_at cb')"

text \<open>Consecutive failures open it; after the timeout one probe is let through; two successful
  probes close it and a failed one opens it again.\<close>

definition spec_request :: "int \<Rightarrow> duration \<Rightarrow> time \<Rightarrow> time \<Rightarrow> bool \<Rightarrow> abstract_breaker \<Rightarrow> abstract_breaker" where
  "spec_request threshold timeout now done_at ok a =
     (case a of
        AClosed n \<Rightarrow> if ok then AClosed 0 else if threshold \<le> n + 1 then AOpen done_at else AClosed (n + 1)
      | AOpen t \<Rightarrow>
          if time_sub now t \<le> timeout then AOpen t else if ok then AHalfOpen 1 else AOpen done_at
      | AHalfOpen k \<Rightarrow> if \<not> ok then AOpen done_at else if k = 0 then AHalfOpen 1 else AClosed 0)"

text \<open>Without overlap the failures that opened the breaker are still counted while it is not closed.\<close>

definition sequential_ok :: "breaker \<Rightarrow> bool" where
  "sequential_ok cb \<longleftrightarrow> breaker_ok cb \<and> (br_state cb \<noteq> CircuitClosed \<longrightarrow> br_threshold cb \<le> br_failures cb)"

lemma new_breaker_sequential: "0 < threshold \<Longrightarrow> sequential_ok (new_breaker threshold timeout)"
  by (simp add: sequential_ok_def new_breaker_ok) (simp add: new_breaker_def)

lemma count_add64: "in64 x \<Longrightarrow> x < max64 \<Longrightarrow> add64 x 1 = x + 1"
  by (simp add: add64_def wrap64_id in64_def)

text \<open>C15: When requests do not overlap, the breaker implements the abstract one: each request, allowed
  or rejected, moves it as the specification says, and the invariant that makes this so is kept.\<close>

theorem breaker_refines:
  assumes "sequential_ok cb" and "in64 (br_failures cb)" and "br_failures cb < max64"
  shows "abs_breaker (request now done_at ok cb)
      = spec_request (br_threshold cb) (br_timeout cb) now done_at ok (abs_breaker cb)
    \<and> sequential_ok (request now done_at ok cb)"
proof -
  note defs = request_def allow_def record_success_def record_failure_def abs_breaker_def
    spec_request_def sequential_ok_def breaker_ok_def Let_def count_add64 [OF assms(2,3)]
  show ?thesis
  proof (cases "br_state cb")
    case CircuitClosed
    with assms(1) show ?thesis by (simp add: defs)
  next
    case CircuitOpen
    with assms(1) show ?thesis by (auto simp: defs small_add64)
  next
    case CircuitHalfOpen
    with assms(1) have "br_successes cb = 0 \<or> br_successes cb = 1"
      by (auto simp: sequential_ok_def breaker_ok_def)
    with CircuitHalfOpen assms(1) show ?thesis
      by (auto simp: defs small_add64)
  qed
qed

theorem breaker_refines_witness:
  "abs_breaker (request 3 4 False (new_breaker 1 30)) = AOpen 4"
proof -
  have "sequential_ok (new_breaker 1 30)" by (rule new_breaker_sequential) simp
  then show ?thesis
    using breaker_refines [of "new_breaker 1 30" 3 4 False]
    by (simp add: new_breaker_def max64_def abs_breaker_def spec_request_def)
qed

section \<open>Tripping and recovery\<close>

definition fail_at :: "time list \<Rightarrow> breaker \<Rightarrow> breaker" where
  "fail_at ts cb = fold record_failure ts cb"

lemma fail_at_closed:
  assumes "ts \<noteq> []" "br_state cb = CircuitClosed" "0 \<le> br_failures cb" "br_failures cb + int (length ts) = br_threshold cb"
    "br_threshold cb \<le> max64"
  shows "br_state (fail_at ts cb) = CircuitOpen \<and> br_last_failure (fail_at ts cb) = last ts
    \<and> br_timeout (fail_at ts cb) = br_timeout cb \<and> br_half_open_max (fail_at ts cb) = br_half_open_max cb"
  using assms
proof (induction ts arbitrary: cb)
  case (Cons t ts)
  have add: "add64 (br_failures cb) 1 = br_failures cb + 1"
    using Cons.prems by (intro count_add64) (auto simp: in64_def min64_def)
  show ?case
  proof (cases "ts = []")
    case True
    with Cons.prems add show ?thesis by (simp add: fail_at_def record_failure_def Let_def)
  next
    case False
    then have "0 < length ts" by simp
    moreover have "br_failures cb + int (Suc (length ts)) = br_threshold cb" using Cons.prems(4) by simp
    ultimately have "br_failures cb + 1 < br_threshold cb" by linarith
    with Cons.prems have st: "br_state (record_failure t cb) = CircuitClosed"
      "br_failures (record_failure t cb) = br_failures cb + 1"
      "br_threshold (record_failure t cb) = br_threshold cb" "br_timeout (record_failure t cb) = br_timeout cb"
      "br_half_open_max (record_failure t cb) = br_half_open_max cb"
      by (simp_all add: record_failure_def Let_def add)
    show ?thesis
      using Cons.IH [of "record_failure t cb"] Cons.prems False st by (simp add: fail_at_def)
  qed
qed simp

text \<open>C39: A run of failures as long as the threshold trips a fresh breaker: every request is then
  rejected until the timeout after the last of them has passed, the first request after that is let
  through, and two successes close the breaker again.\<close>

theorem breaker_trips_and_recovers:
  assumes "0 < threshold" and "threshold \<le> max64" and "int (length ts) = threshold"
  shows "let cb = fail_at ts (new_breaker threshold timeout); (ok, cb') = allow now cb in
    (ok \<longleftrightarrow> timeout < time_sub now (last ts))
    \<and> (\<not> ok \<longrightarrow> cb' = cb)
    \<and> (ok \<longrightarrow> br_state (record_success (record_success cb')) = CircuitClosed)"
proof -
  let ?cb = "fail_at ts (new_breaker threshold timeout)"
  have "br_state ?cb = CircuitOpen \<and> br_last_failure ?cb = last ts \<and> br_timeout ?cb = timeout
      \<and> br_half_open_max ?cb = 2"
    using fail_at_closed [of ts "new_breaker threshold timeout"] assms
    by (cases ts) (auto simp: new_breaker_def)
  then show ?thesis
    by (auto simp: Let_def allow_def record_success_def small_add64)
qed

theorem breaker_trips_and_recovers_witness:
  "\<not> fst (allow 25 (fail_at [1, 2] (new_breaker 2 30)))"
  using breaker_trips_and_recovers [of 2 "[1, 2]" 30 25]
  by (simp add: max64_def min64_def time_sub_def Let_def split_beta)

section \<open>Overlapping requests\<close>

definition breaker_at :: "circuit_state \<Rightarrow> int \<Rightarrow> time \<Rightarrow> breaker" where
  "breaker_at st n t =
     \<lparr>br_state = st, br_failures = n, br_successes = 0, br_threshold = 5, br_timeout = 30,
      br_half_open_max = 2, br_last_failure = t\<rparr>"

lemma breaker_at_failure:
  "0 \<le> n \<Longrightarrow> n < 10 \<Longrightarrow> record_failure now (breaker_at st n t) = breaker_at (if 5 \<le> n + 1 then CircuitOpen else st) (n + 1) now"
  using count_add64 [of n]
  by (simp add: breaker_at_def record_failure_def Let_def in64_def min64_def max64_def)

lemma breaker_at_success: "record_success (breaker_at CircuitOpen n t) = breaker_at CircuitOpen 0 t"
  by (simp add: breaker_at_def record_success_def)

lemma breaker_at_allow:
  "allow now (breaker_at CircuitOpen n t)
    = (if 30 < time_sub now t then (True, breaker_at CircuitHalfOpen n t) else (False, breaker_at CircuitOpen n t))"
  by (simp add: breaker_at_def allow_def)

text \<open>When requests overlap, a success that arrives after the breaker has opened clears the count of
  failures, and the next half-open probe may then fail without opening the breaker again: it stays
  half-open and keeps letting every request through.\<close>

lemma half_open_failure_ignored:
  "\<exists>evs cb. breaker_run (new_breaker 5 30) (evs @ [Allow 100 True, Failure 101]) cb
     \<and> (\<exists>cb0. breaker_run (new_breaker 5 30) evs cb0 \<and> br_state cb0 = CircuitOpen)
     \<and> br_state cb = CircuitHalfOpen \<and> fst (allow 102 cb)"
proof (intro exI conjI)
  let ?evs = "[Failure 1, Failure 2, Failure 3, Failure 4, Failure 5, Success]"
  have new: "new_breaker 5 30 = breaker_at CircuitClosed 0 0"
    by (simp add: new_breaker_def breaker_at_def)
  have late: "30 < time_sub 100 5" by (simp add: time_sub_def min64_def max64_def)
  show "breaker_run (new_breaker 5 30) (?evs @ [Allow 100 True, Failure 101]) (breaker_at CircuitHalfOpen 1 101)"
    by (simp add: new breaker_at_failure breaker_at_success breaker_at_allow late)
  show "breaker_run (new_breaker 5 30) ?evs (breaker_at CircuitOpen 0 5)"
    by (simp add: new breaker_at_failure breaker_at_success)
  show "br_state (breaker_at CircuitOpen 0 5) = CircuitOpen"
    "br_state (breaker_at CircuitHalfOpen 1 101) = CircuitHalfOpen"
    "fst (allow 102 (breaker_at CircuitHalfOpen 1 101))"
    by (simp_all add: breaker_at_def allow_def)
qed

end
