(* ===== verification/Server_Proxy.thy ===== *)
theory Server_Proxy
  imports Circuit_Breaker Go_Strings
begin

text \<open>
  The upstream fallback of \<open>pkg/server/handler.go\<close>, \<open>proxyToUpstream\<close>: the circuit breaker, the
  upstream proxies in their order, the direct fetch and the headers that are passed on. What the
  upstreams answer is an argument.
\<close>

section \<open>Responses and headers\<close>

record response =
  rs_status :: int
  rs_headers :: "(string \<times> string) list"
  rs_body :: string

definition http_error :: "int \<Rightarrow> string \<Rightarrow> response" where
  "http_error code msg =
     \<lparr>rs_status = code,
      rs_headers = [(''Content-Type'', ''text/plain; charset=utf-8''), (''X-Content-Type-Options'', ''nosniff'')],
      rs_body = msg @ [CHR 0x0A]\<rparr>"

definition not_found :: response where
  "not_found = http_error 404 ''404 page not found''"

text \<open>Header names are ASCII, on which \<open>EqualFold\<close> compares the letters without their case.\<close>

definition equal_fold :: "string \<Rightarrow> string \<Rightarrow> bool" where
  "equal_fold a b \<longleftrightarrow> map lower_byte a = map lower_byte b"

definition is_hop_by_hop :: "string \<Rightarrow> bool" where
  "is_hop_by_hop name \<longleftrightarrow>
     equal_fold name ''Connection'' \<or> equal_fold name ''Keep-Alive''
     \<or> equal_fold name ''Proxy-Authenticate'' \<or> equal_fold name ''Proxy-Authorization''
     \<or> equal_fold name ''TE'' \<or> equal_fold name ''Transfer-Encoding''
     \<or> equal_fold name ''Trailers'' \<or> equal_fold name ''Upgrade''"

definition pass_on :: "response \<Rightarrow> response" where
  "pass_on r = r\<lparr>rs_headers := filter (\<lambda>(k, v). \<not> is_hop_by_hop k) (rs_headers r)\<rparr>"

section \<open>The fallback\<close>

text \<open>What the direct fetch from the primary upstream gives.\<close>

datatype direct_fetch = BadUpstreamUrl | FetchError | Fetched response

text \<open>
  \<open>url\<close> is the primary upstream, empty when there is none; \<open>answers\<close> are the answers of the
  proxies, the primary first, of which only those up to the first that is not 404 are asked for.
\<close>

definition proxy_to_upstream ::
  "string \<Rightarrow> response list \<Rightarrow> direct_fetch \<Rightarrow> time \<Rightarrow> time \<Rightarrow> breaker \<Rightarrow> response \<times> breaker" where
  "proxy_to_upstream url answers direct now done_at cb =
     (if url = [] \<and> answers = [] then (not_found, cb)
      else let (ok, cb1) = allow now cb in
        if \<not> ok then (http_error 503 ''Upstream temporarily unavailable (circuit breaker open)'', cb1)
        else case find (\<lambda>r. rs_status r \<noteq> 404) answers of
          Some r \<Rightarrow> (pass_on r, record_success cb1)
        | None \<Rightarrow>
            (if url = [] then (not_found, record_failure done_at cb1)
             else case direct of
               BadUpstreamUrl \<Rightarrow> (http_error 502 ''Gateway error'', cb1)
             | FetchError \<Rightarrow> (not_found, record_failure done_at cb1)
             | Fetched r \<Rightarrow>
                 (let cb2 = (if 500 \<le> rs_status r then record_failure done_at cb1 else record_success cb1)
                  in if rs_status r \<noteq> 200 then (not_found, cb2) else (pass_on r, cb2))))"

section \<open>Properties\<close>

lemma own_headers: "\<not> is_hop_by_hop ''Content-Type''" "\<not> is_hop_by_hop ''X-Content-Type-Options''"
  by code_simp+

definition own_or_passed :: "response \<Rightarrow> bool" where
  "own_or_passed r \<longleftrightarrow> (\<exists>c m. r = http_error c m) \<or> (\<exists>x. r = pass_on x)"

lemma own_or_passed_rules [simp]:
  "own_or_passed (http_error c m)" "own_or_passed (pass_on r)" "own_or_passed not_found"
  by (auto simp: own_or_passed_def not_found_def)

lemma proxy_answer: "own_or_passed (fst (proxy_to_upstream url answers direct now done_at cb))"
  unfolding proxy_to_upstream_def Let_def by (simp split: prod.split option.split direct_fetch.split)

lemma own_or_passed_headers: "own_or_passed r \<Longrightarrow> (k, v) \<in> set (rs_headers r) \<Longrightarrow> \<not> is_hop_by_hop k"
  using own_headers by (auto simp: own_or_passed_def http_error_def pass_on_def)

text \<open>No hop-by-hop header of an upstream ever reaches the client, on any path through the
  fallback.\<close>

lemma proxy_strips_hop_by_hop:
  assumes "(k, v) \<in> set (rs_headers (fst (proxy_to_upstream url answers direct now done_at cb)))"
  shows "\<not> is_hop_by_hop k"
  using proxy_answer assms by (rule own_or_passed_headers)

text \<open>An open breaker shields the upstream: until the timeout has passed a request is answered 503
  whatever the upstreams would say, and the breaker is left as it is.\<close>

lemma proxy_open_rejects:
  assumes "br_state cb = CircuitOpen" and "time_sub now (br_last_failure cb) \<le> br_timeout cb"
    and "url \<noteq> [] \<or> answers \<noteq> []"
  shows "proxy_to_upstream url answers direct now done_at cb
    = (http_error 503 ''Upstream temporarily unavailable (circuit breaker open)'', cb)"
  using assms by (auto simp: proxy_to_upstream_def allow_def)

text \<open>The requests of one client after another, with the first proxy's answer to each.\<close>

definition proxy_many :: "string \<Rightarrow> direct_fetch \<Rightarrow> (time \<times> time \<times> response) list \<Rightarrow> breaker \<Rightarrow> breaker" where
  "proxy_many url direct rs cb =
     fold (\<lambda>(now, done_at, r) cb. snd (proxy_to_upstream url [r] direct now done_at cb)) rs cb"

text \<open>An upstream that is down never trips the breaker: the reverse proxy turns a failed connection
  into a 502 answer, every answer but 404 counts as a success, and after any number of them the
  breaker is closed with no failure counted.\<close>

lemma outage_never_trips:
  assumes "\<And>now done_at r. (now, done_at, r) \<in> set rs \<Longrightarrow> rs_status r = 502"
    and "br_state cb = CircuitClosed" and "br_failures cb = 0"
  shows "br_state (proxy_many url direct rs cb) = CircuitClosed
    \<and> br_failures (proxy_many url direct rs cb) = 0"
  using assms
proof (induction rs arbitrary: cb)
  case (Cons x rs)
  obtain now done_at r where x: "x = (now, done_at, r)" by (cases x)
  have "snd (proxy_to_upstream url [r] direct now done_at cb) = cb\<lparr>br_failures := 0\<rparr>"
    using Cons.prems(1) [of now done_at r] Cons.prems(2) by (simp add: x proxy_to_upstream_def allow_def record_success_def)
  then have "proxy_many url direct (x # rs) cb = proxy_many url direct rs (cb\<lparr>br_failures := 0\<rparr>)"
    by (simp add: proxy_many_def x)
  moreover have "(n, d, a) \<in> set rs \<Longrightarrow> rs_status a = 502" for n d a
    using Cons.prems(1) by (meson list.set_intros(2))
  ultimately show ?case using Cons.IH [of "cb\<lparr>br_failures := 0\<rparr>"] Cons.prems(2) by simp
qed (simp add: proxy_many_def)

end
