(* ===== verification/Server_State.thy ===== *)
theory Server_State
  imports Server_Lookup Server_Proxy
begin

text \<open>
  The state a running proxy keeps (\<open>pkg/server/server.go\<close>, \<open>handler.go\<close>) and what changes it:
  the start from the disk cache, the refresh, the sync loop, the deletion of a package and the
  cleanup of the negative cache. What the store answers is an argument; what is saved to disk is
  an output. Every operation is atomic under \<open>indexMu\<close>.
\<close>

section \<open>State\<close>

record server =
  sv_index :: "cache_index option"
  sv_digest :: string
  sv_last_fetch :: time
  sv_neg :: "(string, time) fmap"
  sv_can_delete :: bool
  sv_disk :: bool

datatype disk_save = SaveIndex cache_index string

definition new_server :: "bool \<Rightarrow> server" where
  "new_server disk =
     \<lparr>sv_index = None, sv_digest = [], sv_last_fetch = 0, sv_neg = fmempty, sv_can_delete = False,
      sv_disk = disk\<rparr>"

definition lookup_view :: "server \<Rightarrow> lookup_state" where
  "lookup_view s = \<lparr>lk_index = sv_index s, lk_neg = sv_neg s\<rparr>"

section \<open>Refresh, start and sync\<close>

definition refresh_index ::
  "string + cache_index \<Rightarrow> time \<Rightarrow> server \<Rightarrow> string option \<times> disk_save list \<times> server" where
  "refresh_index fetched now s =
     (case fetched of
        Inl err \<Rightarrow> (Some err, [], s)
      | Inr idx \<Rightarrow>
          (None, if sv_disk s then [SaveIndex idx (sv_digest s)] else [],
           s\<lparr>sv_index := Some idx, sv_last_fetch := now\<rparr>))"

text \<open>\<open>disk\<close> is what the disk cache holds, if it can be read; \<open>exists\<close> and \<open>digest\<close> the answer to
  \<open>ManifestExists\<close>.\<close>

definition load_from_disk :: "(cache_index \<times> string) option \<Rightarrow> time \<Rightarrow> server \<Rightarrow> server" where
  "load_from_disk disk now s =
     (case disk of
        None \<Rightarrow> s
      | Some (idx, dg) \<Rightarrow>
          if sv_disk s then s\<lparr>sv_index := Some idx, sv_digest := dg, sv_last_fetch := now\<rparr> else s)"

definition start_server ::
  "(cache_index \<times> string) option \<Rightarrow> bool \<Rightarrow> string \<Rightarrow> string + cache_index \<Rightarrow> time \<Rightarrow> server
    \<Rightarrow> disk_save list \<times> server" where
  "start_server disk exists digest fetched now s0 =
     (let s = load_from_disk disk now s0
      in if exists \<and> digest \<noteq> [] \<and> digest = sv_digest s then ([], s\<lparr>sv_can_delete := True\<rparr>)
         else let s1 = (if exists then s\<lparr>sv_digest := digest\<rparr> else s);
                  (_, saves, s2) = refresh_index fetched now s1
              in (saves, s2\<lparr>sv_can_delete := True\<rparr>))"

definition preflight_answer :: "bool \<Rightarrow> server \<Rightarrow> server" where
  "preflight_answer can_write s = s\<lparr>sv_can_delete := can_write\<rparr>"

definition sync_tick ::
  "bool \<Rightarrow> string \<Rightarrow> string + cache_index \<Rightarrow> time \<Rightarrow> server \<Rightarrow> disk_save list \<times> server" where
  "sync_tick exists remote fetched now s =
     (if \<not> exists then ([], s)
      else if remote \<noteq> [] \<and> remote \<noteq> sv_digest s
      then (case refresh_index fetched now s of
              (Some err, saves, s') \<Rightarrow> (saves, s')
            | (None, saves, s') \<Rightarrow> (saves, s'\<lparr>sv_digest := remote\<rparr>))
      else ([], s))"

section \<open>Deletion\<close>

datatype delete_call = CallFetch | CallPush cache_index

definition delete_from_index :: "string \<Rightarrow> cache_index \<Rightarrow> cache_index" where
  "delete_from_index hash idx =
     idx\<lparr>ix_entries := gm_del (ix_entries idx) hash, ix_roots := gm_del (ix_roots idx) hash\<rparr>"

definition dirty_digest :: "string \<Rightarrow> int \<Rightarrow> string" where
  "dirty_digest digest nano = digest @ ''-dirty-'' @ show_int nano"

text \<open>The answer, the calls on the store, what is saved to disk, and the new state.\<close>

definition delete_package ::
  "string \<Rightarrow> string + cache_index \<Rightarrow> string option \<Rightarrow> int \<Rightarrow> server
    \<Rightarrow> string option \<times> delete_call list \<times> disk_save list \<times> server" where
  "delete_package hash fetched pushed nano s =
     (case fetched of
        Inl err \<Rightarrow> (Some (''failed to fetch index from OCI: '' @ err), [CallFetch], [], s)
      | Inr index \<Rightarrow>
          (if gm_get (ix_entries index) hash = None
           then (Some ''package not found in cache'', [CallFetch], [], s)
           else let index' = delete_from_index hash index; calls = [CallFetch, CallPush index']
                in case pushed of
                     Some err \<Rightarrow>
                       (Some (''failed to update OCI index (verify write permissions): '' @ err), calls, [], s)
                   | None \<Rightarrow>
                       (let dg = dirty_digest (sv_digest s) nano
                        in (None, calls, if sv_disk s then [SaveIndex index' dg] else [],
                            s\<lparr>sv_index := Some index', sv_digest := dg\<rparr>))))"

definition delete_route ::
  "string \<Rightarrow> string + cache_index \<Rightarrow> string option \<Rightarrow> int \<Rightarrow> server
    \<Rightarrow> response \<times> delete_call list \<times> disk_save list \<times> server" where
  "delete_route hash fetched pushed nano s =
     (if length hash \<noteq> 32 then (http_error 400 ''Invalid hash length'', [], [], s)
      else if \<not> sv_can_delete s
      then (http_error 403 ''Deletion is disabled (read-only proxy mode)'', [], [], s)
      else case delete_package hash fetched pushed nano s of
             (Some msg, calls, saves, s') \<Rightarrow>
               (http_error (if str_contains msg ''not found'' then 404 else 500) msg, calls, saves, s')
           | (None, calls, saves, s') \<Rightarrow>
               (\<lparr>rs_status = 200, rs_headers = [], rs_body = ''Package deleted logically and written to OCI''\<rparr>,
                calls, saves, s'))"

section \<open>Cleanup\<close>

definition cleanup_neg :: "time \<Rightarrow> server \<Rightarrow> server" where
  "cleanup_neg now s = s\<lparr>sv_neg := fmfilter (\<lambda>h. case fmlookup (sv_neg s) h of
       None \<Rightarrow> True | Some t \<Rightarrow> time_sub now t \<le> 30 * second) (sv_neg s)\<rparr>"

section \<open>The running server\<close>

inductive server_step :: "server \<Rightarrow> server \<Rightarrow> bool" where
  step_sync: "(\<And>idx. fetched = Inr idx \<Longrightarrow> index_ready idx) \<Longrightarrow>
     server_step s (snd (sync_tick exists remote fetched now s))"
| step_refresh: "(\<And>idx. fetched = Inr idx \<Longrightarrow> index_ready idx) \<Longrightarrow>
     server_step s (snd (snd (refresh_index fetched now s)))"
| step_delete: "(\<And>idx. fetched = Inr idx \<Longrightarrow> index_ready idx) \<Longrightarrow>
     server_step s (snd (snd (snd (delete_route hash fetched pushed nano s))))"
| step_lookup: "get_narinfo now now2 hash (lookup_view s) = (ans, v) \<Longrightarrow>
     server_step s (s\<lparr>sv_neg := lk_neg v\<rparr>)"
| step_cleanup: "server_step s (cleanup_neg now s)"
| step_preflight: "server_step s (preflight_answer can_write s)"

definition serving :: "server \<Rightarrow> bool" where
  "serving s \<longleftrightarrow> (\<exists>idx. sv_index s = Some idx \<and> index_ready idx)"

lemma delete_from_index_ready: "index_ready idx \<Longrightarrow> index_ready (delete_from_index hash idx)"
  unfolding index_ready_def delete_from_index_def by (auto simp: gm_del_def split: option.splits)

lemma server_step_serving: "server_step s s' \<Longrightarrow> serving s \<Longrightarrow> serving s'"
proof (induction rule: server_step.induct)
  case (step_sync fetched s exists remote now)
  then show ?case
    by (cases fetched) (auto simp: sync_tick_def refresh_index_def serving_def)
next
  case (step_refresh fetched s now)
  then show ?case by (cases fetched) (auto simp: refresh_index_def serving_def)
next
  case (step_delete fetched s hash pushed nano)
  then show ?case
    by (cases fetched; cases pushed)
      (auto simp: delete_route_def delete_package_def Let_def serving_def delete_from_index_ready)
qed (auto simp: serving_def cleanup_neg_def preflight_answer_def)

text \<open>Where an index comes from: the registry or the disk. Every reader promises an index that is
  upgraded; this is all the proxy relies on.\<close>

locale index_source =
  fixes read :: "'w \<Rightarrow> cache_index option"
  assumes read_ready: "read w = Some idx \<Longrightarrow> index_ready idx"
begin

lemma load_serving: "read w = Some idx \<Longrightarrow> sv_disk s \<Longrightarrow> serving (load_from_disk (Some (idx, dg)) now s)"
  using read_ready by (auto simp: load_from_disk_def serving_def)

lemma refresh_serving: "read w = Some idx \<Longrightarrow> serving (snd (snd (refresh_index (Inr idx) now s)))"
  using read_ready by (auto simp: refresh_index_def serving_def)

lemma refresh_step: "read w = Some idx \<Longrightarrow> server_step s (snd (snd (refresh_index (Inr idx) now s)))"
  using read_ready by (auto intro: step_refresh)

end

text \<open>C20: A proxy that has an index never loses it: whatever requests, deletions, failed or successful
  refreshes, sync ticks and cleanups follow, it keeps serving from an index that is loaded and
  upgraded.\<close>

theorem server_keeps_serving:
  assumes "server_step\<^sup>*\<^sup>* s s'" and "serving s"
  shows "serving s'"
  using assms by (induction rule: rtranclp_induct) (auto intro: server_step_serving)

theorem server_keeps_serving_witness:
  "serving (cleanup_neg 9 ((new_server True)\<lparr>sv_index := Some (new_index ''r'' ''o'' 0)\<rparr>))"
proof -
  let ?s = "(new_server True)\<lparr>sv_index := Some (new_index ''r'' ''o'' 0)\<rparr>"
  have "server_step\<^sup>*\<^sup>* ?s (cleanup_neg 9 ?s)" by (rule r_into_rtranclp) (rule step_cleanup)
  moreover have "serving ?s" by (simp add: serving_def new_index_ready)
  ultimately show ?thesis by (rule server_keeps_serving)
qed

section \<open>Synchronisation\<close>

text \<open>A sync tick brings the proxy up to date: when the store has another index and the fetch succeeds,
  the proxy serves what it fetched under the store's digest, and the next tick with that digest
  changes nothing; when the fetch fails the proxy is left as it was.\<close>

lemma sync_tick_converges:
  assumes "remote \<noteq> []" and "remote \<noteq> sv_digest s"
  shows "(case fetched of
      Inl err \<Rightarrow> snd (sync_tick True remote fetched now s) = s
    | Inr idx \<Rightarrow>
        sv_index (snd (sync_tick True remote fetched now s)) = Some idx
        \<and> sv_digest (snd (sync_tick True remote fetched now s)) = remote
        \<and> sync_tick True remote fetched' now' (snd (sync_tick True remote fetched now s))
          = ([], snd (sync_tick True remote fetched now s)))"
  using assms by (cases fetched) (auto simp: sync_tick_def refresh_index_def)

text \<open>C37: A start whose refresh fails leaves the proxy stale: it has recorded the store's digest without
  the index of that digest, so no later sync tick with the same digest fetches anything, and the
  index of the disk cache is served until the store changes again.\<close>

theorem failed_start_stays_stale:
  assumes "digest \<noteq> []" and "disk = Some (old, old_digest)" and "old_digest \<noteq> digest" and "sv_disk s0"
  shows "let s = snd (start_server disk True digest (Inl err) now s0) in
    sv_index s = Some old \<and> sv_digest s = digest
    \<and> (\<forall>fetched now'. sync_tick True digest fetched now' s = ([], s))"
  using assms by (auto simp: start_server_def load_from_disk_def refresh_index_def sync_tick_def Let_def)

theorem failed_start_stays_stale_witness:
  "sync_tick True ''sha256:2'' (Inr (new_index ''r'' ''new'' 1)) 9
     (snd (start_server (Some (new_index ''r'' ''old'' 0, ''sha256:1'')) True ''sha256:2'' (Inl ''timeout'') 5 (new_server True)))
   = ([], snd (start_server (Some (new_index ''r'' ''old'' 0, ''sha256:1'')) True ''sha256:2'' (Inl ''timeout'') 5 (new_server True)))"
  using failed_start_stays_stale [of "''sha256:2''" "Some (new_index ''r'' ''old'' 0, ''sha256:1'')"
      "new_index ''r'' ''old'' 0" "''sha256:1''" "new_server True" "''timeout''" 5]
  by (simp add: new_server_def Let_def)

section \<open>Deletion\<close>

lemma dirty_digest_neq: "dirty_digest d n \<noteq> d"
  by (simp add: dirty_digest_def)

text \<open>C17: A deletion answers 200 only after the store has accepted an index without the package: the
  pushed index, the served one and the saved one are the fetched index less the entry and its pin,
  with every other entry untouched; any other answer leaves the served index alone.\<close>

theorem delete_route_spec:
  assumes "delete_route hash fetched pushed nano s = (resp, calls, saves, s')"
  shows "if rs_status resp = 200
    then \<exists>idx. fetched = Inr idx \<and> pushed = None
      \<and> calls = [CallFetch, CallPush (delete_from_index hash idx)]
      \<and> sv_index s' = Some (delete_from_index hash idx) \<and> sv_digest s' \<noteq> sv_digest s
      \<and> (sv_disk s \<longrightarrow> saves = [SaveIndex (delete_from_index hash idx) (sv_digest s')])
      \<and> index_entry (sv_index s') hash = None
      \<and> (\<forall>h. h \<noteq> hash \<longrightarrow> index_entry (sv_index s') h = gm_get (ix_entries idx) h)
    else s' = s \<and> saves = []"
  using assms
  by (cases fetched; cases pushed)
    (auto simp: delete_route_def delete_package_def Let_def http_error_def index_entry_def
      delete_from_index_def keyed dirty_digest_neq split: if_splits)

definition one_entry :: "string \<Rightarrow> cache_index" where
  "one_entry h = (new_index ''r'' ''o'' 0)\<lparr>ix_entries := Some (fmap_of_list
     [(h, \<lparr>it_name = ''a'', it_narinfo = [], it_nar_digest = [], it_nar_size = 1, it_added = 0,
           it_last_used = 0, it_uploaded_at = 0, it_references = [], it_source = []\<rparr>)])\<rparr>"

theorem delete_route_spec_witness:
  "\<exists>resp calls saves s'. delete_route (replicate 32 CHR ''a'') (Inr (one_entry (replicate 32 CHR ''a''))) None 7
     ((new_server True)\<lparr>sv_can_delete := True\<rparr>) = (resp, calls, saves, s')
     \<and> rs_status resp = 200 \<and> index_entry (sv_index s') (replicate 32 CHR ''a'') = None"
proof -
  let ?h = "replicate 32 CHR ''a''"
  obtain resp calls saves s' where d: "delete_route ?h (Inr (one_entry ?h)) None 7
      ((new_server True)\<lparr>sv_can_delete := True\<rparr>) = (resp, calls, saves, s')"
    by (metis prod_cases4)
  then have "rs_status resp = 200"
    by (auto simp: delete_route_def delete_package_def one_entry_def gm_get_def Let_def)
  with delete_route_spec [OF d] d show ?thesis by auto
qed

section \<open>The negative cache\<close>

lemma time_sub_mono: "t \<le> t' \<Longrightarrow> time_sub t u \<le> time_sub t' u"
  by (simp add: time_sub_def)

text \<open>Cleaning the negative cache is not visible: a lookup after the cleanup gives the answer it would
  have given without it, because what the cleanup drops is older than what a lookup respects.\<close>

lemma cleanup_invisible:
  assumes "t0 \<le> now"
  shows "fst (get_narinfo now now2 hash (lookup_view (cleanup_neg t0 s)))
    = fst (get_narinfo now now2 hash (lookup_view s))"
proof -
  have "time_sub now t \<le> 5 * second \<Longrightarrow> time_sub t0 t \<le> 30 * second" for t
    using time_sub_mono [OF assms, of t] by (simp add: second_def)
  then show ?thesis
    by (auto simp: get_narinfo_def lookup_view_def cleanup_neg_def Let_def split: option.splits)
qed

section \<open>What the log shows\<close>

definition index_count :: "server \<Rightarrow> nat" where
  "index_count s = (case sv_index s of None \<Rightarrow> 0 | Some idx \<Rightarrow> gm_len (ix_entries idx))"

definition short_digest :: "string \<Rightarrow> string" where
  "short_digest digest =
     (let parts = split_on (CHR '':'') digest
      in if length parts = 2 \<and> 8 < length (parts ! 1) then parts ! 0 @ '':'' @ take 8 (parts ! 1)
         else if 8 < length digest then take 8 digest else digest)"

lemma short_digest_sha256:
  assumes "CHR '':'' \<notin> set hex" and "8 < length hex"
  shows "short_digest (sha256_prefix @ hex) = sha256_prefix @ take 8 hex"
proof -
  have "split_on (CHR '':'') (''sha256'' @ CHR '':'' # hex) = [''sha256'', hex]"
    using assms(1) by (subst split_on_append_sep) (simp_all add: split_on_no_sep)
  then show ?thesis using assms(2) by (simp add: short_digest_def sha256_prefix_def)
qed

end
