(* ===== verification/Noci_System.thy ===== *)
theory Noci_System
  imports Server_State App_Props
begin

text \<open>
  The parts together: the registry as a source of the proxy's index, and the way of a path from a
  publish through the registry to a client of the proxy.
\<close>

section \<open>The registry feeds the proxy\<close>

definition registry_index :: "network \<Rightarrow> codecs \<Rightarrow> world \<Rightarrow> cache_index option" where
  "registry_index nt cd w = (case fst (fetch_index nt cd w) of Inl _ \<Rightarrow> None | Inr idx \<Rightarrow> Some idx)"

lemma fetch_index_ready: "fst (fetch_index nt cd w) = Inr idx \<Longrightarrow> index_ready idx"
  using fetch_index_upgraded [of nt cd w idx "snd (fetch_index nt cd w)"] upgraded_fields [of idx]
  by (simp add: index_ready_def prod_eq_iff)

interpretation registry: index_source "registry_index nt cd" for nt cd
  by unfold_locales (auto simp: registry_index_def fetch_index_ready split: sum.splits)

lemma refresh_from_registry:
  assumes "fst (fetch_index nt cd w) = Inr idx"
  shows "serving (snd (snd (refresh_index (fst (fetch_index nt cd w)) now s)))"
  using registry.refresh_serving [of nt cd w idx] assms by (simp add: registry_index_def)

section \<open>From the publisher to the client\<close>

lemma join_nonempty: "ls \<noteq> [] \<Longrightarrow> ls \<noteq> [[]] \<Longrightarrow> sep \<noteq> [] \<Longrightarrow> join sep ls \<noteq> []"
  by (cases "(sep, ls)" rule: join.cases) auto

lemma rewrite_line_nonempty: "l \<noteq> [] \<Longrightarrow> rewrite_line d l \<noteq> []"
  by (auto simp: rewrite_line_def)

lemma rewrite_first_url_blank: "ls \<noteq> [] \<Longrightarrow> ls \<noteq> [[]] \<Longrightarrow> rewrite_first_url d ls \<noteq> [[]]"
  by (cases ls; cases "tl ls") (auto simp: rewrite_line_def)

lemma rewritten_nonempty:
  assumes "it_narinfo e \<noteq> []"
  shows "rewrite_narinfo_url e \<noteq> []"
proof -
  let ?ls = "split_on (CHR 0x0A) (it_narinfo e)"
  have "?ls \<noteq> [[]]" "?ls \<noteq> []"
    using join_split [of "CHR 0x0A" "it_narinfo e"] assms by (metis join.simps(2), metis join.simps(1))
  then have "join newline (rewrite_first_url (it_nar_digest e) ?ls) \<noteq> []"
    by (intro join_nonempty rewrite_first_url_nonempty rewrite_first_url_blank) (simp_all add: newline_def)
  then show ?thesis using assms by (simp add: rewrite_narinfo_url_def)
qed

text \<open>C7: A published path is served: once the publisher has merged its results into the index of the
  registry and nothing was written since, a proxy that refreshes answers the hash (of 32 characters) of
  every uploaded path that has a narinfo with the narinfo of that upload, its URL rewritten, unless it
  missed the hash within the last five seconds, and resolves the file named by the hash to the digest
  of the uploaded blob. The registry keeps tags and blobs and gives out tokens, the context lives, and
  the codecs read back what they wrote.\<close>

theorem published_is_served:
  assumes merge: "stage_merge nt cd initial digest results w = (Done (Some idx'), w')" "distinct (map ur_hash results)"
    and res: "r \<in> set results" "length (ur_hash r) = 32" "ur_narinfo r \<noteq> []"
    and later: "w_log w'' = w_log w' @ h'" "reads h'" "base_url w'' = base_url w"
    and tags: "keeps_tags nt (base_url w)" and blobs: "keeps_blobs nt cd (registry_of w) (base_url w)"
    and codec: "carries nt cd idx'"
    and token: "\<And>v. \<exists>token v'. get_oci_token nt ''pull'' v = (Inr token, v')"
    and cancel: "\<And>i. nt_cancelled nt i = None"
    and refresh: "refresh_index (fst (fetch_index nt cd w'')) now s = (err, saves, s')"
    and neg: "\<And>t. fmlookup (sv_neg s) (ur_hash r) = Some t \<Longrightarrow> 5 * second < time_sub now1 t"
  shows "\<exists>e. it_narinfo e = ur_narinfo r \<and> it_nar_digest e = bare_hex (ur_digest r)
    \<and> fst (get_narinfo now1 now2 (ur_hash r) (lookup_view s')) = Some (rewrite_narinfo_url e)
    \<and> (CHR ''.'' \<notin> set (ur_hash r) \<longrightarrow>
         resolve_nar_digest (sv_index s') (ur_hash r @ ''.nar.zst'') = Some (sha256_prefix @ bare_hex (ur_digest r)))"
proof -
  obtain target_index w1 merged w2 w3 where m: "merge_target nt cd initial digest w = (Inr target_index, w1)"
    "add_results nt results target_index w1 = (Some merged, w2)" "push_index nt cd merged w2 = (Done idx', w3)"
    "w3 = w'"
    using stage_merge_target [OF merge(1)] by blast
  have base: "base_url w2 = base_url w" "registry_of w2 = registry_of w"
    using merge_target_world [OF m(1)] add_results_world [OF m(2)] by simp_all
  have "r = r'" if "r' \<in> set results" "ur_hash r' = ur_hash r" for r'
    using that merge(2) res(1) by (auto simp: distinct_map inj_on_def)
  then obtain t where e1: "gm_get (ix_entries merged) (ur_hash r)
      = Some (new_item (ur_name r) (ur_narinfo r) (ur_digest r) (ur_size r) (ur_refs r) t)"
    using add_results_get [OF m(2)] res(1) by (metis imageI)
  let ?e = "backfill_item (new_item (ur_name r) (ur_narinfo r) (ur_digest r) (ur_size r) (ur_refs r) t)"
  have tb: "keeps_tags nt (base_url w2)" "keeps_blobs nt cd (registry_of w2) (base_url w2)"
    unfolding base(1) unfolding base(2) by (rule tags, rule blobs)
  have lg: "w_log w'' = w_log w3 @ h'" "base_url w'' = base_url w2"
    unfolding base(1) m(4) by (rule later(1), rule later(3))
  have "\<exists>clk. fst (fetch_index nt cd w'') = Inr (upgrade clk idx')"
    by (rule pushed_index_fetched [OF m(3) lg(1) later(2) lg(2) tb codec token cancel])
  then obtain clk where f: "fst (fetch_index nt cd w'') = Inr (upgrade clk idx')" by blast
  have s': "sv_index s' = Some (upgrade clk idx')" "sv_neg s' = sv_neg s"
    using refresh unfolding f by (auto simp: refresh_index_def)
  have entry: "index_entry (sv_index s') (ur_hash r) = Some ?e"
    using e1 push_index_entries [OF m(3)] by (simp add: s'(1) index_entry_def upgrade_get_entry)
  have n: "it_narinfo ?e = ur_narinfo r" "it_nar_digest ?e = bare_hex (ur_digest r)" by (simp_all add: new_item_def)
  have "fst (get_narinfo now1 now2 (ur_hash r) (lookup_view s')) = Some (rewrite_narinfo_url ?e)"
    using entry res(2) rewritten_nonempty [of ?e] n(1) res(3) neg s'(2)
    by (auto simp: get_narinfo_def lookup_view_def Let_def split: option.split)
  moreover have "resolve_nar_digest (sv_index s') (ur_hash r @ ''.nar.zst'') = Some (sha256_prefix @ bare_hex (ur_digest r))"
    if "CHR ''.'' \<notin> set (ur_hash r)"
  proof -
    have "before_dot (ur_hash r @ ''.nar.zst'') = ur_hash r"
      using that by (simp add: before_dot_def takeWhile_append)
    with entry res(2) n(2) show ?thesis by (simp add: resolve_nar_digest_def Let_def)
  qed
  ultimately show ?thesis using n by blast
qed

section \<open>A run\<close>

text \<open>A registry that starts with an index of one pinned path of somebody else, and the upload of another.\<close>

definition served_key :: string where "served_key = replicate 32 CHR ''1''"

definition served_result :: upload_result where
  "served_result = \<lparr>ur_hash = served_key, ur_name = ''x-1.0'', ur_narinfo = ''StorePath: x'',
     ur_digest = sha256_prefix @ ''00'', ur_size = 5, ur_refs = []\<rparr>"

definition their_index :: cache_index where
  "their_index = (new_index ''r'' ''o'' 1)\<lparr>ix_roots := Some (fmap_of_list [(other_key, \<lparr>rt_pinned_at = 1, rt_ttl = 0\<rparr>)]),
     ix_entries := Some (fmap_of_list [(other_key, new_item ''y'' ''StorePath: y'' ''11'' 1 [] 1)])\<rparr>"

definition serving_registry :: network where
  "serving_registry = archive (base_url idle) ''d'' (\<lambda>_. seed_manifest their_index)"

lemma served_merge:
  "\<exists>idx' w'. stage_merge serving_registry wire_codecs (new_index ''r'' ''o'' 0) [] [served_result] idle = (Done (Some idx'), w')
    \<and> base_url w' = base_url idle \<and> gm_get (ix_roots idx') other_key \<noteq> None"
proof -
  let ?i = "upgrade (\<lambda>_. 1) their_index"
  have n: "\<not> put_seen url (w_log idle)" for url by (simp add: idle_def put_seen_def)
  obtain w1 where h: "manifest_exists serving_registry ''noci-index'' idle = ((True, ''d''), w1)" "base_url w1 = base_url idle"
    "\<forall>url. put_seen url (w_log w1) = put_seen url (w_log idle)"
    using archive_head [OF refl, of idle "''d''" "\<lambda>_. seed_manifest their_index"] unfolding serving_registry_def by blast
  have n1: "\<not> put_seen (index_url (base_url idle)) (w_log w1)" using h(3) n by blast
  obtain w2 where f: "fetch_index serving_registry wire_codecs w1 = (Inr ?i, w2)" "base_url w2 = base_url idle"
    using archive_fetch [OF h(2) n1, of "\<lambda>_. seed_manifest their_index" their_index "''d''"] unfolding serving_registry_def by blast
  have t: "merge_target serving_registry wire_codecs (new_index ''r'' ''o'' 0) [] idle = (Inr ?i, w2)"
    by (simp add: merge_target_def h(1) f(1))
  have "ix_entries ?i \<noteq> None" by (simp add: upgrade_def their_index_def Let_def)
  then obtain merged w3 where a: "add_results serving_registry [served_result] ?i w2 = (Some merged, w3)"
    by (auto simp: add_entry_def gm_set_def split_beta Let_def)
  obtain w4 where p: "push_index serving_registry wire_codecs merged w3 = (Done (merged\<lparr>ix_generated := 1\<rparr>), w4)"
    "base_url w4 = base_url w3"
    using archive_push unfolding serving_registry_def by blast
  have "stage_merge serving_registry wire_codecs (new_index ''r'' ''o'' 0) [] [served_result] idle
      = (Done (Some (merged\<lparr>ix_generated := 1\<rparr>)), w4)"
    unfolding stage_merge_def t prod.case sum.case a option.case p(1) go_outcome.case by simp
  moreover have "base_url w4 = base_url idle"
    unfolding p(2) conjunct2 [OF add_results_world [OF a]] by (rule f(2))
  moreover have "gm_get (ix_roots (merged\<lparr>ix_generated := 1\<rparr>)) other_key \<noteq> None"
    using add_results_get [OF a] upgrade_migrates_roots [of their_index other_key _ "\<lambda>_. 1"]
    by (simp add: their_index_def)
  ultimately show ?thesis by blast
qed

theorem published_is_served_witness:
  "\<exists>idx' w' err saves s' e.
      stage_merge serving_registry wire_codecs (new_index ''r'' ''o'' 0) [] [served_result] idle = (Done (Some idx'), w')
    \<and> gm_get (ix_roots idx') other_key \<noteq> None
    \<and> refresh_index (fst (fetch_index serving_registry wire_codecs w')) 0 (new_server False) = (err, saves, s')
    \<and> it_narinfo e = ''StorePath: x''
    \<and> fst (get_narinfo 0 0 (ur_hash served_result) (lookup_view s')) = Some (rewrite_narinfo_url e)
    \<and> resolve_nar_digest (sv_index s') (ur_hash served_result @ ''.nar.zst'') = Some (sha256_prefix @ ''00'')"
proof -
  obtain idx' w' where m: "stage_merge serving_registry wire_codecs (new_index ''r'' ''o'' 0) [] [served_result] idle
      = (Done (Some idx'), w')" and b: "base_url w' = base_url idle" and o: "gm_get (ix_roots idx') other_key \<noteq> None"
    using served_merge by blast
  obtain err saves s' where r: "refresh_index (fst (fetch_index serving_registry wire_codecs w')) 0 (new_server False) = (err, saves, s')"
    by (metis prod.exhaust)
  have log: "w_log w' = w_log w' @ []" and none: "reads []" by (simp_all add: reads_def)
  have blobs: "keeps_blobs serving_registry wire_codecs (registry_of idle) (base_url idle)"
    unfolding serving_registry_def by (rule archive_blobs) (simp add: wire_codecs_def)
  have tags: "keeps_tags serving_registry (base_url idle)" unfolding serving_registry_def by (rule archive_tags)
  have token: "\<exists>token v'. get_oci_token serving_registry ''pull'' v = (Inr token, v')" for v
    unfolding serving_registry_def by (rule archive_token)
  have cancel: "nt_cancelled serving_registry i = None" for i by (simp add: serving_registry_def)
  have d: "distinct (map ur_hash [served_result])" "served_result \<in> set [served_result]"
    "length (ur_hash served_result) = 32" "ur_narinfo served_result \<noteq> []"
    by (simp_all add: served_result_def served_key_def)
  have neg: "fmlookup (sv_neg (new_server False)) (ur_hash served_result) = Some t \<Longrightarrow> 5 * second < time_sub 0 t" for t
    by (simp add: new_server_def)
  have dot: "CHR ''.'' \<notin> set (ur_hash served_result)" by (simp add: served_result_def served_key_def)
  have x: "bare_hex (ur_digest served_result) = ''00''" "ur_narinfo served_result = ''StorePath: x''"
    by (simp_all add: served_result_def bare_hex_def trim_prefix_def sha256_prefix_def)
  from published_is_served [OF m d(1-4) log none b tags blobs wire_carries token cancel r neg] dot
  have "\<exists>e. it_narinfo e = ''StorePath: x'' \<and> fst (get_narinfo 0 0 (ur_hash served_result) (lookup_view s')) = Some (rewrite_narinfo_url e)
    \<and> resolve_nar_digest (sv_index s') (ur_hash served_result @ ''.nar.zst'') = Some (sha256_prefix @ ''00'')"
    unfolding x by blast
  with m o r show ?thesis by blast
qed

end
