(* ===== verification/Server_Http.thy ===== *)
theory Server_Http
  imports Server_State Go_Time
begin

text \<open>
  The HTTP side of the proxy: authentication, the rate limiter, the middleware with its request
  counts, the routes and their handlers (\<open>pkg/server/server.go\<close>, \<open>handler.go\<close>). Floats are those
  of \<open>Go_Time\<close>; the clock is monotonic, so elapsed times are not negative.
\<close>

section \<open>Requests and authentication\<close>

record request =
  rq_method :: string
  rq_path :: string
  rq_key :: string
  rq_basic :: "(string \<times> string) option"
  rq_ip :: string
  rq_page :: string
  rq_limit :: string
  rq_search :: string

definition check_auth :: "string \<Rightarrow> request \<Rightarrow> bool" where
  "check_auth auth_key r =
     (if auth_key = [] then True
      else if rq_key r \<noteq> [] then rq_key r = auth_key
      else case rq_basic r of Some (user, pass) \<Rightarrow> pass = auth_key | None \<Rightarrow> False)"

section \<open>Rate limiter\<close>

record token_bucket =
  tb_tokens :: "int \<times> nat"
  tb_last :: time

record rate_limiter =
  rl_buckets :: "(string, token_bucket) fmap"
  rl_rate :: "int \<times> nat"
  rl_burst :: int

definition f64_less :: "int \<times> nat \<Rightarrow> int \<times> nat \<Rightarrow> bool" where
  "f64_less x y \<longleftrightarrow> fst x * 2 ^ snd y < fst y * 2 ^ snd x"

definition f64_sub :: "int \<times> nat \<Rightarrow> int \<times> nat \<Rightarrow> int \<times> nat" where
  "f64_sub x y = f64 (fst x * 2 ^ snd y - fst y * 2 ^ snd x) (2 ^ (snd x + snd y))"

definition new_rate_limiter :: "int \<times> nat \<Rightarrow> int \<Rightarrow> rate_limiter" where
  "new_rate_limiter rate burst = \<lparr>rl_buckets = fmempty, rl_rate = rate, rl_burst = burst\<rparr>"

definition rl_cleanup :: "time \<Rightarrow> rate_limiter \<Rightarrow> rate_limiter" where
  "rl_cleanup now rl = rl\<lparr>rl_buckets := fmfilter (\<lambda>ip. case fmlookup (rl_buckets rl) ip of
       None \<Rightarrow> True | Some b \<Rightarrow> time_sub now (tb_last b) \<le> 5 * minute) (rl_buckets rl)\<rparr>"

definition refill :: "rate_limiter \<Rightarrow> time \<Rightarrow> token_bucket \<Rightarrow> token_bucket" where
  "refill rl now b =
     (let elapsed = seconds_f64 (time_sub now (tb_last b));
          t = f64_add (tb_tokens b) (f64_mul elapsed (rl_rate rl));
          full = f64_of_int (rl_burst rl)
      in \<lparr>tb_tokens = (if f64_less full t then full else t), tb_last = now\<rparr>)"

definition rl_allow :: "time \<Rightarrow> string \<Rightarrow> rate_limiter \<Rightarrow> bool \<times> rate_limiter" where
  "rl_allow now ip rl =
     (let b0 = (case fmlookup (rl_buckets rl) ip of
                  None \<Rightarrow> \<lparr>tb_tokens = f64_of_int (rl_burst rl), tb_last = now\<rparr> | Some b \<Rightarrow> b);
          b = refill rl now b0
      in if f64_less (tb_tokens b) (f64_of_int 1)
         then (False, rl\<lparr>rl_buckets := fmupd ip b (rl_buckets rl)\<rparr>)
         else (True, rl\<lparr>rl_buckets := fmupd ip (b\<lparr>tb_tokens := f64_sub (tb_tokens b) (f64_of_int 1)\<rparr>) (rl_buckets rl)\<rparr>))"

section \<open>The server behind the routes\<close>

record http_server =
  hs_server :: server
  hs_breaker :: breaker
  hs_limiter :: "rate_limiter option"
  hs_counts :: "(string, int) fmap"
  hs_auth_key :: string
  hs_upstream :: string

text \<open>\<open>parses\<close> says which upstream URLs can be parsed, \<open>disk\<close> whether there is a disk cache. The second
  component is the reverse proxies in the order they are tried; \<open>None\<close> is the panic on an empty
  argument.\<close>

definition limiter_for :: "int \<times> nat \<Rightarrow> rate_limiter option" where
  "limiter_for rate =
     (if fst rate \<le> 0 then None
      else let burst = f64_trunc (f64_mul rate (f64_of_int 2))
           in Some (new_rate_limiter rate (if burst < 1 then 1 else burst)))"

definition new_http_server ::
  "string \<Rightarrow> string \<Rightarrow> string \<Rightarrow> string \<Rightarrow> int \<times> nat \<Rightarrow> string list \<Rightarrow> (string \<Rightarrow> bool) \<Rightarrow> bool
    \<Rightarrow> (http_server \<times> string list) option" where
  "new_http_server registry repo addr auth_key rate upstreams parses disk =
     (if registry = [] \<or> repo = [] \<or> addr = [] then None
      else Some (\<lparr>hs_server = new_server disk, hs_breaker = new_breaker 5 (30 * second),
                  hs_limiter = limiter_for rate, hs_counts = fmempty, hs_auth_key = auth_key,
                  hs_upstream = (case upstreams of u # us \<Rightarrow> if parses u then u else [] | [] \<Rightarrow> [])\<rparr>,
                 filter parses upstreams))"

text \<open>What the store and the upstreams answer during one request, and the clock it reads.\<close>

text \<open>\<open>Cut\<close>: the transfer ended with an error after the part it holds.\<close>

datatype stream_answer = Streamed string | Cut string | Redirected int string | StreamFailed

record surroundings =
  sr_now :: time
  sr_done :: time
  sr_proxies :: "response list"
  sr_direct :: direct_fetch
  sr_fetch :: "string + cache_index"
  sr_push :: "string option"
  sr_manifest :: "string + (string \<Rightarrow> string option)"
  sr_stream :: "string \<Rightarrow> stream_answer"
  sr_order :: "string list"
  sr_order2 :: "string list"

definition count_request :: "string \<Rightarrow> string \<Rightarrow> string \<Rightarrow> string \<Rightarrow> (string, int) fmap \<Rightarrow> (string, int) fmap" where
  "count_request mthd path status source m =
     (let key = mthd @ '' '' @ path @ '' '' @ status @ '' '' @ source
      in fmupd key (add64 (case fmlookup m key of None \<Rightarrow> 0 | Some n \<Rightarrow> n) 1) m)"

definition ok_text :: "string \<Rightarrow> string \<Rightarrow> response" where
  "ok_text ctype body = \<lparr>rs_status = 200, rs_headers = [(''Content-Type'', ctype)], rs_body = body\<rparr>"

section \<open>The response writer\<close>

text \<open>\<open>loggingResponseWriter\<close> over the writer of the server: the first \<open>WriteHeader\<close> sends the headers as
  they are then, a later one is ignored, and a write without one sends status 200.\<close>

record writer =
  wr_status :: int
  wr_wrote :: bool
  wr_header :: "(string \<times> string) list"
  wr_sent :: "(string \<times> string) list"
  wr_body :: string

definition new_writer :: writer where
  "new_writer = \<lparr>wr_status = 404, wr_wrote = False, wr_header = [], wr_sent = [], wr_body = []\<rparr>"

definition write_header :: "int \<Rightarrow> writer \<Rightarrow> writer" where
  "write_header code w =
     (if wr_wrote w then w else w\<lparr>wr_status := code, wr_wrote := True, wr_sent := wr_header w\<rparr>)"

definition write_bytes :: "string \<Rightarrow> writer \<Rightarrow> writer" where
  "write_bytes b w = (let w1 = write_header 200 w in w1\<lparr>wr_body := wr_body w1 @ b\<rparr>)"

definition set_content_type :: "string \<Rightarrow> writer \<Rightarrow> writer" where
  "set_content_type t w = w\<lparr>wr_header := [(''Content-Type'', t)]\<rparr>"

text \<open>\<open>http.Error\<close> sets its own content type and forbids sniffing it.\<close>

definition write_error :: "int \<Rightarrow> string \<Rightarrow> writer \<Rightarrow> writer" where
  "write_error code msg w =
     write_bytes (msg @ newline) (write_header code
       (w\<lparr>wr_header := [(''Content-Type'', ''text/plain; charset=utf-8''), (''X-Content-Type-Options'', ''nosniff'')]\<rparr>))"

definition written :: "writer \<Rightarrow> response" where
  "written w = \<lparr>rs_status = wr_status w, rs_headers = wr_sent w, rs_body = wr_body w\<rparr>"

lemmas writer_defs = new_writer_def write_header_def write_bytes_def set_content_type_def write_error_def written_def

lemma written_error: "written (write_error code msg (set_content_type t new_writer)) = http_error code msg"
  by (simp add: writer_defs http_error_def newline_def)

lemma written_ok: "written (write_bytes body (set_content_type t new_writer)) = ok_text t body"
  by (simp add: writer_defs ok_text_def)

text \<open>After the first byte an error can no longer be told by the status.\<close>

lemma late_error:
  "rs_status (written (write_error code msg (write_bytes b w))) = rs_status (written (write_bytes b w))"
  by (simp add: writer_defs)

section \<open>Handlers\<close>

text \<open>What a handler leaves in its writer: an answer, only headers, which the server then sends with
  status 200 and no body, or nothing since it panicked. A \<open>HEAD\<close> request gets no body.\<close>

datatype reply = Answer response | Unwritten "(string \<times> string) list" | Aborted

definition reply_of :: "writer \<Rightarrow> reply" where
  "reply_of w = (if wr_wrote w then Answer (written w) else Unwritten (wr_header w))"

definition client_response :: "reply \<Rightarrow> response option" where
  "client_response a =
     (case a of Answer r \<Rightarrow> Some r
      | Unwritten hs \<Rightarrow> Some \<lparr>rs_status = 200, rs_headers = hs, rs_body = []\<rparr>
      | Aborted \<Rightarrow> None)"

text \<open>The status the middleware counts is the one in the writer, 404 until a header is written.\<close>

definition logged_status :: "reply \<Rightarrow> int" where
  "logged_status a = (case a of Answer r \<Rightarrow> rs_status r | _ \<Rightarrow> wr_status new_writer)"

text \<open>A handler gives the reply, the source it sets and the new state.\<close>

type_synonym handled = "reply \<times> string \<times> http_server"

definition handle_cache_info :: "http_server \<Rightarrow> handled" where
  "handle_cache_info h =
     (Answer (ok_text ''text/x-nix-cache-info''
        (''StoreDir: /nix/store'' @ newline @ ''WantMassQuery: 1'' @ newline @ ''Priority: 40'' @ newline)),
      ''cache'', h)"

definition fetch_public_key :: "string + (string \<Rightarrow> string option) \<Rightarrow> string option" where
  "fetch_public_key manifest =
     (case manifest of
        Inl _ \<Rightarrow> None
      | Inr annotations \<Rightarrow>
          (case annotations ''org.nix.public_key'' of
             Some k \<Rightarrow> if k \<noteq> [] then Some k else None
           | None \<Rightarrow> None))"

definition handle_public_key :: "surroundings \<Rightarrow> http_server \<Rightarrow> handled" where
  "handle_public_key sr h =
     (case fetch_public_key (sr_manifest sr) of
        None \<Rightarrow> (Answer (http_error 404 ''Public key not found''), [], h)
      | Some k \<Rightarrow> (Answer (ok_text ''text/plain'' (k @ newline)), ''cache'', h))"

definition upstream_handled :: "surroundings \<Rightarrow> http_server \<Rightarrow> handled" where
  "upstream_handled sr h =
     (let (resp, cb) = proxy_to_upstream (hs_upstream h) (sr_proxies sr) (sr_direct sr) (sr_now sr) (sr_done sr) (hs_breaker h)
      in (Answer resp, ''upstream'', h\<lparr>hs_breaker := cb\<rparr>))"

definition set_neg :: "(string, time) fmap \<Rightarrow> http_server \<Rightarrow> http_server" where
  "set_neg neg h = h\<lparr>hs_server := (hs_server h)\<lparr>sv_neg := neg\<rparr>\<rparr>"

definition narinfo_hash :: "string \<Rightarrow> string" where
  "narinfo_hash path = trim_prefix (trim_suffix path ''.narinfo'') ''/''"

definition handle_narinfo :: "surroundings \<Rightarrow> string \<Rightarrow> http_server \<Rightarrow> handled" where
  "handle_narinfo sr path h =
     (let (content, v) = get_narinfo (sr_now sr) (sr_done sr) (narinfo_hash path) (lookup_view (hs_server h));
          h1 = set_neg (lk_neg v) h
      in case content of
           None \<Rightarrow> upstream_handled sr h1
         | Some text \<Rightarrow> (Answer (ok_text ''text/x-nix-narinfo'' text), ''cache'', h1))"

definition handle_catch_all :: "surroundings \<Rightarrow> string \<Rightarrow> http_server \<Rightarrow> handled" where
  "handle_catch_all sr path h =
     (if has_suffix path ''.narinfo'' then handle_narinfo sr path h else (Answer not_found, [], h))"

text \<open>A copy of nothing writes nothing.\<close>

definition write_copied :: "string \<Rightarrow> writer \<Rightarrow> writer" where
  "write_copied part w = (if part = [] then w else write_bytes part w)"

definition stream_blob :: "surroundings \<Rightarrow> string \<Rightarrow> reply" where
  "stream_blob sr raw =
     (case parse_oci_digest raw of
        Inl _ \<Rightarrow> reply_of (write_error 400 ''Invalid digest format'' new_writer)
      | Inr digest \<Rightarrow>
          (let w = set_content_type ''application/x-nix-nar'' new_writer in
           case sr_stream sr digest of
             Streamed body \<Rightarrow> reply_of (write_copied body w)
           | Cut part \<Rightarrow> reply_of (write_error 404 ''Failed to stream archive'' (write_copied part w))
           | Redirected code loc \<Rightarrow> reply_of (write_header code (w\<lparr>wr_header := wr_header w @ [(''Location'', loc)]\<rparr>))
           | StreamFailed \<Rightarrow> reply_of (write_error 404 ''Failed to stream archive'' w)))"

definition handle_nar :: "surroundings \<Rightarrow> string \<Rightarrow> http_server \<Rightarrow> handled" where
  "handle_nar sr filename h =
     (case resolve_nar_digest (sv_index (hs_server h)) filename of
        None \<Rightarrow> upstream_handled sr h
      | Some digest \<Rightarrow> (stream_blob sr digest, ''cache'', h))"

record health =
  he_status :: string
  he_loaded :: bool
  he_count :: int
  he_digest :: string
  he_can_delete :: bool
  he_upstream :: string

definition health_of :: "http_server \<Rightarrow> int \<times> health" where
  "health_of h =
     (let s = hs_server h; loaded = sv_index s \<noteq> None
      in (if loaded then 200 else 503,
          \<lparr>he_status = (if loaded then ''ok'' else ''degraded''), he_loaded = loaded,
           he_count = (case sv_index s of None \<Rightarrow> 0 | Some idx \<Rightarrow> int (gm_len (ix_entries idx))),
           he_digest = sv_digest s, he_can_delete = sv_can_delete s, he_upstream = hs_upstream h\<rparr>))"

text \<open>A query parameter that is a positive number, or the default.\<close>

definition positive_param :: "string \<Rightarrow> int \<Rightarrow> int" where
  "positive_param s d = (case parse_int64 s of Some n \<Rightarrow> if 0 < n then n else d | None \<Rightarrow> d)"

definition api_index :: "surroundings \<Rightarrow> request \<Rightarrow> http_server \<Rightarrow> page_result" where
  "api_index sr r h =
     get_paginated_index (sv_index (hs_server h)) (sv_can_delete (hs_server h)) (sr_order sr) (sr_order2 sr)
       (positive_param (rq_page r) 1) (positive_param (rq_limit r) 50) (rq_search r)"

definition handle_delete :: "surroundings \<Rightarrow> string \<Rightarrow> http_server \<Rightarrow> handled" where
  "handle_delete sr hash h =
     (let (resp, calls, saves, s') = delete_route hash (sr_fetch sr) (sr_push sr) (sr_now sr) (hs_server h)
      in (Answer resp, [], h\<lparr>hs_server := s'\<rparr>))"

section \<open>Middleware\<close>

definition unauthorized :: response where
  "unauthorized = (http_error 401 ''Unauthorized'')
     \<lparr>rs_headers := [(''WWW-Authenticate'', ''Basic realm=\"noci\"''), (''Content-Type'', ''text/plain; charset=utf-8''),
       (''X-Content-Type-Options'', ''nosniff'')]\<rparr>"

text \<open>\<open>pattern\<close> is the pattern of the route that matched, without its method. The request is counted
  when the handler ends, by a panic too; None is the panic, which ends the connection.\<close>

definition with_middleware ::
  "surroundings \<Rightarrow> string \<Rightarrow> (http_server \<Rightarrow> handled) \<Rightarrow> request \<Rightarrow> http_server
    \<Rightarrow> response option \<times> http_server" where
  "with_middleware sr pattern handler r h =
     (if \<not> check_auth (hs_auth_key h) r then (Some unauthorized, h)
      else let (ok, h1) =
             (case hs_limiter h of
                None \<Rightarrow> (True, h)
              | Some rl \<Rightarrow> let (ok, rl') = rl_allow (sr_now sr) (rq_ip r) rl in (ok, h\<lparr>hs_limiter := Some rl'\<rparr>))
      in if \<not> ok then (Some (http_error 429 ''Rate Limit Exceeded''), h1)
         else let (a, source, h2) = handler h1
              in (client_response a,
                  h2\<lparr>hs_counts := count_request (rq_method r) pattern (show_int (logged_status a)) source (hs_counts h2)\<rparr>))"

section \<open>Metrics\<close>

text \<open>\<open>quote\<close> is the verb \<open>%q\<close>; \<open>ord\<close> the order in which the counts are visited.\<close>

fun splitN :: "nat \<Rightarrow> char \<Rightarrow> string \<Rightarrow> string list" where
  "splitN 0 c s = []"
| "splitN (Suc 0) c s = [s]"
| "splitN (Suc (Suc n)) c s =
     (if c \<in> set s then takeWhile (\<lambda>x. x \<noteq> c) s # splitN (Suc n) c (tl (dropWhile (\<lambda>x. x \<noteq> c) s)) else [s])"

definition count_line :: "(string \<Rightarrow> string) \<Rightarrow> string \<Rightarrow> int \<Rightarrow> string" where
  "count_line quote key n =
     (let parts = splitN 4 (CHR '' '') key
      in if length parts = 4
         then ''noci_http_requests_total{method='' @ quote (parts ! 0) @ '',path='' @ quote (parts ! 1)
           @ '',status='' @ quote (parts ! 2) @ '',source='' @ quote (parts ! 3) @ ''} '' @ show_int n @ newline
         else [])"

definition gauge :: "string \<Rightarrow> string \<Rightarrow> string \<Rightarrow> string" where
  "gauge name help v =
     newline @ ''# HELP '' @ name @ '' '' @ help @ newline @ ''# TYPE '' @ name @ '' gauge'' @ newline
     @ name @ '' '' @ v @ newline"

definition index_size :: "string list \<Rightarrow> cache_index option \<Rightarrow> int" where
  "index_size ord index =
     (case index of None \<Rightarrow> 0
      | Some idx \<Rightarrow> sum64_from 0 (map (\<lambda>h. case gm_get (ix_entries idx) h of None \<Rightarrow> 0 | Some it \<Rightarrow> it_nar_size it) ord))"

definition metrics_text :: "(string \<Rightarrow> string) \<Rightarrow> string list \<Rightarrow> string list \<Rightarrow> string \<Rightarrow> http_server \<Rightarrow> string" where
  "metrics_text quote ord entries_ord uptime h =
     ''# HELP noci_http_requests_total Total HTTP requests'' @ newline
     @ ''# TYPE noci_http_requests_total counter'' @ newline
     @ concat (map (\<lambda>k. case fmlookup (hs_counts h) k of None \<Rightarrow> [] | Some n \<Rightarrow> count_line quote k n) ord)
     @ gauge ''noci_index_entries'' ''Number of index entries''
         (case sv_index (hs_server h) of None \<Rightarrow> ''0'' | Some idx \<Rightarrow> show_int (int (gm_len (ix_entries idx))))
     @ gauge ''noci_index_size_bytes'' ''Total size of cached packages in bytes''
         (show_int (index_size entries_ord (sv_index (hs_server h))))
     @ gauge ''noci_neg_cache_size'' ''Number of entries in negative cache''
         (show_int (int (card (fmdom' (sv_neg (hs_server h))))))
     @ gauge ''noci_upstream_circuit_breaker_state''
         ''Circuit breaker state (0=closed, 1=half-open, 2=open)''
         (show_int (state_code (br_state (hs_breaker h))))
     @ gauge ''noci_uptime_seconds'' ''Time since proxy started'' uptime"

section \<open>Routes\<close>

text \<open>The embedded assets and the encoders of the JSON answers and the metrics are arguments.\<close>

record presentation =
  pr_index_html :: string
  pr_app_js :: string
  pr_style_css :: string
  pr_favicon :: string
  pr_health :: "health \<Rightarrow> string"
  pr_page :: "paginated \<Rightarrow> string"
  pr_metrics :: "http_server \<Rightarrow> string"

definition static_handler :: "string \<Rightarrow> string \<Rightarrow> http_server \<Rightarrow> handled" where
  "static_handler ctype body h = (Answer (ok_text ctype body), ''cache'', h)"

definition handle_healthz :: "presentation \<Rightarrow> http_server \<Rightarrow> handled" where
  "handle_healthz pr h =
     (let (code, body) = health_of h
      in (Answer \<lparr>rs_status = code, rs_headers = [(''Content-Type'', ''application/json'')], rs_body = pr_health pr body\<rparr>, [], h))"

definition handle_metrics :: "presentation \<Rightarrow> http_server \<Rightarrow> handled" where
  "handle_metrics pr h = (Answer (ok_text ''text/plain; version=0.0.4'' (pr_metrics pr h)), [], h)"

definition handle_api_digest :: "http_server \<Rightarrow> handled" where
  "handle_api_digest h = (Answer (ok_text ''text/plain'' (sv_digest (hs_server h))), ''cache'', h)"

definition handle_api_index :: "presentation \<Rightarrow> surroundings \<Rightarrow> request \<Rightarrow> http_server \<Rightarrow> handled" where
  "handle_api_index pr sr r h =
     (case api_index sr r h of
        IndexNotReady \<Rightarrow> (Answer (http_error 503 ''Index not ready''), ''cache'', h)
      | Page p \<Rightarrow> (Answer (ok_text ''application/json'' (pr_page pr p)), ''cache'', h)
      | PagePanic \<Rightarrow> (Aborted, ''cache'', h))"

text \<open>The patterns of \<open>setupMux\<close> on a clean path; what matches none is answered by the mux itself.\<close>

definition handler_for ::
  "presentation \<Rightarrow> surroundings \<Rightarrow> request \<Rightarrow> (string \<times> (http_server \<Rightarrow> handled)) option" where
  "handler_for pr sr r =
     (let path = rq_path r in
      if rq_method r = ''DELETE''
      then (let hash = trim_prefix path ''/api/delete/''
            in if has_prefix path ''/api/delete/'' \<and> hash \<noteq> [] \<and> CHR ''/'' \<notin> set hash
               then Some (''/api/delete/{hash}'', handle_delete sr hash) else None)
      else if rq_method r \<notin> {''GET'', ''HEAD''} then None
      else if path = ''/'' then Some (''/{$}'', static_handler ''text/html; charset=utf-8'' (pr_index_html pr))
      else if path = ''/app.js'' then Some (path, static_handler ''application/javascript; charset=utf-8'' (pr_app_js pr))
      else if path = ''/style.css'' then Some (path, static_handler ''text/css; charset=utf-8'' (pr_style_css pr))
      else if path = ''/favicon.svg'' then Some (path, static_handler ''image/svg+xml'' (pr_favicon pr))
      else if path = ''/nix-cache-info'' then Some (path, handle_cache_info)
      else if path = ''/public-key'' then Some (path, handle_public_key sr)
      else if has_prefix path ''/nar/'' then Some (''/nar/{filename...}'', handle_nar sr (trim_prefix path ''/nar/''))
      else if path = ''/healthz'' then Some (path, handle_healthz pr)
      else if path = ''/metrics'' then Some (path, handle_metrics pr)
      else if path = ''/api/digest'' then Some (path, handle_api_digest)
      else if path = ''/api/index'' then Some (path, handle_api_index pr sr r)
      else if has_prefix path ''/'' \<and> tl path \<noteq> [] \<and> CHR ''/'' \<notin> set (tl path)
      then Some (''/{path}'', handle_catch_all sr path)
      else None)"

definition serve ::
  "presentation \<Rightarrow> surroundings \<Rightarrow> request \<Rightarrow> http_server \<Rightarrow> (response option \<times> http_server) option" where
  "serve pr sr r h =
     map_option (\<lambda>(pattern, handler). with_middleware sr pattern handler r h) (handler_for pr sr r)"

section \<open>Properties\<close>

lemmas reply_defs = reply_of_def write_copied_def client_response_def logged_status_def

text \<open>An archive whose transfer breaks off is answered 200, with the error message at its end.\<close>

lemma cut_stream_answers_200:
  assumes "parse_oci_digest raw = Inr digest" and "sr_stream sr digest = Cut part" and "part \<noteq> []"
  shows "stream_blob sr raw = Answer (ok_text ''application/x-nix-nar'' (part @ ''Failed to stream archive'' @ newline))"
  using assms by (simp add: stream_blob_def Let_def reply_defs writer_defs ok_text_def)

text \<open>What the client gets of an archive that is streamed to its end, empty or not.\<close>

lemma stream_answer:
  assumes "parse_oci_digest raw = Inr digest" and "sr_stream sr digest = Streamed body"
  shows "client_response (stream_blob sr raw) = Some (ok_text ''application/x-nix-nar'' body)"
  using assms by (simp add: stream_blob_def Let_def reply_defs writer_defs ok_text_def)

text \<open>An empty archive is answered 200 and counted as 404, and so is a request that panicked.\<close>

lemma empty_archive_counted_404:
  assumes "parse_oci_digest raw = Inr digest" and "sr_stream sr digest = Streamed []"
  shows "logged_status (stream_blob sr raw) = 404"
  using assms by (simp add: stream_blob_def Let_def reply_defs writer_defs)

lemma panic_counted_404:
  assumes "check_auth (hs_auth_key h) r" and "hs_limiter h = None" and "api_index sr r h = PagePanic"
  shows "with_middleware sr pattern (handle_api_index pr sr r) r h
    = (None, h\<lparr>hs_counts := count_request (rq_method r) pattern ''404'' ''cache'' (hs_counts h)\<rparr>)"
proof -
  have n: "show_int 404 = ''404''" by code_simp
  show ?thesis using assms by (simp add: with_middleware_def handle_api_index_def reply_defs new_writer_def n)
qed

lemma rl_allow_other: "ip' \<noteq> ip \<Longrightarrow> fmlookup (rl_buckets (snd (rl_allow now ip rl))) ip' = fmlookup (rl_buckets rl) ip'"
  by (simp add: rl_allow_def Let_def)

text \<open>C16: With a key configured nothing happens without it: a request that carries neither the key header
  nor the key as its password is answered 401 by every route of the proxy, and the index, the negative
  cache, the breaker, the rate limiter and the counts are untouched.\<close>

theorem auth_required:
  assumes "hs_auth_key h \<noteq> []" and "rq_key r \<noteq> hs_auth_key h"
    and "\<And>user pass. rq_basic r = Some (user, pass) \<Longrightarrow> pass \<noteq> hs_auth_key h"
    and "serve pr sr r h = Some (resp, h')"
  shows "map_option rs_status resp = Some 401 \<and> h' = h"
proof -
  have "\<not> check_auth (hs_auth_key h) r"
    using assms(1-3) by (auto simp: check_auth_def split: option.splits)
  with assms(4) show ?thesis
    by (auto simp: serve_def with_middleware_def unauthorized_def http_error_def)
qed

text \<open>An index with one package, served with a key.\<close>

definition quiet :: surroundings where
  "quiet = \<lparr>sr_now = 9, sr_done = 10, sr_proxies = [], sr_direct = FetchError, sr_fetch = Inl [],
     sr_push = None, sr_manifest = Inl [], sr_stream = (\<lambda>_. Streamed ''nar''), sr_order = [], sr_order2 = []\<rparr>"

definition plain :: presentation where
  "plain = \<lparr>pr_index_html = [], pr_app_js = [], pr_style_css = [], pr_favicon = [], pr_health = (\<lambda>_. []),
     pr_page = (\<lambda>_. []), pr_metrics = (\<lambda>_. [])\<rparr>"

definition keyed_server :: http_server where
  "keyed_server = \<lparr>hs_server = new_server False, hs_breaker = new_breaker 5 30, hs_limiter = None,
     hs_counts = fmempty, hs_auth_key = ''k'', hs_upstream = []\<rparr>"

definition bare_get :: "string \<Rightarrow> request" where
  "bare_get path = \<lparr>rq_method = ''GET'', rq_path = path, rq_key = [], rq_basic = None, rq_ip = [],
     rq_page = [], rq_limit = [], rq_search = []\<rparr>"

theorem auth_required_witness:
  "\<exists>resp. serve plain quiet (bare_get ''/healthz'') keyed_server = Some (resp, keyed_server)
     \<and> map_option rs_status resp = Some 401"
proof -
  obtain resp h' where s: "serve plain quiet (bare_get ''/healthz'') keyed_server = Some (resp, h')"
    by (cases "serve plain quiet (bare_get ''/healthz'') keyed_server")
      (auto simp: serve_def handler_for_def bare_get_def)
  have "map_option rs_status resp = Some 401 \<and> h' = keyed_server"
    by (rule auth_required [OF _ _ _ s]) (simp_all add: keyed_server_def bare_get_def)
  with s show ?thesis by simp
qed

lemma narinfo_hash_path: "nix_hash_regex hash \<Longrightarrow> narinfo_hash (''/'' @ hash @ ''.narinfo'') = hash"
proof -
  have "trim_suffix ((''/'' @ hash) @ ''.narinfo'') ''.narinfo'' = ''/'' @ hash" by (rule trim_suffix_append)
  then have "trim_suffix (''/'' @ hash @ ''.narinfo'') ''.narinfo'' = ''/'' @ hash" by simp
  then show ?thesis unfolding narinfo_hash_def by (metis trim_prefix_append)
qed

text \<open>C18: A package of the index can be fetched through the proxy: the request for its narinfo is answered
  from the cache with a text whose URL line names a file, and the request for that file streams the
  blob of the digest the index records.\<close>

theorem cached_path_flow:
  assumes "nix_hash_regex hash" and "index_entry (sv_index (hs_server h)) hash = Some e"
    and "fmlookup (sv_neg (hs_server h)) hash = None"
    and "find (\<lambda>l. has_prefix l url_key) (split_on (CHR 0x0A) (it_narinfo e)) \<noteq> None"
    and "is_hex_digest (it_nar_digest e)"
    and "sr_stream sr (sha256_prefix @ to_lower (it_nar_digest e)) = Streamed body"
  shows "\<exists>text file.
    client_response (fst (handle_catch_all sr (''/'' @ hash @ ''.narinfo'') h)) = Some (ok_text ''text/x-nix-narinfo'' text)
    \<and> find (\<lambda>l. has_prefix l url_key) (split_on (CHR 0x0A) text) = Some (''URL: nar/'' @ file)
    \<and> client_response (fst (handle_nar sr file h)) = Some (ok_text ''application/x-nix-nar'' body)"
proof -
  obtain fl where url: "find (\<lambda>l. has_prefix l url_key) (split_on (CHR 0x0A) (rewrite_narinfo_url e))
      = Some (''URL: nar/'' @ fl)"
    and res: "resolve_nar_digest (sv_index (hs_server h)) fl = Some (sha256_prefix @ it_nar_digest e)"
    using rewritten_url [OF assms(4,5)] by blast
  have ne: "rewrite_narinfo_url e \<noteq> []"
    using url by (auto simp: url_key_def)
  have "has_suffix ((''/'' @ hash) @ ''.narinfo'') ''.narinfo''" by (rule has_suffix_append)
  then have sfx: "has_suffix (''/'' @ hash @ ''.narinfo'') ''.narinfo''" by simp
  have "fst (get_narinfo (sr_now sr) (sr_done sr) hash (lookup_view (hs_server h))) = Some (rewrite_narinfo_url e)"
    using assms(2,3) nix_hash_regexD(1) [OF assms(1)] ne by (simp add: get_narinfo_def lookup_view_def Let_def)
  then have "client_response (fst (handle_catch_all sr (''/'' @ hash @ ''.narinfo'') h))
      = Some (ok_text ''text/x-nix-narinfo'' (rewrite_narinfo_url e))"
    unfolding handle_catch_all_def handle_narinfo_def narinfo_hash_path [OF assms(1)]
    using sfx by (simp add: split_beta Let_def client_response_def)
  moreover have "client_response (fst (handle_nar sr fl h)) = Some (ok_text ''application/x-nix-nar'' body)"
    using stream_answer [OF parse_oci_digest_hex(2) [OF assms(5)] assms(6)] by (simp add: handle_nar_def res)
  ultimately show ?thesis using url by blast
qed

definition sample_digest :: string where "sample_digest = replicate 64 CHR ''0''"
definition sample_hash :: string where "sample_hash = replicate 32 CHR ''a''"

definition served_item :: index_item where
  "served_item = \<lparr>it_name = ''a'', it_narinfo = ''URL: nar/x.nar.zst'', it_nar_digest = sample_digest,
     it_nar_size = 1, it_added = 0, it_last_used = 0, it_uploaded_at = 0, it_references = [], it_source = []\<rparr>"

definition loaded_server :: http_server where
  "loaded_server = keyed_server\<lparr>hs_server := (new_server False)\<lparr>sv_index := Some ((new_index ''r'' ''o'' 0)
     \<lparr>ix_entries := Some (fmap_of_list [(sample_hash, served_item)])\<rparr>)\<rparr>\<rparr>"

theorem cached_path_flow_witness:
  "\<exists>text. client_response (fst (handle_catch_all quiet (''/'' @ sample_hash @ ''.narinfo'') loaded_server))
     = Some (ok_text ''text/x-nix-narinfo'' text)"
proof -
  have "nix_hash_regex sample_hash" by code_simp
  moreover have "is_hex_digest (it_nar_digest served_item)" by code_simp
  moreover have "find (\<lambda>l. has_prefix l url_key) (split_on (CHR 0x0A) (it_narinfo served_item)) \<noteq> None"
    by code_simp
  moreover have "index_entry (sv_index (hs_server loaded_server)) sample_hash = Some served_item"
    by (simp add: loaded_server_def index_entry_def gm_get_def)
  moreover have "fmlookup (sv_neg (hs_server loaded_server)) sample_hash = None"
    by (simp add: loaded_server_def new_server_def)
  ultimately show ?thesis
    using cached_path_flow [of sample_hash loaded_server served_item quiet "''nar''"]
    by (auto simp: quiet_def)
qed

end
