(* ===== verification/Server_Disk.thy ===== *)
theory Server_Disk
  imports Config_Load Server_State
begin

text \<open>
  The disk cache of the proxy (\<open>pkg/server/diskcache.go\<close>): where it lies, reading it, and writing it
  through temporary files. The file system maps paths to contents; a rename is atomic, a write may
  be cut short. JSON is an argument.
\<close>

section \<open>Location\<close>

record disk_cache =
  dc_file :: string
  dc_digest :: string

definition resolve_cache_dir :: "outside \<Rightarrow> string \<Rightarrow> string" where
  "resolve_cache_dir w explicit =
     (if explicit \<noteq> [] then explicit
      else if os_getenv w ''NOCI_CACHE_DIR'' \<noteq> [] then os_getenv w ''NOCI_CACHE_DIR''
      else if os_getenv w ''CACHE_DIRECTORY'' \<noteq> [] then os_getenv w ''CACHE_DIRECTORY''
      else case user_home_dir w of Some home \<Rightarrow> path_join [home, ''.cache'', ''noci''] | None \<Rightarrow> [])"

definition safe_name :: "string \<Rightarrow> string" where
  "safe_name s = concat (map (\<lambda>c. if c = CHR ''/'' \<or> c = CHR 0x5C then ''--'' else [c]) (path_clean s))"

text \<open>\<open>filepath.Abs\<close>; \<open>cwd\<close> is the working directory, if it can be found.\<close>

definition path_abs :: "string option \<Rightarrow> string \<Rightarrow> string option" where
  "path_abs cwd p =
     (if p \<noteq> [] \<and> hd p = CHR ''/'' then Some (path_clean p) else map_option (\<lambda>d. path_join [d, p]) cwd)"

definition escapes :: "string option \<Rightarrow> string \<Rightarrow> string \<Rightarrow> bool" where
  "escapes cwd dir repo_dir =
     (case path_abs cwd dir of None \<Rightarrow> False
      | Some abs_dir \<Rightarrow>
          (case path_abs cwd repo_dir of None \<Rightarrow> False
           | Some abs_repo \<Rightarrow> abs_repo \<noteq> abs_dir \<and> \<not> has_prefix abs_repo (abs_dir @ ''/'')))"

definition new_disk_cache :: "outside \<Rightarrow> string option \<Rightarrow> string \<Rightarrow> string \<Rightarrow> string \<Rightarrow> disk_cache option" where
  "new_disk_cache w cwd explicit registry repo =
     (let dir = resolve_cache_dir w explicit;
          repo_dir = path_join [dir, safe_name registry, safe_name repo]
      in if dir = [] then None
         else if escapes cwd dir repo_dir then None
         else Some \<lparr>dc_file = path_join [repo_dir, ''cache-index.json''],
                    dc_digest = path_join [repo_dir, ''cache-index.digest'']\<rparr>)"

section \<open>The file system\<close>

type_synonym fs = "(string, string) fmap"

datatype fs_op = FsWrite string string | FsRename string string | FsRemove string

definition fs_done :: "fs_op \<Rightarrow> fs \<Rightarrow> fs" where
  "fs_done op m =
     (case op of
        FsWrite p c \<Rightarrow> fmupd p c m
      | FsRename a b \<Rightarrow> (case fmlookup m a of Some c \<Rightarrow> fmupd b c (fmdrop a m) | None \<Rightarrow> m)
      | FsRemove p \<Rightarrow> fmdrop p m)"

text \<open>What goes wrong: the error of an operation, how much of a failed write arrives, whether the
  directory can be made, and the error of reading a file that exists.\<close>

record fs_faults =
  ff_op :: "fs_op \<Rightarrow> string option"
  ff_written :: "string \<Rightarrow> nat"
  ff_mkdir :: "string option"
  ff_read :: "string \<Rightarrow> string option"

definition try_op :: "fs_faults \<Rightarrow> fs_op \<Rightarrow> fs \<Rightarrow> string option \<times> fs" where
  "try_op ff op m =
     (case ff_op ff op of
        None \<Rightarrow> (None, fs_done op m)
      | Some err \<Rightarrow> (Some err, (case op of FsWrite p c \<Rightarrow> fmupd p (take (ff_written ff p) c) m | _ \<Rightarrow> m)))"

definition fs_read :: "fs_faults \<Rightarrow> string \<Rightarrow> fs \<Rightarrow> string + string option" where
  "fs_read ff p m =
     (case fmlookup m p of None \<Rightarrow> Inr None
      | Some c \<Rightarrow> (case ff_read ff p of Some err \<Rightarrow> Inl err | None \<Rightarrow> Inr (Some c)))"

section \<open>Load and save\<close>

definition disk_load ::
  "fs_faults \<Rightarrow> (string \<Rightarrow> string + cache_index) \<Rightarrow> (nat \<Rightarrow> time) \<Rightarrow> disk_cache option \<Rightarrow> fs
    \<Rightarrow> string + (cache_index \<times> string) option" where
  "disk_load ff decode clk d m =
     (case d of None \<Rightarrow> Inr None
      | Some dc \<Rightarrow>
          (if dc_file dc = [] then Inr None
           else case fs_read ff (dc_file dc) m of
                  Inl err \<Rightarrow> Inl err
                | Inr None \<Rightarrow> Inr None
                | Inr (Some data) \<Rightarrow>
                    (case decode data of
                       Inl err \<Rightarrow> Inl (''corrupted disk cache index: '' @ err)
                     | Inr idx \<Rightarrow>
                         Inr (Some (upgrade clk idx,
                           case fs_read ff (dc_digest dc) m of Inr (Some dg) \<Rightarrow> trim_space dg | _ \<Rightarrow> [])))))"

definition save_digest :: "fs_faults \<Rightarrow> disk_cache \<Rightarrow> string \<Rightarrow> fs \<Rightarrow> fs" where
  "save_digest ff dc digest m =
     (if digest = [] then m
      else case try_op ff (FsWrite (dc_digest dc @ ''.tmp'') digest) m of
             (Some err, m1) \<Rightarrow> m1
           | (None, m1) \<Rightarrow> snd (try_op ff (FsRename (dc_digest dc @ ''.tmp'') (dc_digest dc)) m1))"

definition disk_save ::
  "fs_faults \<Rightarrow> (cache_index \<Rightarrow> string + string) \<Rightarrow> disk_cache option \<Rightarrow> cache_index option \<Rightarrow> string \<Rightarrow> fs
    \<Rightarrow> string option \<times> fs" where
  "disk_save ff encode d index digest m =
     (case (d, index) of
        (Some dc, Some idx) \<Rightarrow>
          (if dc_file dc = [] then (None, m)
           else case ff_mkdir ff of
                  Some err \<Rightarrow> (Some (''failed to create cache directory: '' @ err), m)
                | None \<Rightarrow>
                    (case encode idx of
                       Inl err \<Rightarrow> (Some err, m)
                     | Inr data \<Rightarrow>
                         (let tmp = dc_file dc @ ''.tmp'' in
                          case try_op ff (FsWrite tmp data) m of
                            (Some err, m1) \<Rightarrow> (Some err, m1)
                          | (None, m1) \<Rightarrow>
                              (case try_op ff (FsRename tmp (dc_file dc)) m1 of
                                 (Some err, m2) \<Rightarrow> (Some err, snd (try_op ff (FsRemove tmp) m2))
                               | (None, m2) \<Rightarrow> (None, save_digest ff dc digest m2)))))
      | _ \<Rightarrow> (None, m))"

text \<open>The disk cache is a source of upgraded indexes.\<close>

definition disk_index :: "fs_faults \<Rightarrow> (string \<Rightarrow> string + cache_index) \<Rightarrow> (nat \<Rightarrow> time) \<Rightarrow> disk_cache option \<Rightarrow> fs
    \<Rightarrow> cache_index option" where
  "disk_index ff decode clk d m =
     (case disk_load ff decode clk d m of Inr (Some (idx, dg)) \<Rightarrow> Some idx | _ \<Rightarrow> None)"

interpretation disk: index_source "disk_index ff decode clk d" for ff decode clk d
  by unfold_locales
    (auto simp: disk_index_def disk_load_def upgrade_ready split: option.splits sum.splits if_splits)

section \<open>Staying inside the cache directory\<close>

lemma clean_rooted_form:
  assumes "p \<noteq> []" and "hd p = CHR ''/''"
  obtains acc where "clean_acc True acc" and "path_clean p = CHR ''/'' # join ''/'' (rev acc)"
proof
  show "clean_acc True (foldl (clean_step True) [] (split_on (CHR ''/'') p))"
    using split_on_pieces by (intro clean_fold_acc clean_acc_Nil)
  show "path_clean p = CHR ''/'' # join ''/'' (rev (foldl (clean_step True) [] (split_on (CHR ''/'') p)))"
    using assms by (simp add: path_clean_def Let_def)
qed

lemma join_snoc: "xs \<noteq> [] \<Longrightarrow> join sep (xs @ [y]) = join sep xs @ sep @ y"
proof (induction xs)
  case (Cons x xs)
  then show ?case by (cases "xs = []") (simp_all add: join_Cons)
qed simp

text \<open>A file name joined to a cleaned directory stays behind it.\<close>

lemma path_join_file:
  assumes "p \<noteq> []" and "hd p = CHR ''/''" and "path_clean p = p" and "plain_comp f"
  shows "path_join [p, f] = (if p = ''/'' then CHR ''/'' # f else p @ CHR ''/'' # f)"
proof -
  obtain acc where acc: "clean_acc True acc" and p: "p = CHR ''/'' # join ''/'' (rev acc)"
    using clean_rooted_form [OF assms(1,2)] assms(3) by metis
  have f: "CHR ''/'' \<notin> set f" "f \<noteq> []" using assms(4) by (auto simp: plain_comp_def)
  have j: "path_join [p, f] = path_clean (CHR ''/'' # join ''/'' (rev acc) @ CHR ''/'' # f)"
    using p f by (simp add: path_join_def)
  show ?thesis
  proof (cases "acc = []")
    case True
    then show ?thesis
      using p j f assms(4) by (simp add: path_clean_rooted split_on_no_sep clean_step_def plain_comp_def)
  next
    case False
    have s: "split_on (CHR ''/'') (join ''/'' (rev acc)) = rev acc"
      using False acc by (intro split_join) (simp_all add: clean_acc_comps)
    have "split_on (CHR ''/'') (join ''/'' (rev acc) @ CHR ''/'' # f) = rev acc @ [f]"
      unfolding split_on_append s by (simp add: split_on_no_sep [OF f(1)])
    then have "foldl (clean_step True) [] (split_on (CHR ''/'') (join ''/'' (rev acc) @ CHR ''/'' # f)) = f # acc"
      using clean_fold_id [OF acc] assms(4) by (simp add: clean_step_def plain_comp_def)
    then have "path_join [p, f] = CHR ''/'' # join ''/'' (rev acc @ [f])"
      unfolding j path_clean_rooted by simp
    moreover have "p \<noteq> ''/''"
    proof -
      obtain a as where ra: "rev acc = a # as" using False by (cases "rev acc") auto
      then have "a \<in> set acc" by (metis list.set_intros(1) set_rev)
      then have "a \<noteq> []" using clean_acc_comps [OF acc] by blast
      then have "join ''/'' (rev acc) \<noteq> []" using hd_join [of a "''/''" as] by (simp add: ra)
      with p show ?thesis by simp
    qed
    ultimately show ?thesis using False p by (simp add: join_snoc)
  qed
qed

lemma path_join_rooted:
  assumes "d \<noteq> []" and "hd d = CHR ''/''"
  shows "path_join (d # ps) \<noteq> [] \<and> hd (path_join (d # ps)) = CHR ''/'' \<and> path_clean (path_join (d # ps)) = path_join (d # ps)"
proof -
  let ?j = "join ''/'' (filter (\<lambda>p. p \<noteq> []) (d # ps))"
  have j: "?j \<noteq> []" "hd ?j = CHR ''/''"
    using hd_join [OF assms(1), of "''/''" "filter (\<lambda>p. p \<noteq> []) ps"] assms by simp_all
  have "path_join (d # ps) = path_clean ?j" using assms(1) by (simp add: path_join_def)
  moreover obtain acc where "path_clean ?j = CHR ''/'' # join ''/'' (rev acc)"
    using clean_rooted_form [OF j] by metis
  ultimately show ?thesis using path_clean_idem [of ?j] by simp
qed

lemma file_inside:
  assumes "dir \<noteq> []" and "hd dir = CHR ''/''" and "path_clean dir \<noteq> ''/''"
    and "\<not> escapes cwd dir (path_join (dir # ps))" and "plain_comp f"
  shows "has_prefix (path_join [path_join (dir # ps), f]) (path_clean dir @ ''/'')"
proof -
  let ?r = "path_join (dir # ps)"
  note r = path_join_rooted [OF assms(1,2), of ps]
  have pj: "path_join [?r, f] = (if ?r = ''/'' then CHR ''/'' # f else ?r @ CHR ''/'' # f)"
    using r assms(5) by (intro path_join_file) blast+
  have "path_abs cwd dir = Some (path_clean dir)" "path_abs cwd ?r = Some ?r"
    using assms(1,2) r by (simp_all add: path_abs_def)
  with assms(4) have "?r = path_clean dir \<or> has_prefix ?r (path_clean dir @ ''/'')" by (simp add: escapes_def)
  then show ?thesis
  proof
    assume e: "?r = path_clean dir"
    with pj assms(3) have "path_join [?r, f] = (path_clean dir @ ''/'') @ f" by simp
    then show ?thesis by (simp only: has_prefix_append)
  next
    assume "has_prefix ?r (path_clean dir @ ''/'')"
    then obtain t where t: "?r = (path_clean dir @ ''/'') @ t" by (auto simp: has_prefix_iff)
    have "?r \<noteq> ''/''"
    proof
      assume "?r = ''/''"
      with t have "length (path_clean dir) + 1 + length t = 1" by (metis length_append length_Cons list.size(3) Suc_eq_plus1 add_0)
      then have "path_clean dir = []" by simp
      then show False using clean_rooted_form [OF assms(1,2)] by (metis list.distinct(1))
    qed
    with pj t have "path_join [?r, f] = (path_clean dir @ ''/'') @ (t @ CHR ''/'' # f)" by simp
    then show ?thesis by (simp only: has_prefix_append)
  qed
qed

text \<open>C35: Whatever the names of the registry and the repository are, \<open>..\<close> and slashes of both kinds
  included, the files of the cache lie below the cache directory.\<close>

theorem disk_cache_stays_inside:
  assumes "new_disk_cache w cwd explicit registry repo = Some d"
    and "has_prefix (resolve_cache_dir w explicit) ''/''" and "path_clean (resolve_cache_dir w explicit) \<noteq> ''/''"
  shows "has_prefix (dc_file d) (path_clean (resolve_cache_dir w explicit) @ ''/'')
    \<and> has_prefix (dc_digest d) (path_clean (resolve_cache_dir w explicit) @ ''/'')"
proof -
  let ?dir = "resolve_cache_dir w explicit"
  have dir: "?dir \<noteq> []" "hd ?dir = CHR ''/''" using assms(2) by (auto simp: has_prefix_iff)
  have ne: "\<not> escapes cwd ?dir (path_join (?dir # [safe_name registry, safe_name repo]))"
    and d: "d = \<lparr>dc_file = path_join [path_join (?dir # [safe_name registry, safe_name repo]), ''cache-index.json''],
      dc_digest = path_join [path_join (?dir # [safe_name registry, safe_name repo]), ''cache-index.digest'']\<rparr>"
    using assms(1) by (auto simp: new_disk_cache_def Let_def split: if_splits)
  have "plain_comp ''cache-index.json''" "plain_comp ''cache-index.digest''" by (simp_all add: plain_comp_def)
  with file_inside [OF dir assms(3) ne] d show ?thesis by simp
qed

definition cache_world :: outside where
  "cache_world = \<lparr>os_getenv = (\<lambda>v. if v = ''NOCI_CACHE_DIR'' then ''/c'' else []), os_read_file = (\<lambda>_. None),
     os_git_remote = None, yaml_noci = (\<lambda>_. None), yaml_gh_hosts = (\<lambda>_. None), json_docker_auths = (\<lambda>_. None)\<rparr>"

theorem disk_cache_stays_inside_witness:
  "\<exists>d. new_disk_cache cache_world None [] ''r'' ''../../etc'' = Some d \<and> has_prefix (dc_file d) ''/c/''"
proof -
  have dir: "resolve_cache_dir cache_world [] = ''/c''" by (simp add: resolve_cache_dir_def cache_world_def)
  have c: "path_clean ''/c'' = ''/c''" by code_simp
  have "\<not> escapes None ''/c'' (path_join [''/c'', safe_name ''r'', safe_name ''../../etc''])" by code_simp
  then obtain d where d: "new_disk_cache cache_world None [] ''r'' ''../../etc'' = Some d"
    by (simp add: new_disk_cache_def dir Let_def)
  have "has_prefix (dc_file d) (path_clean ''/c'' @ ''/'')"
    using disk_cache_stays_inside [OF d] by (simp add: dir c)
  with d c show ?thesis by auto
qed

section \<open>Crashes\<close>

text \<open>What \<open>Save\<close> does to the file system when nothing fails.\<close>

definition save_ops :: "disk_cache \<Rightarrow> string \<Rightarrow> string \<Rightarrow> fs_op list" where
  "save_ops dc data digest =
     [FsWrite (dc_file dc @ ''.tmp'') data, FsRename (dc_file dc @ ''.tmp'') (dc_file dc)]
     @ (if digest = [] then []
        else [FsWrite (dc_digest dc @ ''.tmp'') digest, FsRename (dc_digest dc @ ''.tmp'') (dc_digest dc)])"

definition no_faults :: fs_faults where
  "no_faults = \<lparr>ff_op = (\<lambda>_. None), ff_written = (\<lambda>_. 0), ff_mkdir = None, ff_read = (\<lambda>_. None)\<rparr>"

lemma disk_save_ops:
  assumes "dc_file dc \<noteq> []" and "encode idx = Inr data"
  shows "disk_save no_faults encode (Some dc) (Some idx) digest m = (None, foldl (\<lambda>m op. fs_done op m) m (save_ops dc data digest))"
  using assms by (simp add: disk_save_def no_faults_def try_op_def save_digest_def save_ops_def Let_def)

text \<open>The file systems a process that dies in the middle can leave behind: nothing more is done, the
  write in progress is cut short, or the operation is completed and the process dies later.\<close>

inductive crashed :: "fs_op list \<Rightarrow> fs \<Rightarrow> fs \<Rightarrow> bool" where
  crash_now: "crashed ops m m"
| crash_torn: "crashed (FsWrite p c # ops) m (fmupd p (take k c) m)"
| crash_later: "crashed ops (fs_done op m) m' \<Longrightarrow> crashed (op # ops) m m'"

inductive_cases crashed_NilE: "crashed [] m m'"
inductive_cases crashed_ConsE: "crashed (op # ops) m m'"

definition distinct_paths :: "disk_cache \<Rightarrow> bool" where
  "distinct_paths dc \<longleftrightarrow> distinct [dc_file dc, dc_file dc @ ''.tmp'', dc_digest dc, dc_digest dc @ ''.tmp'']"

lemma crash_outcomes:
  assumes "distinct_paths dc" and "crashed (save_ops dc data digest) m m'"
  shows "(fmlookup m' (dc_file dc), fmlookup m' (dc_digest dc)) \<in>
    {(fmlookup m (dc_file dc), fmlookup m (dc_digest dc)), (Some data, fmlookup m (dc_digest dc)), (Some data, Some digest)}"
  using assms
  by (auto simp: save_ops_def distinct_paths_def fs_done_def split: if_splits
      elim!: crashed_ConsE crashed_NilE)

text \<open>C14: A crash while the cache is saved never damages it: whenever the process dies, the index file
  holds the old or the new index whole, and the digest file names the new index only if that is the
  index on disk.\<close>

theorem crash_keeps_cache:
  assumes "distinct_paths dc" and "crashed (save_ops dc data digest) m m'"
  shows "(fmlookup m' (dc_file dc), fmlookup m' (dc_digest dc)) \<in>
    {(fmlookup m (dc_file dc), fmlookup m (dc_digest dc)), (Some data, fmlookup m (dc_digest dc)), (Some data, Some digest)}"
  by (rule crash_outcomes [OF assms])

lemma save_load:
  assumes "distinct_paths dc" and "dc_file dc \<noteq> []" and "encode idx = Inr data" and "decode data = Inr idx"
    and "digest \<noteq> []" and "trim_space digest = digest"
  shows "disk_load no_faults decode clk (Some dc) (snd (disk_save no_faults encode (Some dc) (Some idx) digest m))
    = Inr (Some (upgrade clk idx, digest))"
  unfolding disk_save_ops [where encode = encode, OF assms(2,3)] snd_conv using assms
  by (auto simp: save_ops_def disk_load_def fs_read_def no_faults_def fs_done_def distinct_paths_def)

text \<open>The paths of a real cache are distinct.\<close>

lemma append_json_digest: "p @ ''cache-index.json'' @ x \<noteq> p @ ''cache-index.digest'' @ y"
  by simp

definition sample_cache :: disk_cache where
  "sample_cache = \<lparr>dc_file = ''/c/r/o/cache-index.json'', dc_digest = ''/c/r/o/cache-index.digest''\<rparr>"

theorem crash_keeps_cache_witness:
  "fmlookup (fmupd ''/c/r/o/cache-index.json.tmp'' ''n'' (fmap_of_list [(''/c/r/o/cache-index.json'', ''old'')]))
     ''/c/r/o/cache-index.json'' \<in> {Some ''old'', Some ''new''}"
proof -
  let ?m = "fmap_of_list [(''/c/r/o/cache-index.json'', ''old'')]"
  have "crashed (save_ops sample_cache ''new'' ''d'') ?m (fmupd ''/c/r/o/cache-index.json.tmp'' (take 1 ''new'') ?m)"
    unfolding save_ops_def append_Cons by (simp only: sample_cache_def disk_cache.select_convs crash_torn append_Cons append_Nil)
  moreover have "distinct_paths sample_cache" by (simp add: distinct_paths_def sample_cache_def)
  ultimately have "(fmlookup (fmupd ''/c/r/o/cache-index.json.tmp'' (take 1 ''new'') ?m) (dc_file sample_cache),
      fmlookup (fmupd ''/c/r/o/cache-index.json.tmp'' (take 1 ''new'') ?m) (dc_digest sample_cache))
    \<in> {(fmlookup ?m (dc_file sample_cache), fmlookup ?m (dc_digest sample_cache)),
        (Some ''new'', fmlookup ?m (dc_digest sample_cache)), (Some ''new'', Some ''d'')}"
    by (intro crash_keeps_cache)
  then show ?thesis by (auto simp: sample_cache_def)
qed

end
