(* ===== verification/Cli.thy ===== *)
theory Cli
  imports App_Push Server_Http Server_Disk
begin

text \<open>
  The shell of the program: the flags all commands share (\<open>cmd/common.go\<close>), the root command
  (\<open>cmd/root.go\<close>, \<open>main.go\<close>), the log (\<open>pkg/log\<close>) and the \<open>proxy\<close> command, which hands its flags to
  the server. That cobra parses the flags while the root command runs is part of the model: the
  parser is an argument.
\<close>

section \<open>The flags all commands share\<close>

record common_flags =
  cm_repo :: string
  cm_registry :: string
  cm_extra :: "string list"

text \<open>\<open>Register\<close>: the values of flags that are not given.\<close>

definition default_flags :: common_flags where
  "default_flags = \<lparr>cm_repo = [], cm_registry = ''ghcr.io'', cm_extra = []\<rparr>"

definition flag_options :: "common_flags \<Rightarrow> config_options" where
  "flag_options cf = \<lparr>op_registry = cm_registry cf, op_repo = cm_repo cf, op_token = [], op_extra = cm_extra cf\<rparr>"

definition resolve_config :: "outside \<Rightarrow> common_flags \<Rightarrow> config_error + config" where
  "resolve_config out cf = load out (flag_options cf)"

definition resolve_flags :: "outside \<Rightarrow> common_flags \<Rightarrow> config_error + target" where
  "resolve_flags out cf = (case resolve_config out cf of Inl e \<Rightarrow> Inl e | Inr cfg \<Rightarrow> Inr (cf_primary cfg))"

text \<open>The default of \<open>--registry\<close> is not empty, so \<open>NOCI_REGISTRY\<close> has no effect on any command.\<close>

lemma env_registry_ignored:
  assumes "resolve_flags out (default_flags\<lparr>cm_repo := repo, cm_extra := extra\<rparr>) = Inr t"
  shows "tg_registry t = ''ghcr.io''"
  using assms
  by (auto simp: resolve_flags_def resolve_config_def flag_options_def default_flags_def load_def resolve_registry_def
      or_else_def Let_def split: sum.splits if_splits)

section \<open>The log\<close>

datatype log_mode = ModeText | ModeJson
datatype log_verbosity = Quiet | Normal | Verbose
datatype log_level = Info | Success | Warning | Action | Debug

text \<open>\<open>Verbosity\<close> is an integer in Go, and compared as one.\<close>

fun verbosity_value :: "log_verbosity \<Rightarrow> nat" where
  "verbosity_value Quiet = 0"
| "verbosity_value Normal = 1"
| "verbosity_value Verbose = 2"

instantiation log_verbosity :: linorder
begin

definition less_eq_log_verbosity :: "log_verbosity \<Rightarrow> log_verbosity \<Rightarrow> bool" where
  "less_eq_log_verbosity v u \<longleftrightarrow> verbosity_value v \<le> verbosity_value u"

definition less_log_verbosity :: "log_verbosity \<Rightarrow> log_verbosity \<Rightarrow> bool" where
  "less_log_verbosity v u \<longleftrightarrow> verbosity_value v < verbosity_value u"

instance
proof
  fix v u :: log_verbosity
  show "v \<le> u \<Longrightarrow> u \<le> v \<Longrightarrow> v = u"
    by (cases v; cases u) (simp_all add: less_eq_log_verbosity_def)
qed (auto simp: less_eq_log_verbosity_def less_log_verbosity_def)

end

lemmas verbosity_order = less_eq_log_verbosity_def less_log_verbosity_def

record log_settings =
  lo_mode :: log_mode
  lo_verbosity :: log_verbosity

definition default_log :: log_settings where
  "default_log = \<lparr>lo_mode = ModeText, lo_verbosity = Normal\<rparr>"

fun level_name :: "log_level \<Rightarrow> string" where
  "level_name Info = ''info''"
| "level_name Success = ''success''"
| "level_name Warning = ''warning''"
| "level_name Action = ''action''"
| "level_name Debug = ''debug''"

text \<open>The signs at the start of a line, in UTF-8.\<close>

fun level_sign :: "log_level \<Rightarrow> string" where
  "level_sign Info = [CHR 0xE2, CHR 0x84, CHR 0xB9]"
| "level_sign Success = [CHR 0xE2, CHR 0x9C, CHR 0x94]"
| "level_sign Warning = [CHR 0xE2, CHR 0x9A, CHR 0xA0]"
| "level_sign Action = [CHR 0xE2, CHR 0x96, CHR 0xB6]"
| "level_sign Debug = [CHR 0xE2, CHR 0x80, CHR 0xA6]"

fun shown :: "log_verbosity \<Rightarrow> log_level \<Rightarrow> bool" where
  "shown v Success = True"
| "shown v Warning = True"
| "shown v Debug = (\<not> v < Verbose)"
| "shown v Info = (v \<noteq> Quiet)"
| "shown v Action = (v \<noteq> Quiet)"

text \<open>\<open>json\<close> is \<open>json.Marshal\<close> of the entry with the time of the call. The result is what is written to
  standard error.\<close>

definition log_output :: "(string \<Rightarrow> string \<Rightarrow> string) \<Rightarrow> log_settings \<Rightarrow> log_level \<Rightarrow> string \<Rightarrow> string" where
  "log_output json st lev msg =
     (if \<not> shown (lo_verbosity st) lev then []
      else if lo_mode st = ModeJson then json (level_name lev) msg @ newline
      else level_sign lev @ '' [noci] '' @ msg @ newline)"

lemma shown_mono: "v \<le> u \<Longrightarrow> shown v lev \<Longrightarrow> shown u lev"
  by (cases lev; cases v; cases u) (simp_all add: verbosity_order)

section \<open>The root command\<close>

record root_flags =
  ro_json :: bool
  ro_verbosity :: int
  ro_quiet :: bool

definition unparsed :: root_flags where
  "unparsed = \<lparr>ro_json = False, ro_verbosity = 0, ro_quiet = False\<rparr>"

definition set_up_log :: "root_flags \<Rightarrow> log_settings \<Rightarrow> log_settings" where
  "set_up_log fl st =
     (let st1 = (if ro_json fl then st\<lparr>lo_mode := ModeJson\<rparr> else st)
      in if ro_quiet fl then st1\<lparr>lo_verbosity := Quiet\<rparr>
         else if 2 \<le> ro_verbosity fl then st1\<lparr>lo_verbosity := Verbose\<rparr>
         else if 1 \<le> ro_verbosity fl then st1\<lparr>lo_verbosity := Verbose\<rparr>
         else st1)"

text \<open>\<open>ExecuteContext\<close> looks at the flags before cobra parses them: \<open>parse\<close> and \<open>body\<close> run in
  \<open>RootCmd.ExecuteContext\<close>.\<close>

definition execute_context ::
  "(string list \<Rightarrow> string + root_flags) \<Rightarrow> (root_flags \<Rightarrow> log_settings \<Rightarrow> string list \<Rightarrow> string option)
    \<Rightarrow> string list \<Rightarrow> string option" where
  "execute_context parse body args =
     (let st = set_up_log unparsed default_log
      in case parse args of Inl err \<Rightarrow> Some err | Inr fl \<Rightarrow> body fl st args)"

text \<open>The exit code and what \<open>main\<close> writes to standard error.\<close>

definition main_exit :: "string option \<Rightarrow> nat \<times> string" where
  "main_exit err = (case err of None \<Rightarrow> (0, []) | Some e \<Rightarrow> (1, ''Error: '' @ e @ newline))"

text \<open>So \<open>--json\<close>, \<open>--verbose\<close> and \<open>--quiet\<close> leave the log as it is.\<close>

lemma log_flags_ignored:
  assumes "parse args = Inr fl"
  shows "execute_context parse body args = body fl default_log args"
  using assms by (simp add: execute_context_def set_up_log_def unparsed_def)

lemma quiet_would_hide: "log_output json (set_up_log \<lparr>ro_json = False, ro_verbosity = 0, ro_quiet = True\<rparr> default_log) Info msg = []"
  by (simp add: log_output_def set_up_log_def)

section \<open>The proxy command\<close>

text \<open>What \<open>runProxy\<close> hands to \<open>Start\<close>: the server, its reverse proxies and its disk cache.\<close>

datatype proxy_start = ProxyErr config_error | ProxyPanic | ProxyUp http_server "string list" "disk_cache option"

definition run_proxy ::
  "outside \<Rightarrow> string option \<Rightarrow> (string \<Rightarrow> bool) \<Rightarrow> common_flags \<Rightarrow> proxy_flags \<Rightarrow> proxy_start" where
  "run_proxy out cwd parses cf fl =
     (case resolve_flags out cf of
        Inl e \<Rightarrow> ProxyErr e
      | Inr t \<Rightarrow>
          (let disk = new_disk_cache out cwd (px_cache_dir fl) (tg_registry t) (tg_repo t)
           in case new_http_server (tg_registry t) (tg_repo t) (proxy_addr fl) (proxy_auth_key out fl) (px_rate fl)
                     (effective_upstreams fl) parses (disk \<noteq> None) of
                None \<Rightarrow> ProxyPanic
              | Some (h, proxies) \<Rightarrow> ProxyUp h proxies disk))"

lemma load_named:
  "load out opts = Inr cfg \<Longrightarrow> tg_registry (cf_primary cfg) \<noteq> [] \<and> tg_repo (cf_primary cfg) \<noteq> []"
  by (auto simp: load_def resolve_registry_def or_else_def Let_def split: sum.splits if_splits)

text \<open>\<open>NewServer\<close> panics on empty arguments; the command never passes one.\<close>

lemma proxy_never_panics: "run_proxy out cwd parses cf fl \<noteq> ProxyPanic"
proof (cases "resolve_config out cf")
  case (Inr cfg)
  then have "tg_registry (cf_primary cfg) \<noteq> []" "tg_repo (cf_primary cfg) \<noteq> []"
    using load_named by (auto simp: resolve_config_def)
  with Inr show ?thesis
    by (simp add: run_proxy_def resolve_flags_def Let_def new_http_server_def proxy_addr_def)
qed (simp add: run_proxy_def resolve_flags_def)

text \<open>A key that is configured guards every route from the first request on.\<close>

lemma proxy_key_guards:
  assumes "run_proxy out cwd parses cf fl = ProxyUp h proxies disk" and "px_auth_key fl \<noteq> []"
    and "rq_key r = []" and "rq_basic r = None"
  shows "\<not> check_auth (hs_auth_key h) r"
  using assms
  by (auto simp: run_proxy_def check_auth_def new_http_server_def proxy_auth_key_def or_else_def Let_def
      split: sum.splits option.splits if_splits)

end
