(* ===== verification/Server_Run.thy ===== *)
theory Server_Run
  imports Server_Http Server_Disk Oci_Store
begin

text \<open>
  A running proxy on its registry and its disk: \<open>Start\<close>, the sync loop, a deletion with its
  background work, the saves that wait in goroutines, the death of the process and the next start.
  Between the fetch of an index and its installation, and between an installation and its save,
  anything else may happen; a save, once it runs, is one step. The store of \<open>Server_State\<close> is the
  client of \<open>Oci_Manifest\<close>.
\<close>

section \<open>State\<close>

text \<open>What does not change while the proxy lives: the registry, the codecs, where the disk cache is
  and how an index is written to it.\<close>

record site =
  si_net :: network
  si_codecs :: codecs
  si_cache :: "disk_cache option"
  si_encode :: "cache_index \<Rightarrow> string + string"
  si_decode :: "string \<Rightarrow> string + cache_index"

text \<open>\<open>px_flight\<close>: indexes that were fetched and are not yet installed, with the digest the sync loop
  records after them; \<open>px_saves\<close>: saves that have not run; \<open>px_cleanups\<close>: deleted packages whose
  manifest is still there.\<close>

record proxy =
  px_server :: server
  px_world :: world
  px_fs :: fs
  px_flight :: "(cache_index \<times> string option) list"
  px_saves :: "disk_save list"
  px_cleanups :: "string list"

section \<open>Start\<close>

definition idle_proxy :: "server \<Rightarrow> world \<Rightarrow> fs \<Rightarrow> disk_save list \<Rightarrow> proxy" where
  "idle_proxy s w m saves =
     \<lparr>px_server = s, px_world = w, px_fs = m, px_flight = [], px_saves = saves, px_cleanups = []\<rparr>"

definition on_disk :: "site \<Rightarrow> fs_faults \<Rightarrow> (nat \<Rightarrow> time) \<Rightarrow> fs \<Rightarrow> (cache_index \<times> string) option" where
  "on_disk si ff clk m = (case disk_load ff (si_decode si) clk (si_cache si) m of Inl _ \<Rightarrow> None | Inr d \<Rightarrow> d)"

definition start_proxy :: "site \<Rightarrow> fs_faults \<Rightarrow> (nat \<Rightarrow> time) \<Rightarrow> time \<Rightarrow> fs \<Rightarrow> world \<Rightarrow> proxy" where
  "start_proxy si ff clk now m w =
     (let disk = on_disk si ff clk m; s0 = new_server (si_cache si \<noteq> None)
      in case manifest_exists (si_net si) ''noci-index'' w of ((ex, digest), w1) \<Rightarrow>
           (if ex \<and> digest \<noteq> [] \<and> digest = sv_digest (load_from_disk disk now s0)
            then case start_server disk ex digest (Inl []) now s0 of (saves, s) \<Rightarrow> idle_proxy s w1 m saves
            else case fetch_index (si_net si) (si_codecs si) w1 of (fetched, w2) \<Rightarrow>
                   (case start_server disk ex digest fetched now s0 of (saves, s) \<Rightarrow> idle_proxy s w2 m saves)))"

section \<open>Synchronisation\<close>

definition fetch_into_flight :: "site \<Rightarrow> string option \<Rightarrow> world \<Rightarrow> proxy \<Rightarrow> proxy" where
  "fetch_into_flight si dg w p =
     (case fetch_index (si_net si) (si_codecs si) w of
        (Inl err, w1) \<Rightarrow> p\<lparr>px_world := w1\<rparr>
      | (Inr idx, w1) \<Rightarrow> p\<lparr>px_world := w1, px_flight := px_flight p @ [(idx, dg)]\<rparr>)"

definition sync_fetch :: "site \<Rightarrow> proxy \<Rightarrow> proxy" where
  "sync_fetch si p =
     (case manifest_exists (si_net si) ''noci-index'' (px_world p) of ((ex, remote), w1) \<Rightarrow>
        (if ex \<and> remote \<noteq> [] \<and> remote \<noteq> sv_digest (px_server p)
         then fetch_into_flight si (Some remote) w1 p else p\<lparr>px_world := w1\<rparr>))"

definition install :: "time \<Rightarrow> cache_index \<times> string option \<Rightarrow> proxy \<Rightarrow> proxy" where
  "install now f p =
     (case refresh_index (Inr (fst f)) now (px_server p) of (_, saves, s) \<Rightarrow>
        p\<lparr>px_server := (case snd f of None \<Rightarrow> s | Some dg \<Rightarrow> s\<lparr>sv_digest := dg\<rparr>),
          px_saves := px_saves p @ saves, px_flight := remove1 f (px_flight p)\<rparr>)"

section \<open>Saving\<close>

definition save_now :: "site \<Rightarrow> fs_faults \<Rightarrow> disk_save \<Rightarrow> fs \<Rightarrow> fs" where
  "save_now si ff sv m =
     (case sv of SaveIndex idx dg \<Rightarrow> snd (disk_save ff (si_encode si) (si_cache si) (Some idx) dg m))"

definition run_save :: "site \<Rightarrow> fs_faults \<Rightarrow> disk_save \<Rightarrow> proxy \<Rightarrow> proxy" where
  "run_save si ff sv p = p\<lparr>px_fs := save_now si ff sv (px_fs p), px_saves := remove1 sv (px_saves p)\<rparr>"

section \<open>Deletion\<close>

text \<open>The client stamps the index it pushes, which is the one the proxy then installs and saves.\<close>

definition restamp :: "cache_index \<Rightarrow> disk_save \<Rightarrow> disk_save" where
  "restamp idx sv = (case sv of SaveIndex _ dg \<Rightarrow> SaveIndex idx dg)"

text \<open>None is a panic in the handler, which ends the request and leaves the proxy as it was.\<close>

definition delete_request ::
  "site \<Rightarrow> fs_faults \<Rightarrow> string \<Rightarrow> int \<Rightarrow> proxy \<Rightarrow> response option \<times> proxy" where
  "delete_request si ff hash nano p =
     (let s = px_server p; w = px_world p in
      case fetch_index (si_net si) (si_codecs si) w of (fetched, w1) \<Rightarrow>
        (case delete_route hash fetched None nano s of (resp, calls, saves, s') \<Rightarrow>
           (case calls of
              [] \<Rightarrow> (Some resp, p)
            | [_] \<Rightarrow> (Some resp, p\<lparr>px_world := w1\<rparr>)
            | _ # CallFetch # _ \<Rightarrow> (Some resp, p\<lparr>px_world := w1\<rparr>)
            | _ # CallPush idx # _ \<Rightarrow>
                (case push_index (si_net si) (si_codecs si) idx w1 of
                   (Failed err, w2) \<Rightarrow>
                     (Some (fst (delete_route hash fetched (Some err) nano s)), p\<lparr>px_world := w2\<rparr>)
                 | (Panicked, w2) \<Rightarrow> (None, p\<lparr>px_world := w2\<rparr>)
                 | (Done idx', w2) \<Rightarrow>
                     (Some resp,
                      p\<lparr>px_server := s'\<lparr>sv_index := Some idx'\<rparr>, px_world := w2,
                        px_fs := fold (save_now si ff) (map (restamp idx') saves) (px_fs p),
                        px_cleanups := px_cleanups p @ [hash]\<rparr>)))))"

text \<open>The background work: the manifest is deleted, then the index is fetched again.\<close>

definition cleanup_request :: "site \<Rightarrow> string \<Rightarrow> proxy \<Rightarrow> proxy" where
  "cleanup_request si hash p =
     (case delete_manifest (si_net si) (si_codecs si) hash (px_world p) of (_, w1) \<Rightarrow>
        fetch_into_flight si None w1 (p\<lparr>px_cleanups := remove1 hash (px_cleanups p)\<rparr>))"

section \<open>Steps\<close>

text \<open>What a process that dies may leave of the disk: a save may have been in progress.\<close>

definition torn_disk :: "site \<Rightarrow> proxy \<Rightarrow> fs \<Rightarrow> bool" where
  "torn_disk si p m \<longleftrightarrow> m = px_fs p
     \<or> (\<exists>dc idx dg data. si_cache si = Some dc \<and> SaveIndex idx dg \<in> set (px_saves p)
          \<and> si_encode si idx = Inr data \<and> crashed (save_ops dc data dg) (px_fs p) m)"

inductive proxy_step :: "site \<Rightarrow> proxy \<Rightarrow> proxy \<Rightarrow> bool" for si where
  px_sync: "proxy_step si p (sync_fetch si p)"
| px_install: "f \<in> set (px_flight p) \<Longrightarrow> proxy_step si p (install now f p)"
| px_save: "sv \<in> set (px_saves p) \<Longrightarrow> proxy_step si p (run_save si ff sv p)"
| px_delete: "proxy_step si p (snd (delete_request si ff hash nano p))"
| px_cleanup: "hash \<in> set (px_cleanups p) \<Longrightarrow> proxy_step si p (cleanup_request si hash p)"
| px_lookup: "get_narinfo now now2 hash (lookup_view (px_server p)) = (ans, v) \<Longrightarrow>
    proxy_step si p (p\<lparr>px_server := (px_server p)\<lparr>sv_neg := lk_neg v\<rparr>\<rparr>)"
| px_forget: "proxy_step si p (p\<lparr>px_server := cleanup_neg now (px_server p)\<rparr>)"
| px_preflight: "proxy_step si p (p\<lparr>px_server := preflight_answer can (px_server p)\<rparr>)"
| px_restart: "torn_disk si p m \<Longrightarrow> w_log w = w_log (px_world p) \<Longrightarrow> proxy_step si p (start_proxy si ff clk now m w)"

inductive_cases proxy_stepE: "proxy_step si p p'"

end
