(* ===== verification/Server_Run_Props.thy ===== *)
theory Server_Run_Props
  imports Server_Run
begin

text \<open>
  What a deletion through the proxy guarantees while the process runs, dies and starts again, and
  what breaks it: a refresh or a save that was already under way.
\<close>

section \<open>Logs only grow\<close>

definition follows :: "world \<Rightarrow> world \<Rightarrow> bool" where
  "follows w0 w \<longleftrightarrow> (\<exists>new. w_log w = w_log w0 @ new)"

lemma follows_refl [simp]: "follows w w"
  by (simp add: follows_def)


lemma follows_sends: "sends UNIV w w' \<Longrightarrow> follows w0 w \<Longrightarrow> follows w0 w'"
  by (auto simp: follows_def sends_def)

lemma follows_fetch: "fetch_index nt cd w = (r, w') \<Longrightarrow> follows w0 w \<Longrightarrow> follows w0 w'"
  by (rule follows_sends [OF sends_fetch_index]) auto

lemma follows_exists: "manifest_exists nt tag w = (r, w') \<Longrightarrow> follows w0 w \<Longrightarrow> follows w0 w'"
  by (rule follows_sends [OF sends_manifest_exists]) auto

lemma follows_push: "push_index nt cd idx w = (r, w') \<Longrightarrow> follows w0 w \<Longrightarrow> follows w0 w'"
  by (rule follows_sends [OF sends_push_index]) auto

lemma follows_delete: "delete_manifest nt cd tag w = (r, w') \<Longrightarrow> follows w0 w \<Longrightarrow> follows w0 w'"
  by (rule follows_sends [OF sends_delete_manifest]) auto

lemmas follows_rules = follows_fetch follows_exists follows_push follows_delete

section \<open>The disk\<close>



section \<open>A package that is gone\<close>

abbreviation has_entry :: "cache_index \<Rightarrow> string \<Rightarrow> bool" where
  "has_entry idx h \<equiv> gm_get (ix_entries idx) h \<noteq> None"


text \<open>When an index can be written and read back, what is read lists the same.\<close>

definition keeps_listing :: "site \<Rightarrow> string \<Rightarrow> bool" where
  "keeps_listing si h \<longleftrightarrow> (\<forall>idx data idx'. si_encode si idx = Inr data \<longrightarrow> si_decode si data = Inr idx'
     \<longrightarrow> (has_entry idx' h \<longleftrightarrow> has_entry idx h))"

lemma keeps_listingD:
  "keeps_listing si h \<Longrightarrow> si_encode si idx = Inr data \<Longrightarrow> si_decode si data = Inr idx' \<Longrightarrow> has_entry idx' h \<longleftrightarrow> has_entry idx h"
  unfolding keeps_listing_def by blast

definition off_disk :: "site \<Rightarrow> string \<Rightarrow> fs \<Rightarrow> bool" where
  "off_disk si h m \<longleftrightarrow> (\<forall>dc data idx. si_cache si = Some dc \<longrightarrow> fmlookup m (dc_file dc) = Some data
     \<longrightarrow> si_decode si data = Inr idx \<longrightarrow> \<not> has_entry idx h)"








section \<open>Steps keep it gone\<close>





lemma delete_route_calls:
  assumes "delete_route hash fetched pushed nano s = (resp, calls, saves, s')"
  shows "rs_status resp \<noteq> 200 \<and> calls \<in> {[], [CallFetch]} \<and> saves = [] \<and> s' = s
    \<or> (\<exists>idx. fetched = Inr idx \<and> length hash = 32 \<and> has_entry idx hash \<and> calls = [CallFetch, CallPush (delete_from_index hash idx)]
        \<and> (pushed \<noteq> None \<and> rs_status resp \<noteq> 200 \<and> saves = [] \<and> s' = s
          \<or> pushed = None \<and> rs_status resp = 200
            \<and> saves = (if sv_disk s then [SaveIndex (delete_from_index hash idx) (dirty_digest (sv_digest s) nano)] else [])
            \<and> s' = s\<lparr>sv_index := Some (delete_from_index hash idx), sv_digest := dirty_digest (sv_digest s) nano\<rparr>))"
  using assms
  by (auto simp: delete_route_def delete_package_def http_error_def Let_def
      split: if_splits sum.splits option.splits prod.splits)

text \<open>What a deletion request can do to the proxy: nothing but requests, or the deletion.\<close>

lemma delete_request_cases:
  assumes "delete_request si ff hash nano p = (ans, p')"
  obtains (failed) w where "p' = p\<lparr>px_world := w\<rparr>" "\<And>w0. follows w0 (px_world p) \<Longrightarrow> follows w0 w"
    "\<And>resp. ans = Some resp \<Longrightarrow> rs_status resp \<noteq> 200"
  | (deleted) resp idx idx' w1 w2 where "ans = Some resp" "rs_status resp = 200"
    "fetch_index (si_net si) (si_codecs si) (px_world p) = (Inr idx, w1)" "length hash = 32 \<and> has_entry idx hash"
    "push_index (si_net si) (si_codecs si) (delete_from_index hash idx) w1 = (Done idx', w2)"
    "p' = p\<lparr>px_server := (px_server p)\<lparr>sv_index := Some idx', sv_digest := dirty_digest (sv_digest (px_server p)) nano\<rparr>,
        px_world := w2,
        px_fs := (if sv_disk (px_server p)
                  then save_now si ff (SaveIndex idx' (dirty_digest (sv_digest (px_server p)) nano)) (px_fs p) else px_fs p),
        px_cleanups := px_cleanups p @ [hash]\<rparr>"
proof -
  let ?s = "px_server p"
  obtain fetched w1 where f: "fetch_index (si_net si) (si_codecs si) (px_world p) = (fetched, w1)" by fastforce
  obtain resp calls saves s' where r: "delete_route hash fetched None nano ?s = (resp, calls, saves, s')"
    by (metis prod.exhaust)
  note d = assms [unfolded delete_request_def Let_def f prod.case r]
  from delete_route_calls [OF r] show ?thesis
  proof (elim disjE conjE exE)
    assume c: "rs_status resp \<noteq> 200" "calls \<in> {[], [CallFetch]}"
    show ?thesis
      by (rule failed [of "if calls = [] then px_world p else w1"])
        (use c d follows_fetch [OF f] in \<open>auto split: if_splits\<close>)
  next
    fix idx
    assume c: "fetched = Inr idx" "length hash = 32" "has_entry idx hash" "calls = [CallFetch, CallPush (delete_from_index hash idx)]"
      "rs_status resp = 200"
      "saves = (if sv_disk ?s then [SaveIndex (delete_from_index hash idx) (dirty_digest (sv_digest ?s) nano)] else [])"
      "s' = ?s\<lparr>sv_index := Some (delete_from_index hash idx), sv_digest := dirty_digest (sv_digest ?s) nano\<rparr>"
    obtain out w2 where u: "push_index (si_net si) (si_codecs si) (delete_from_index hash idx) w1 = (out, w2)" by fastforce
    note w2 = follows_push [OF u follows_fetch [OF f]]
    note d2 = d [unfolded c(4) list.case delete_call.case u prod.case]
    show ?thesis
    proof (cases out)
      case (Done idx')
      show ?thesis
        by (rule deleted [OF _ c(5) f [unfolded c(1)] conjI [OF c(2,3)] u [unfolded Done]])
          (use d2 Done c(6,7) in \<open>auto simp: restamp_def\<close>)
    next
      case (Failed err)
      have "rs_status (fst (delete_route hash fetched (Some err) nano ?s)) \<noteq> 200"
      proof -
        obtain r cs sv t where q: "delete_route hash fetched (Some err) nano ?s = (r, cs, sv, t)" by (metis prod.exhaust)
        from delete_route_calls [OF q] q show ?thesis by auto
      qed
      then show ?thesis
        by (intro failed [of w2]) (use d2 Failed w2 in auto)
    next
      case Panicked
      then show ?thesis
        by (intro failed [of w2]) (use d2 w2 in auto)
    qed
  qed simp_all
qed



section \<open>A deleted package stays deleted\<close>


section \<open>What was under way\<close>

text \<open>The hypotheses on refreshes and saves are needed: \<open>indexMu\<close> orders the assignments, not the work they
  belong to. An index that was fetched before the deletion and is installed after it brings the
  package back into the index that is served.\<close>

lemma late_install_resurrects:
  assumes "(idx, dg) \<in> set (px_flight p)" and "delete_request si ff h nano p = (Some resp, p0)" and "has_entry idx h"
  shows "proxy_step si p0 (install now (idx, dg) p0) \<and> index_entry (sv_index (px_server (install now (idx, dg) p0))) h \<noteq> None"
proof -
  from assms(2) have "(idx, dg) \<in> set (px_flight p0)"
    by (cases rule: delete_request_cases) (use assms(1) in auto)
  then have "proxy_step si p0 (install now (idx, dg) p0)" by (rule px_install)
  with assms(3) show ?thesis by (simp add: install_def refresh_index_def index_entry_def split: option.split)
qed

text \<open>A save of that index which runs after the deletion's own puts the package back on the disk.\<close>

lemma late_save_resurrects:
  assumes "SaveIndex idx dg \<in> set (px_saves p)" and "delete_request si ff h nano p = (Some resp, p0)" and "has_entry idx h"
    and "si_cache si = Some dc" and "dc_file dc \<noteq> []" and "distinct_paths dc" and "keeps_listing si h"
    and j: "si_encode si idx = Inr data" "si_decode si data = Inr idx'"
  shows "proxy_step si p0 (run_save si no_faults (SaveIndex idx dg) p0)
    \<and> \<not> off_disk si h (px_fs (run_save si no_faults (SaveIndex idx dg) p0))"
proof -
  from assms(2) have "SaveIndex idx dg \<in> set (px_saves p0)"
    by (cases rule: delete_request_cases) (use assms(1) in auto)
  then have st: "proxy_step si p0 (run_save si no_faults (SaveIndex idx dg) p0)" by (rule px_save)
  have "has_entry idx' h" using keeps_listingD [OF assms(7) j] assms(3) by simp
  have "dc_digest dc @ ''.tmp'' \<noteq> dc_file dc" "dc_digest dc \<noteq> dc_file dc"
    using assms(6) by (auto simp: distinct_paths_def)
  then have "fmlookup (px_fs (run_save si no_faults (SaveIndex idx dg) p0)) (dc_file dc) = Some data"
    unfolding run_save_def save_now_def disk_save.case assms(4) proxy.simps
      disk_save_ops [where encode = "si_encode si", OF assms(5) j(1)]
    using assms(6) by (simp add: save_ops_def fs_done_def distinct_paths_def)
  with j \<open>has_entry idx' h\<close> assms(4) st show ?thesis by (auto simp: off_disk_def)
qed

text \<open>The condition on the save is needed as well: its error is only logged. When the directory of the cache
  cannot be made, the deletion is answered 200 and the old index stays on the disk; a restart without
  the registry serves the package again.\<close>

lemma failed_save_resurrects:
  assumes "delete_request si ff h nano p = (Some resp, p0)" and "rs_status resp = 200" and "ff_mkdir ff = Some err"
    and c: "si_cache si = Some dc" "dc_file dc \<noteq> []"
    and old: "fmlookup (px_fs p) (dc_file dc) = Some data" "si_decode si data = Inr idx" "has_entry idx h"
    and down: "\<And>v. fst (manifest_exists (si_net si) ''noci-index'' v) = (False, [])"
      "\<And>v. \<exists>e. fst (fetch_index (si_net si) (si_codecs si) v) = Inl e"
  shows "index_entry (sv_index (px_server (start_proxy si no_faults clk now (px_fs p0) w))) h \<noteq> None"
proof -
  have fs: "px_fs p0 = px_fs p"
    using assms(1) by (cases rule: delete_request_cases) (use assms(2,3) c in \<open>auto simp: save_now_def disk_save_def\<close>)
  obtain dg where ld: "on_disk si no_faults clk (px_fs p0) = Some (upgrade clk idx, dg)"
    using c old unfolding fs by (auto simp: on_disk_def disk_load_def fs_read_def no_faults_def)
  obtain w1 where e: "manifest_exists (si_net si) ''noci-index'' w = ((False, []), w1)"
    using down(1) [of w] by (metis prod.collapse)
  obtain x w2 where f: "fetch_index (si_net si) (si_codecs si) w1 = (Inl x, w2)"
    using down(2) [of w1] by (metis prod.collapse)
  have "has_entry (upgrade clk idx) h" using old(3) by (simp add: upgrade_get_entry)
  then show ?thesis
    by (simp add: start_proxy_def ld e f c start_server_def load_from_disk_def refresh_index_def new_server_def
        idle_proxy_def index_entry_def Let_def)
qed

text \<open>Saves hold the lock for reading only, so two of them can overlap in the same temporary file: when one
  is renamed while the other is in the middle of its write, the cache holds a piece of an index.\<close>

lemma overlapping_saves_tear:
  "fmlookup (foldl (\<lambda>m op. fs_done op m) m
      [FsWrite (dc_file dc @ ''.tmp'') a, FsWrite (dc_file dc @ ''.tmp'') (take k b), FsRename (dc_file dc @ ''.tmp'') (dc_file dc)])
    (dc_file dc) = Some (take k b)"
  by (simp add: fs_done_def)

text \<open>When nothing comes between, the two halves of a refresh are the tick of the sync loop.\<close>

lemma sync_halves:
  assumes "manifest_exists (si_net si) ''noci-index'' (px_world p) = ((ex, remote), w1)"
    and "fetch_index (si_net si) (si_codecs si) w1 = (fetched, w2)" and "px_flight p = []"
  shows "px_server (case px_flight (sync_fetch si p) of [] \<Rightarrow> sync_fetch si p | f # _ \<Rightarrow> install now f (sync_fetch si p))
    = snd (sync_tick ex remote fetched now (px_server p))"
  using assms
  by (cases fetched) (simp_all add: sync_fetch_def fetch_into_flight_def install_def sync_tick_def refresh_index_def)

section \<open>A run\<close>

text \<open>A registry that is gone after its first accepted PUT, and an index with one package.\<close>

definition after_put :: "oci_request list \<Rightarrow> bool" where
  "after_put h \<longleftrightarrow> list_ex (\<lambda>r. oq_method r = ''PUT'') h"


lemma after_put_append [simp]: "after_put (h @ h') \<longleftrightarrow> after_put h \<or> after_put h'"
  by (simp add: after_put_def)














end
