(* ===== verification/Spec2Isabelle.thy ===== *)
theory Spec2Isabelle
  imports Config_Props App_Index_Props Noci_System Cli Server_Run_Props
begin

text \<open>
  \<^bold>\<open>noci\<close> keeps a Nix binary cache in an OCI registry. A path of the Nix store is a compressed
  archive (a blob) behind a manifest tagged with the hash of the path; one more manifest,
  \<open>noci-index\<close>, points to the index: a JSON document with an entry per hash and the pinned roots.
  \<open>noci push\<close> uploads closures and merges them into the index, \<open>noci proxy\<close> serves the index to Nix
  over HTTP with an upstream as its fallback, \<open>noci gc\<close>, \<open>pin\<close>, \<open>unpin\<close>, \<open>repair\<close>, \<open>index clean\<close> and
  \<open>search\<close> work on the index. This development models the Go program (all of \<open>cmd/\<close> and \<open>pkg/\<close> that
  has logic) as functions on explicit states and proves what its parts promise.

  \<^bold>\<open>Conventions\<close> (\<open>Noci_Prelude\<close>, \<open>Go_Strings\<close>, \<open>Go_Encoding\<close>, \<open>Go_Time\<close>). A Go struct is a record and a
  result \<open>(T, error)\<close> a sum with the error on the left; a panic is \<open>None\<close>, \<open>Panicked\<close> or \<open>Crash\<close>, as the
  text of the operation says. \<open>int64\<close>, \<open>int\<close> and durations are integers with the wrap-around written
  out (\<open>add64\<close>, \<open>mul64\<close>), bytes in bit manipulations are \<open>8 word\<close>, strings are byte strings, a Go map is a
  finite map that may be nil (\<open>'v gomap\<close>). Where Go's map order or the order of goroutines is visible it
  is an argument (\<open>sweep_order\<close>, \<open>cascade_order\<close>, \<open>finish\<close>), with a predicate that says it enumerates the
  map. The standard library's strings, hex, base64, durations, floats and file paths are modelled as
  far as the program uses them.

  \<^bold>\<open>Parameters.\<close> Code outside the repository is an argument: the registry (\<open>network\<close>: an answer for
  every request and history of requests, the clock, the cancellation of the context), the JSON, zstd
  and gzip codecs and SHA-256 (\<open>codecs\<close>), Ed25519, the YAML and JSON decoders, environment and files
  (\<open>outside\<close>), the output of the Nix processes (\<open>nix_tools\<close>, \<open>exporter\<close>), the file system's faults
  (\<open>fs_faults\<close>), the parser of the flags. Theorems that rely on them name the law: \<open>keeps_tags\<close> and
  \<open>keeps_blobs\<close> are the OCI distribution specification: a tag is the manifest put last, and a blob that a
  HEAD on the repository found, or that was committed to one of its upload sessions, is returned under
  its digest until it is deleted. \<open>carries\<close> says that the codecs read back what they wrote: the
  decoded JSON is \<open>json_image\<close> of the index, an empty map of pins being left out by \<open>omitempty\<close> and coming
  back as nil. \<open>keeps_listing\<close> says that a decoded index lists a hash exactly when the encoded one did.
  The witnesses instantiate the laws with concrete registries (\<open>keeper\<close>, \<open>archive\<close>, \<open>racing\<close>,
  \<open>serving_registry\<close>, \<open>closing\<close>, \<open>settled\<close>, \<open>accepting\<close>, \<open>busy\<close>) and with \<open>wire_codecs\<close> (\<open>Oci_Codec\<close>), a
  writer and a reader for every index and manifest.

  \<^bold>\<open>The parts\<close>, from the bottom up.
    \<^item> \<open>Domain_Types\<close> (\<open>pkg/domain/types\<close>, \<open>pkg/config/resolver.go\<close>): hashes, digests, store paths;
      an accepted value is canonical. \<open>Oci_Index\<close> (\<open>pkg/oci/index.go\<close>): the index, its migration
      \<open>upgrade\<close>, entries and pins.
    \<^item> \<open>Gc_Closure\<close>, \<open>Gc_Engine\<close> (\<open>pkg/gc/gc.go\<close>): the two graph searches and \<open>Sweep\<close> phase by
      phase, \<open>CascadeEvict\<close>, \<open>Apply\<close>. \<open>Gc_Correct\<close>, \<open>Gc_Props\<close>, \<open>Gc_Sweep\<close>, \<open>Gc_Cascade\<close>, \<open>Gc_Retention\<close>
      characterise what they keep and evict by the inductive sets \<open>live\<close> and \<open>dependents\<close>.
      \<open>Gc_Runner\<close> (\<open>pkg/gc/runner.go\<close>): \<open>Run\<close> as a trace of calls on an abstract store.
    \<^item> \<open>Nix_Base32\<close>, \<open>Nix_Sign\<close>, \<open>Nix_NarInfo\<close>, \<open>Nix_Runner\<close> (\<open>pkg/nix\<close>): the encoding against the
      number it denotes, keys and fingerprints, the narinfo, the Nix commands with the export of an
      archive, and the test double.
    \<^item> \<open>Config_Load\<close>, \<open>Config_Props\<close> (\<open>pkg/config\<close>): sizes, TTLs, remotes, the resolution of registry,
      repository and token.
    \<^item> \<open>Oci_Transport\<close>, \<open>Oci_Blob\<close>, \<open>Oci_Manifest\<close>, \<open>Oci_Client\<close> (\<open>pkg/oci\<close>): a \<open>world\<close> holds the requests
      sent so far and the client's tokens. Tokens, retries, monolithic and chunked uploads,
      manifests, the index behind its manifest, tags, streaming and probing, progress. \<open>Oci_Upload\<close>
      proves that an upload that is reported was confirmed and covers the file, \<open>Oci_Session\<close> that it
      ended in this repository; \<open>Oci_Store\<close> that a pushed index is fetched again, and what is taken for
      a missing index. \<open>Oci_Codec\<close> and \<open>Oci_Archive\<close> hold the codecs and the registry of the witnesses.
    \<^item> \<open>Publisher\<close>, \<open>Publisher_Props\<close> (\<open>pkg/publisher\<close>): the pipeline from inputs to the merged index;
      the export cache is the step relation \<open>export_step\<close>.
    \<^item> \<open>Circuit_Breaker\<close>, \<open>Server_Proxy\<close>, \<open>Server_Lookup\<close>, \<open>Server_State\<close>, \<open>Server_Http\<close>, \<open>Server_Disk\<close>
      (\<open>pkg/server\<close>): the breaker with its abstract specification, the upstream fallback, the lookups
      with the negative cache, the state behind \<open>indexMu\<close> with the steps that change it, routes and
      middleware, and the disk cache with crashes. \<open>Server_Run\<close> puts the proxy on the registry and the
      disk: fetches, installations, saves, deletions, crashes and restarts interleave in \<open>proxy_step\<close>;
      \<open>Server_Run_Props\<close> shows by its rule induction that a deleted package stays away.
    \<^item> \<open>App_Commands\<close>, \<open>App_Index\<close>, \<open>App_Push\<close>, \<open>Cli\<close> (\<open>cmd/\<close>, \<open>pkg/app\<close>, \<open>pkg/log\<close>, \<open>main.go\<close>): every
      command from its flags to its requests. \<open>App_Props\<close>, \<open>App_Index_Props\<close> and \<open>Noci_System\<close> state what
      holds across components: a pin outlives a collection, a dry run changes nothing and reports what
      the run would do, repair completes the index, a published path is served.

  \<^bold>\<open>Interfaces\<close> are locales: \<open>keyed_deletion\<close> (maps), \<open>graph_search\<close> (interpreted for \<open>scanClosure\<close> and
  \<open>CascadeEvict\<close>), \<open>narinfo_codec\<close> (the compressors), \<open>wire\<close> (a writer and its reader, interpreted for pins, entries,
  indexes and manifests), \<open>runner_contract\<close> (\<open>nix.Runner\<close>, interpreted for the
  exec runner), \<open>index_source\<close> (where the proxy's index comes from, interpreted for the disk and for
  the registry).

  \<^bold>\<open>Loops and bounds.\<close> Retry loops recurse on the number of attempts left, which is the constant of the
  code (four per request, PATCH and PUT, three per upload), so no fuel is needed. The graph searches
  terminate because the visited set grows inside a finite map; the chunk loop because the rest of the
  file shrinks; the size loop because its argument is divided. \<open>ListTags\<close> follows links without a
  bound: \<open>tags_from\<close> is a partial function, and \<open>list_tags_follows_pages\<close> says it returns exactly when
  the pages end. The loops of the proxy are its step relations.

  \<^bold>\<open>Not modelled.\<close> Command trees, help texts and shell completion (\<open>cmd/index.go\<close>, \<open>cmd/version.go\<close>, the
  \<open>cobra.Command\<close> literals) hold no logic beyond registration; the embedded dashboard is served byte for
  byte; \<open>pkg/log/logger.go\<close> are two adapters. Log lines inside operations, profiling output, TLS and
  connection settings, listening, the port file and shutdown leave the states alone. A body of an
  answer is read whole, except when a blob is streamed, where the transfer may break off. Inside one
  publish the uploads of several goroutines run one after another in an order that is an argument, and
  in a proxy a save is one step (\<open>overlapping_saves_tear\<close> shows what two at once can do). The
  JavaScript action and the Nix modules are outside the Go program.
\<close>

end
